theory Spec2Isabelle
  imports Complex_Main "HOL-Library.Log_Nat"
begin

section \<open>Numbers\<close>

text \<open>
  A JavaScript number is an IEEE 754 double. Where a statement depends on it, an operation
  is modelled with its rounding: \<open>fl64 x\<close> is the double nearest to the real number
  \<open>x\<close>, ties to the even significand, with gradual underflow (53 significant bits,
  least exponent -1022); \<open>fl32 x\<close> is the nearest single-precision number, as a store into
  a \<^verbatim>\<open>Float32Array\<close> takes it (24 bits, least exponent -126). So the quotient of two
  doubles \<open>a\<close> and \<open>b\<close> is \<open>fl64 (a / b)\<close>, and a decimal literal \<^verbatim>\<open>0.8\<close> is
  \<open>fl64 0.8\<close>. This is done for the blend factor, for the parameters of the synthetic
  bodies and for the projection of a propagated position. Times in whole milliseconds, the
  placeholder positions written before the first update and the orbit step of the
  synthetic bodies are computed over the real numbers, and a constant stored into a
  \<^verbatim>\<open>Float32Array\<close> is written as its decimal; the signs of zeros are not
  distinguished.
\<close>

text \<open>Rounding to the nearest integer, ties to even.\<close>

definition rne :: "real \<Rightarrow> int" where
  "rne x = (let f = \<lfloor>x\<rfloor>; d = x - of_int f
            in if d < 1 / 2 then f else if 1 / 2 < d then f + 1 else if even f then f else f + 1)"

text \<open>The binary exponent \<open>e\<close> of a positive number \<open>a\<close>: \<open>a\<close> lies between \<open>2^e\<close> and \<open>2^(e+1)\<close>.\<close>

definition expo :: "real \<Rightarrow> int" where
  "expo a = (if 1 \<le> a then bitlen \<lfloor>a\<rfloor> - 1 else - bitlen (\<lceil>1 / a\<rceil> - 1))"

definition pow2 :: "int \<Rightarrow> real" where
  "pow2 k = (if 0 \<le> k then 2 ^ nat k else 1 / 2 ^ nat (- k))"

text \<open>
  Rounding to the binary format with \<open>p\<close> fraction bits and least exponent \<open>emin\<close>: the
  nearest multiple of the unit in the last place of the binade, ties to even. An overflow
  is not a real number: it is handled where it can occur, in the projection.
\<close>

definition round_binary :: "nat \<Rightarrow> int \<Rightarrow> real \<Rightarrow> real" where
  "round_binary p emin x =
     (if x = 0 then 0
      else let e = max (expo \<bar>x\<bar>) emin; u = pow2 (e - int p)
           in of_int (rne (x / u)) * u)"

definition fl64 :: "real \<Rightarrow> real" where
  "fl64 x = round_binary 52 (- 1022) x"

definition fl32 :: "real \<Rightarrow> real" where
  "fl32 x = round_binary 23 (- 126) x"

text \<open>\<^verbatim>\<open>Math.PI\<close>: the double nearest to \<open>pi\<close>, 3.141592653589793.\<close>

definition Math_PI :: real where
  "Math_PI = 884279719003555 / 281474976710656"

text \<open>
  In the projection of a propagated position a double may be NaN or infinite
  (satellite.js returns NaN coordinates for an element set that it cannot parse).
  \<open>NotFinite\<close> stands for NaN, \<^verbatim>\<open>Infinity\<close> and \<^verbatim>\<open>-Infinity\<close> together:
  a sum, a difference or a product with a non-finite operand is non-finite, so is a
  non-finite value divided by a finite one, \<^verbatim>\<open>Math.sin\<close> and \<^verbatim>\<open>Math.cos\<close> of a
  non-finite value are NaN, and the projection divides by \<^verbatim>\<open>Math.PI\<close> and by 180
  only. \<open>dbl x\<close> is the result of an operation whose exact value is \<open>x\<close>: the
  nearest double, or an infinity when that is \<open>2^1024\<close> or beyond.
\<close>

datatype double = NotFinite | Finite real

definition dbl :: "real \<Rightarrow> double" where
  "dbl x = (if 2 ^ 1024 \<le> \<bar>fl64 x\<bar> then NotFinite else Finite (fl64 x))"

definition d_times :: "double \<Rightarrow> double \<Rightarrow> double" where
  "d_times a b = (case a of
                    NotFinite \<Rightarrow> NotFinite
                  | Finite x \<Rightarrow> (case b of NotFinite \<Rightarrow> NotFinite | Finite y \<Rightarrow> dbl (x * y)))"

definition d_plus :: "double \<Rightarrow> double \<Rightarrow> double" where
  "d_plus a b = (case a of
                   NotFinite \<Rightarrow> NotFinite
                 | Finite x \<Rightarrow> (case b of NotFinite \<Rightarrow> NotFinite | Finite y \<Rightarrow> dbl (x + y)))"

definition d_minus :: "double \<Rightarrow> double \<Rightarrow> double" where
  "d_minus a b = (case a of
                    NotFinite \<Rightarrow> NotFinite
                  | Finite x \<Rightarrow> (case b of NotFinite \<Rightarrow> NotFinite | Finite y \<Rightarrow> dbl (x - y)))"

text \<open>Division by a finite double \<open>y\<close>.\<close>

definition d_divide :: "double \<Rightarrow> real \<Rightarrow> double" where
  "d_divide a y = (case a of
                     NotFinite \<Rightarrow> NotFinite
                   | Finite x \<Rightarrow> if y = 0 then NotFinite else dbl (x / y))"

text \<open>
  \<^verbatim>\<open>Math.sin\<close> and \<^verbatim>\<open>Math.cos\<close>. ECMAScript leaves their accuracy to the
  implementation; here the result for a finite argument is the double nearest to the exact
  value. The error bounds proved below rely only on this much: the result is a double of
  magnitude at most 1, within \<open>2^-53\<close> of the exact value; and the evaluations rely
  only on the sine of 0 being 0 and the cosine of 0 being 1, as ECMAScript requires.
\<close>

definition Math_sin :: "double \<Rightarrow> double" where
  "Math_sin a = (case a of NotFinite \<Rightarrow> NotFinite | Finite x \<Rightarrow> Finite (fl64 (sin x)))"

definition Math_cos :: "double \<Rightarrow> double" where
  "Math_cos a = (case a of NotFinite \<Rightarrow> NotFinite | Finite x \<Rightarrow> Finite (fl64 (cos x)))"

section \<open>Values, buffers and the propagation library\<close>

text \<open>
  An element of a \<^verbatim>\<open>Float32Array\<close> is a number or NaN (what storing
  \<^verbatim>\<open>undefined\<close> or a NaN leaves there).
\<close>

datatype f32 = NaN | F32 real

type_synonym float32array = "f32 list"

text \<open>
  The store of a double into a \<^verbatim>\<open>Float32Array\<close>: a finite value is rounded to single
  precision, a NaN is stored as NaN. (The stores of the projection never receive an
  infinity, nor a value that overflows single precision: they receive products of 1.1 with
  values of \<^verbatim>\<open>Math.sin\<close> and \<^verbatim>\<open>Math.cos\<close>, which are NaN or of magnitude at most 1.)
\<close>

definition to_float32 :: "double \<Rightarrow> f32" where
  "to_float32 a = (case a of NotFinite \<Rightarrow> NaN | Finite x \<Rightarrow> F32 (fl32 x))"

text \<open>\<^verbatim>\<open>new Float32Array(n)\<close>: n zeros.\<close>

definition new_Float32Array :: "nat \<Rightarrow> float32array" where
  "new_Float32Array n = replicate n (F32 0)"

text \<open>
  \<^verbatim>\<open>buf[k]\<close> read and then stored into another typed array: an index out of range
  reads \<^verbatim>\<open>undefined\<close>, which is stored as NaN.
\<close>

definition rd :: "float32array \<Rightarrow> nat \<Rightarrow> f32" where
  "rd buf k = (if k < length buf then buf ! k else NaN)"

text \<open>
  The three stores \<^verbatim>\<open>out[i*3+0] = x; out[i*3+1] = y; out[i*3+2] = z\<close>. A store
  out of range of a typed array is ignored, as \<open>list_update\<close> does.
\<close>

definition store3 :: "float32array \<Rightarrow> nat \<Rightarrow> f32 \<times> f32 \<times> f32 \<Rightarrow> float32array" where
  "store3 out i v = (case v of (x, y, z) \<Rightarrow>
     out[i * 3 + 0 := x, i * 3 + 1 := y, i * 3 + 2 := z])"

text \<open>The slot of entry \<open>i\<close>: the three scalars at \<open>3i\<close>, \<open>3i+1\<close>, \<open>3i+2\<close>.\<close>

definition slot :: "float32array \<Rightarrow> nat \<Rightarrow> f32 \<times> f32 \<times> f32" where
  "slot buf i = (rd buf (i * 3 + 0), rd buf (i * 3 + 1), rd buf (i * 3 + 2))"

definition zero3 :: "f32 \<times> f32 \<times> f32" where
  "zero3 = (F32 0, F32 0, F32 0)"

datatype js_error = RangeError | ReferenceError | TypeError

text \<open>
  \<^verbatim>\<open>target.set(source)\<close> on typed arrays: raises RangeError when the source is longer
  than the target, otherwise overwrites the first \<open>length source\<close> elements.
\<close>

definition ta_set :: "float32array \<Rightarrow> float32array \<Rightarrow> js_error + float32array" where
  "ta_set target source =
     (if length source > length target then Inl RangeError
      else Inr (source @ drop (length source) target))"

text \<open>An element-set entry \<^verbatim>\<open>{ name, tle1, tle2 }\<close>; a field may be undefined.\<close>

record tle =
  name :: string
  tle1 :: "string option"
  tle2 :: "string option"

text \<open>\<^verbatim>\<open>!s\<close> on a string or undefined: undefined and the empty string are falsy.\<close>

definition falsy :: "string option \<Rightarrow> bool" where
  "falsy s = (case s of None \<Rightarrow> True | Some str \<Rightarrow> str = [])"

text \<open>
  The external propagation library (satellite.js) is a parameter of the model. A call
  either raises or returns; \<open>propagate_position\<close> is
  \<^verbatim>\<open>satellite.propagate(satrec, now).position\<close>, where \<open>None\<close> is a falsy position.
  A timestamp (\<^verbatim>\<open>new Date()\<close>) is a real number. The geodetic longitude and latitude
  that \<^verbatim>\<open>eciToGeodetic\<close> returns are doubles, in radians, possibly NaN.
\<close>

datatype 'a js = Throws | Returns 'a

record geodetic =
  longitude :: double
  latitude :: double

record ('r, 'p) satellite_js =
  gstime :: "real \<Rightarrow> real"
  twoline2satrec :: "string option \<Rightarrow> string option \<Rightarrow> 'r js"
  propagate_position :: "'r \<Rightarrow> real \<Rightarrow> 'p option js"
  eciToGeodetic :: "'p \<Rightarrow> real \<Rightarrow> geodetic js"

section \<open>The propagation worker (sgp4-worker.js)\<close>

text \<open>
  The worker's globals: the library, present or not after \<^verbatim>\<open>importScripts\<close>
  (\<^verbatim>\<open>satlibLoaded\<close> is \<^verbatim>\<open>typeof satellite !== 'undefined'\<close>), and the held collection.
\<close>

record ('r, 'p) worker_state =
  satellite_w :: "('r, 'p) satellite_js option"
  tleData_w :: "tle list"

definition satlibLoaded :: "('r, 'p) worker_state \<Rightarrow> bool" where
  "satlibLoaded ws = (satellite_w ws \<noteq> None)"

datatype to_worker = SetTLE "tle list option" | Update

datatype from_worker = Ready bool nat | Positions float32array

text \<open>The body of the worker's loop for index \<open>i\<close>, with its try/catch.\<close>

definition worker_body ::
  "('r, 'p) satellite_js \<Rightarrow> real \<Rightarrow> real \<Rightarrow> tle list \<Rightarrow> float32array \<Rightarrow> nat \<Rightarrow> float32array" where
  "worker_body lib now gmst elems out i =
     (let t = elems ! i in
      if falsy (tle1 t) \<or> falsy (tle2 t) then store3 out i (F32 0, F32 0, F32 0)
      else case twoline2satrec lib (tle1 t) (tle2 t) of
        Throws \<Rightarrow> store3 out i (F32 0, F32 0, F32 0)
      | Returns satrec \<Rightarrow>
          (case propagate_position lib satrec now of
             Throws \<Rightarrow> store3 out i (F32 0, F32 0, F32 0)
           | Returns None \<Rightarrow> store3 out i (F32 0, F32 0, F32 0)
           | Returns (Some p) \<Rightarrow>
               (case eciToGeodetic lib p gmst of
                  Throws \<Rightarrow> store3 out i (F32 0, F32 0, F32 0)
                | Returns geo \<Rightarrow>
                    (let lon = d_divide (d_times (longitude geo) (Finite 180)) Math_PI;
                         lat = d_divide (d_times (latitude geo) (Finite 180)) Math_PI;
                         phi = d_times (d_minus (Finite 90) lat) (d_divide (Finite Math_PI) 180);
                         theta = d_times (d_plus lon (Finite 180)) (d_divide (Finite Math_PI) 180);
                         r = Finite (fl64 1.1);
                         x = d_times (d_times r (Math_sin phi)) (Math_cos theta);
                         y = d_times r (Math_cos phi);
                         z = d_times (d_times r (Math_sin phi)) (Math_sin theta)
                     in store3 out i (to_float32 x, to_float32 y, to_float32 z)))))"

text \<open>\<^verbatim>\<open>for (let i = 0; i < tleData.length; i++)\<close> over a fresh zeroed buffer.\<close>

definition worker_positions ::
  "('r, 'p) satellite_js \<Rightarrow> real \<Rightarrow> tle list \<Rightarrow> float32array" where
  "worker_positions lib now elems =
     (let gmst = gstime lib now;
          out = new_Float32Array (length elems * 3)
      in foldl (worker_body lib now gmst elems) out [0..<length elems])"

text \<open>\<^verbatim>\<open>self.onmessage\<close>: the new worker state and the replies posted.\<close>

definition worker_onmessage ::
  "real \<Rightarrow> to_worker \<Rightarrow> ('r, 'p) worker_state \<Rightarrow> ('r, 'p) worker_state \<times> from_worker list" where
  "worker_onmessage now msg ws =
     (case msg of
        SetTLE tle \<Rightarrow>
          (let ws' = ws\<lparr>tleData_w := (case tle of None \<Rightarrow> [] | Some d \<Rightarrow> d)\<rparr>
           in (ws', [Ready (satlibLoaded ws') (length (tleData_w ws'))]))
      | Update \<Rightarrow>
          (case satellite_w ws of
             None \<Rightarrow> (ws, [Positions (new_Float32Array (length (tleData_w ws) * 3))])
           | Some lib \<Rightarrow> (ws, [Positions (worker_positions lib now (tleData_w ws))])))"

section \<open>The main thread (script.js)\<close>

text \<open>
  \<^verbatim>\<open>tlePositionsAttr\<close> is either the \<^verbatim>\<open>a_posNext\<close> attribute, whose array is
  \<^verbatim>\<open>nextSatBuffer\<close> itself, or the \<^verbatim>\<open>position\<close> attribute of the placeholder
  geometry, with an array of its own.
\<close>

datatype posattr = A_posNext | Position float32array

record synth_param =
  altitude :: real
  speed :: real
  phase :: real
  inclination :: real

text \<open>
  The module's globals that the satellite pipeline uses. \<open>tlePoints\<close> says whether the
  points object (with its shader material, its uniforms and a geometry) has been created;
  \<open>u_interp\<close> is \<^verbatim>\<open>tlePoints.material.uniforms.u_interp.value\<close>;
  \<open>tleLatestBuffer\<close> is \<^verbatim>\<open>window._tleLatestBuffer\<close>; a worker instance is a number;
  \<open>syntheticPositions\<close> is the array of \<^verbatim>\<open>syntheticPositionsAttr\<close>.
\<close>

record main_state =
  tleData :: "tle list"
  tleCount :: nat
  tlePoints :: bool
  tlePositionsAttr :: "posattr option"
  prevSatBuffer :: "float32array option"
  nextSatBuffer :: "float32array option"
  u_interp :: real
  satInterpStart :: real
  tleLatestBuffer :: "float32array option"
  lastTleUpdate :: real
  sgp4Worker :: "nat option"
  syntheticParams :: "synth_param list"
  syntheticPositions :: "float32array option"

text \<open>
  The clock readings of one handler run: \<open>date_ms\<close> is \<^verbatim>\<open>new Date()\<close> and
  \<^verbatim>\<open>Date.now()\<close>, in whole milliseconds; \<open>perf_ms\<close> is
  \<^verbatim>\<open>performance.now()\<close>, a double. \<open>perf_s\<close> is
  \<^verbatim>\<open>performance.now() / 1000.0\<close>, the quotient as a double.
\<close>

record clock =
  date_ms :: real
  perf_ms :: real

definition perf_s :: "clock \<Rightarrow> real" where
  "perf_s clk = fl64 (perf_ms clk / 1000.0)"

text \<open>\<^verbatim>\<open>let satInterpDuration = 0.8\<close>: the double nearest to 0.8.\<close>

definition satInterpDuration :: real where
  "satInterpDuration = fl64 0.8"

definition TLE_UPDATE_MS :: real where
  "TLE_UPDATE_MS = 3000"

definition tleUpdateInterval :: real where
  "tleUpdateInterval = 5000"

definition SYNTHETIC_SAT_COUNT :: nat where
  "SYNTHETIC_SAT_COUNT = 2000"

subsection \<open>updateTLEPositionsFallback\<close>

text \<open>
  The body of the fallback's loop for index \<open>i\<close>, with its try/catch;
  \<open>next\<close> is \<^verbatim>\<open>nextSatBuffer\<close>. A falsy position leaves the slot as it is
  (\<^verbatim>\<open>continue\<close>).
\<close>

definition fallback_body ::
  "('r, 'p) satellite_js \<Rightarrow> real \<Rightarrow> real \<Rightarrow> tle list \<Rightarrow> float32array option
     \<Rightarrow> float32array \<Rightarrow> nat \<Rightarrow> float32array" where
  "fallback_body lib now gmst elems next arr i =
     (let t = elems ! i;
          caught = store3 arr i
            (case next of Some nb \<Rightarrow> rd nb (i * 3 + 0) | None \<Rightarrow> F32 0,
             case next of Some nb \<Rightarrow> rd nb (i * 3 + 1) | None \<Rightarrow> F32 0,
             case next of Some nb \<Rightarrow> rd nb (i * 3 + 2) | None \<Rightarrow> F32 0)
      in
      if falsy (tle1 t) \<or> falsy (tle2 t) then
        store3 arr i
          (case next of Some nb \<Rightarrow> rd nb (i * 3 + 0) | None \<Rightarrow> F32 1.1,
           case next of Some nb \<Rightarrow> rd nb (i * 3 + 1) | None \<Rightarrow> F32 0.0,
           case next of Some nb \<Rightarrow> rd nb (i * 3 + 2) | None \<Rightarrow> F32 0.0)
      else case twoline2satrec lib (tle1 t) (tle2 t) of
        Throws \<Rightarrow> caught
      | Returns satrec \<Rightarrow>
          (case propagate_position lib satrec now of
             Throws \<Rightarrow> caught
           | Returns None \<Rightarrow> arr
           | Returns (Some p) \<Rightarrow>
               (case eciToGeodetic lib p gmst of
                  Throws \<Rightarrow> caught
                | Returns geo \<Rightarrow>
                    (let lon = d_divide (d_times (longitude geo) (Finite 180)) Math_PI;
                         lat = d_divide (d_times (latitude geo) (Finite 180)) Math_PI;
                         phi = d_times (d_minus (Finite 90) lat) (d_divide (Finite Math_PI) 180);
                         theta = d_times (d_plus lon (Finite 180)) (d_divide (Finite Math_PI) 180);
                         r = Finite (fl64 1.1);
                         x = d_times (d_times r (Math_sin phi)) (Math_cos theta);
                         y = d_times r (Math_cos phi);
                         z = d_times (d_times r (Math_sin phi)) (Math_sin theta)
                     in store3 arr i (to_float32 x, to_float32 y, to_float32 z)))))"

text \<open>The temporary array \<^verbatim>\<open>arr\<close> after the loop.\<close>

definition fallback_positions ::
  "('r, 'p) satellite_js \<Rightarrow> real \<Rightarrow> float32array option \<Rightarrow> tle list \<Rightarrow> float32array" where
  "fallback_positions lib now next elems =
     (let gmst = gstime lib now;
          count = length elems;
          arr = new_Float32Array (count * 3)
      in foldl (fallback_body lib now gmst elems next) arr [0..<count])"

text \<open>
  The copy kept for lookups:
  \<^verbatim>\<open>if (!latest || latest.length !== arr.length) latest = new Float32Array(arr.length); latest.set(arr)\<close>.
\<close>

definition update_latest :: "float32array \<Rightarrow> main_state \<Rightarrow> js_error + main_state" where
  "update_latest arr s =
     (let latest = (case tleLatestBuffer s of
                      None \<Rightarrow> new_Float32Array (length arr)
                    | Some l \<Rightarrow> if length l \<noteq> length arr then new_Float32Array (length arr) else l)
      in case ta_set latest arr of
           Inl e \<Rightarrow> Inl e
         | Inr latest' \<Rightarrow> Inr (s\<lparr>tleLatestBuffer := Some latest'\<rparr>))"

text \<open>
  The slide of \<^verbatim>\<open>next\<close> into \<^verbatim>\<open>prev\<close> and the copy of the new buffer into
  \<^verbatim>\<open>next\<close>, as both the worker's handler and the fallback do it:
  \<^verbatim>\<open>prevSatBuffer.set(nextSatBuffer); nextSatBuffer.set(arr)\<close>. A raise leaves the
  writes already made.
\<close>

definition slide :: "float32array \<Rightarrow> float32array \<Rightarrow> float32array \<Rightarrow> main_state
    \<Rightarrow> js_error option \<times> main_state" where
  "slide p n arr s =
     (case ta_set p n of
        Inl e \<Rightarrow> (Some e, s)
      | Inr p' \<Rightarrow>
          (case ta_set n arr of
             Inl e \<Rightarrow> (Some e, s\<lparr>prevSatBuffer := Some p'\<rparr>)
           | Inr n' \<Rightarrow> (None, s\<lparr>prevSatBuffer := Some p', nextSatBuffer := Some n'\<rparr>)))"

text \<open>
  \<^verbatim>\<open>updateTLEPositionsFallback\<close>: the exception that leaves it, if any, and the new
  state. \<open>satellite\<close> is the library on the main thread, absent when its script did not
  load (then \<^verbatim>\<open>satellite.gstime\<close> raises a ReferenceError).
\<close>

definition updateTLEPositionsFallback ::
  "('r, 'p) satellite_js option \<Rightarrow> clock \<Rightarrow> main_state \<Rightarrow> js_error option \<times> main_state" where
  "updateTLEPositionsFallback satellite clk s =
     (if tleData s = [] then (None, s)
      else case satellite of
        None \<Rightarrow> (Some ReferenceError, s)
      | Some lib \<Rightarrow>
          (let arr = fallback_positions lib (date_ms clk) (nextSatBuffer s) (tleData s);
               finish = (\<lambda>s1. case update_latest arr s1 of
                            Inl e \<Rightarrow> (Some e, s1)
                          | Inr s2 \<Rightarrow> (None, s2\<lparr>lastTleUpdate := date_ms clk\<rparr>))
           in case (prevSatBuffer s, nextSatBuffer s) of
                (Some p, Some n) \<Rightarrow>
                  (case slide p n arr s of
                     (Some e, s1) \<Rightarrow> (Some e, s1)
                   | (None, s1) \<Rightarrow>
                       if \<not> tlePoints s1 then (Some TypeError, s1)
                       else finish (s1\<lparr>u_interp := 0.0, satInterpStart := perf_s clk\<rparr>))
              | _ \<Rightarrow>
                  (case tlePositionsAttr s of
                     Some (Position a) \<Rightarrow>
                       (case ta_set a arr of
                          Inl e \<Rightarrow> (Some e, s)
                        | Inr a' \<Rightarrow> finish (s\<lparr>tlePositionsAttr := Some (Position a')\<rparr>))
                   | Some A_posNext \<Rightarrow>
                       (case nextSatBuffer s of
                          None \<Rightarrow> (Some TypeError, s)
                        | Some n \<Rightarrow>
                            (case ta_set n arr of
                               Inl e \<Rightarrow> (Some e, s)
                             | Inr n' \<Rightarrow> finish (s\<lparr>nextSatBuffer := Some n'\<rparr>)))
                   | None \<Rightarrow> finish s)))"

subsection \<open>setupSgp4Worker and the worker's message handler\<close>

text \<open>
  What the environment gives for \<^verbatim>\<open>new Worker('sgp4-worker.js')\<close>: \<open>None\<close> when
  \<^verbatim>\<open>typeof Worker === 'undefined'\<close>, otherwise the constructor raises or returns a
  fresh instance.
\<close>

type_synonym worker_env = "nat js option"

definition setupSgp4Worker :: "worker_env \<Rightarrow> main_state \<Rightarrow> main_state" where
  "setupSgp4Worker mk s =
     (case mk of
        None \<Rightarrow> s
      | Some Throws \<Rightarrow> s\<lparr>sgp4Worker := None\<rparr>
      | Some (Returns w) \<Rightarrow> s\<lparr>sgp4Worker := Some w\<rparr>)"

text \<open>
  What a handler does to the outside: a message posted to a worker instance, the
  termination of an instance, a call of \<^verbatim>\<open>updateTLEPositionsFallback\<close>.
\<close>

datatype action = PostMessage nat to_worker | Terminate nat | CallFallback

text \<open>
  \<^verbatim>\<open>sgp4Worker.onmessage\<close>. A positions message is a typed array, always truthy.
  In the ready branch \<^verbatim>\<open>sgp4Worker.terminate()\<close> is inside a try with an empty catch.
\<close>

definition sgp4Worker_onmessage ::
  "clock \<Rightarrow> from_worker \<Rightarrow> main_state \<Rightarrow> js_error option \<times> main_state \<times> action list" where
  "sgp4Worker_onmessage clk msg s =
     (case msg of
        Positions arr \<Rightarrow>
          if tlePositionsAttr s \<noteq> None then
            (case update_latest arr s of
               Inl e \<Rightarrow> (Some e, s, [])
             | Inr s1 \<Rightarrow>
                 (case (prevSatBuffer s1, nextSatBuffer s1) of
                    (Some p, Some n) \<Rightarrow>
                      if tlePoints s1 then
                        (case slide p n arr s1 of
                           (Some e, s2) \<Rightarrow> (Some e, s2, [])
                         | (None, s2) \<Rightarrow>
                             (None, s2\<lparr>u_interp := 0.0, satInterpStart := perf_s clk,
                                       lastTleUpdate := date_ms clk\<rparr>, []))
                      else (None, s1\<lparr>lastTleUpdate := date_ms clk\<rparr>, [])
                  | _ \<Rightarrow> (None, s1\<lparr>lastTleUpdate := date_ms clk\<rparr>, [])))
          else (None, s, [])
      | Ready satlib n \<Rightarrow>
          if \<not> satlib then
            (None, s\<lparr>sgp4Worker := None\<rparr>,
             case sgp4Worker s of Some w \<Rightarrow> [Terminate w] | None \<Rightarrow> [])
          else (None, s, []))"

subsection \<open>fetchTLES\<close>

text \<open>\<^verbatim>\<open>text.split('\n')\<close>.\<close>

fun split_nl :: "string \<Rightarrow> string list" where
  "split_nl [] = [[]]"
| "split_nl (c # cs) =
     (if c = CHR 0x0A then [] # split_nl cs
      else (case split_nl cs of l # ls \<Rightarrow> (c # l) # ls | [] \<Rightarrow> [[c]]))"

text \<open>
  \<^verbatim>\<open>l.trim()\<close> removes white space and line terminators at both ends. A \<open>char\<close> is
  one byte here, so these are the ones up to U+00FF: tab, line feed, vertical tab, form
  feed, carriage return, space and no-break space.
\<close>

definition is_space :: "char \<Rightarrow> bool" where
  "is_space c = (c \<in> set [CHR 0x09, CHR 0x0A, CHR 0x0B, CHR 0x0C, CHR 0x0D, CHR 0x20, CHR 0xA0])"

definition trim :: "string \<Rightarrow> string" where
  "trim l = rev (dropWhile is_space (rev (dropWhile is_space l)))"

text \<open>\<^verbatim>\<open>lines[k]\<close>: undefined out of range.\<close>

definition line_at :: "string list \<Rightarrow> nat \<Rightarrow> string option" where
  "line_at lines k = (if k < length lines then Some (lines ! k) else None)"

text \<open>
  \<^verbatim>\<open>for (let i = 0; i < lines.length; i += 3) { ...; if (!tle1 || !tle2) break; tleData.push(...) }\<close>
\<close>

function fetch_loop :: "string list \<Rightarrow> nat \<Rightarrow> tle list \<Rightarrow> tle list" where
  "fetch_loop lines i acc =
     (if i < length lines then
        (let n = lines ! i; l1 = line_at lines (i + 1); l2 = line_at lines (i + 2)
         in if falsy l1 \<or> falsy l2 then acc
            else fetch_loop lines (i + 3) (acc @ [\<lparr>name = n, tle1 = l1, tle2 = l2\<rparr>]))
      else acc)"
  by pat_completeness auto
termination
  by (relation "measure (\<lambda>(lines, i, acc). length lines - i)") auto

declare fetch_loop.simps [simp del]

definition parse_tles :: "string \<Rightarrow> tle list" where
  "parse_tles txt =
     (let lines = filter (\<lambda>l. l \<noteq> []) (map trim (split_nl txt))
      in fetch_loop lines 0 [])"

text \<open>
  The seeding loop of the two fresh buffers: a ring at radius 1.1, the same values in both.
\<close>

definition seed_body :: "nat \<Rightarrow> float32array \<times> float32array \<Rightarrow> nat \<Rightarrow> float32array \<times> float32array" where
  "seed_body cnt pn i =
     (case pn of (prev, next) \<Rightarrow>
        (let a = (real i / real cnt) * pi * 2;
             r = 1.1;
             prev1 = prev[i * 3 + 0 := F32 (r * cos a)];
             prev2 = prev1[i * 3 + 1 := F32 (r * sin a * 0.1)];
             prev3 = prev2[i * 3 + 2 := F32 (r * sin a)];
             next1 = next[i * 3 + 0 := rd prev3 (i * 3 + 0)];
             next2 = next1[i * 3 + 1 := rd prev3 (i * 3 + 1)];
             next3 = next2[i * 3 + 2 := rd prev3 (i * 3 + 2)]
         in (prev3, next3)))"

definition seed_buffers :: "nat \<Rightarrow> float32array \<times> float32array" where
  "seed_buffers cnt =
     foldl (seed_body cnt) (new_Float32Array (cnt * 3), new_Float32Array (cnt * 3)) [0..<cnt]"

text \<open>
  The array of \<^verbatim>\<open>tlePositionsAttr\<close>, which may be \<^verbatim>\<open>nextSatBuffer\<close> itself, and a
  store into it.
\<close>

definition attr_array :: "main_state \<Rightarrow> float32array option" where
  "attr_array s =
     (case tlePositionsAttr s of
        None \<Rightarrow> None
      | Some (Position a) \<Rightarrow> Some a
      | Some A_posNext \<Rightarrow> nextSatBuffer s)"

definition attr_store3 :: "nat \<Rightarrow> f32 \<times> f32 \<times> f32 \<Rightarrow> main_state \<Rightarrow> main_state" where
  "attr_store3 i v s =
     (case tlePositionsAttr s of
        None \<Rightarrow> s
      | Some (Position a) \<Rightarrow> s\<lparr>tlePositionsAttr := Some (Position (store3 a i v))\<rparr>
      | Some A_posNext \<Rightarrow>
          (case nextSatBuffer s of
             None \<Rightarrow> s
           | Some n \<Rightarrow> s\<lparr>nextSatBuffer := Some (store3 n i v)\<rparr>))"

text \<open>
  \<^verbatim>\<open>updateTLEPositions\<close>: with a worker it posts an update; without one it propagates
  in place into the array of \<^verbatim>\<open>tlePositionsAttr\<close>, skipping an entry that fails.
\<close>

definition updateTLEPositions_body ::
  "('r, 'p) satellite_js \<Rightarrow> real \<Rightarrow> real \<Rightarrow> main_state \<Rightarrow> nat \<Rightarrow> main_state" where
  "updateTLEPositions_body lib now gmst s i =
     (let t = tleData s ! i in
      case twoline2satrec lib (tle1 t) (tle2 t) of
        Throws \<Rightarrow> s
      | Returns satrec \<Rightarrow>
          (case propagate_position lib satrec now of
             Throws \<Rightarrow> s
           | Returns None \<Rightarrow> s
           | Returns (Some p) \<Rightarrow>
               (case eciToGeodetic lib p gmst of
                  Throws \<Rightarrow> s
                | Returns geo \<Rightarrow>
                    (let lon = d_divide (d_times (longitude geo) (Finite 180)) Math_PI;
                         lat = d_divide (d_times (latitude geo) (Finite 180)) Math_PI;
                         phi = d_times (d_minus (Finite 90) lat) (d_divide (Finite Math_PI) 180);
                         theta = d_times (d_plus lon (Finite 180)) (d_divide (Finite Math_PI) 180);
                         r = Finite (fl64 1.1);
                         x = d_times (d_times r (Math_sin phi)) (Math_cos theta);
                         y = d_times r (Math_cos phi);
                         z = d_times (d_times r (Math_sin phi)) (Math_sin theta)
                     in attr_store3 i (to_float32 x, to_float32 y, to_float32 z) s))))"

definition updateTLEPositions ::
  "('r, 'p) satellite_js option \<Rightarrow> clock \<Rightarrow> main_state
     \<Rightarrow> js_error option \<times> main_state \<times> action list" where
  "updateTLEPositions satellite clk s =
     (if tleData s = [] \<or> tlePositionsAttr s = None then (None, s, [])
      else case sgp4Worker s of
        Some w \<Rightarrow> (None, s, [PostMessage w Update])
      | None \<Rightarrow>
          (case satellite of
             None \<Rightarrow> (Some ReferenceError, s, [])
           | Some lib \<Rightarrow>
               (let now = date_ms clk;
                    gmst = gstime lib now;
                    s1 = foldl (updateTLEPositions_body lib now gmst) s [0..<length (tleData s)]
                in (None, s1\<lparr>lastTleUpdate := date_ms clk\<rparr>, []))))"

text \<open>\<^verbatim>\<open>'SYNTH-' + i\<close>: the decimal digits of \<open>i\<close>.\<close>

fun decimal :: "nat \<Rightarrow> string" where
  "decimal n =
     (if n < 10 then [char_of (48 + n)]
      else decimal (n div 10) @ [char_of (48 + n mod 10)])"

text \<open>
  The catch block of \<^verbatim>\<open>fetchTLES\<close>: twelve placeholder entries with empty lines on a
  ring, in a position attribute of their own. \<^verbatim>\<open>tlePoints.geometry\<close> raises when the
  points object does not exist.
\<close>

definition placeholder_body :: "main_state \<Rightarrow> nat \<Rightarrow> main_state" where
  "placeholder_body s i =
     (let a = (real i / real (length (tleData s))) * pi * 2;
          r = 1.1
      in attr_store3 i (F32 (r * cos a), F32 (r * sin a * 0.2), F32 (r * sin a)) s)"

definition fetchTLES_catch :: "clock \<Rightarrow> main_state \<Rightarrow> js_error option \<times> main_state" where
  "fetchTLES_catch clk s =
     (let s1 = s\<lparr>tleData :=
                  map (\<lambda>i. \<lparr>name = ''SYNTH-'' @ decimal i, tle1 = Some [], tle2 = Some []\<rparr>) [0..<12]\<rparr>;
          cnt = length (tleData s1);
          positions = new_Float32Array (cnt * 3)
      in if \<not> tlePoints s1 then (Some TypeError, s1)
         else
           (let s2 = s1\<lparr>tlePositionsAttr := Some (Position positions)\<rparr>;
                s3 = foldl placeholder_body s2 [0..<length (tleData s2)]
            in (None, s3\<lparr>lastTleUpdate := date_ms clk\<rparr>)))"

text \<open>
  \<^verbatim>\<open>fetchTLES\<close> from the moment the response text is there (\<open>Some txt\<close>) or the fetch
  has failed (\<open>None\<close>). An exception in the try block runs the catch block on the
  state reached so far.
\<close>

definition fetchTLES ::
  "string option \<Rightarrow> worker_env \<Rightarrow> ('r, 'p) satellite_js option \<Rightarrow> clock \<Rightarrow> main_state
     \<Rightarrow> js_error option \<times> main_state \<times> action list" where
  "fetchTLES res mk satellite clk s =
     (case res of
        None \<Rightarrow> (case fetchTLES_catch clk s of (e, s') \<Rightarrow> (e, s', []))
      | Some txt \<Rightarrow>
          (let s1 = s\<lparr>tleData := parse_tles txt\<rparr>;
               cnt = length (tleData s1);
               s2 = (case seed_buffers cnt of (prev, next) \<Rightarrow>
                       s1\<lparr>tleCount := cnt, prevSatBuffer := Some prev, nextSatBuffer := Some next\<rparr>)
           in if \<not> tlePoints s2 then (case fetchTLES_catch clk s2 of (e, s') \<Rightarrow> (e, s', []))
              else
                (let s3 = s2\<lparr>tlePositionsAttr := Some A_posNext\<rparr>;
                     s4 = (if sgp4Worker s3 = None then setupSgp4Worker mk s3 else s3)
                 in case sgp4Worker s4 of
                      Some w \<Rightarrow>
                        (None, s4, [PostMessage w (SetTLE (Some (tleData s4))), PostMessage w Update])
                    | None \<Rightarrow>
                        (case updateTLEPositions satellite clk s4 of
                           (None, s5, acts) \<Rightarrow> (None, s5, acts)
                         | (Some e, s5, acts) \<Rightarrow>
                             (case fetchTLES_catch clk s5 of (e', s') \<Rightarrow> (e', s', acts))))))"

subsection \<open>createSatellites and the synthetic population\<close>

text \<open>
  The synchronous part of \<^verbatim>\<open>createSatellites\<close> that the pipeline uses: the points
  object with \<^verbatim>\<open>u_interp\<close> at 0, the synthetic position array and the synthetic
  parameters. \<open>rnd k\<close> is the value of the \<open>k\<close>-th call of \<^verbatim>\<open>Math.random()\<close> in the
  loop, a double that is at least 0 and less than 1; each iteration makes four calls. The
  products and sums are rounded to doubles, one operation after the other.
\<close>

definition createSatellites :: "(nat \<Rightarrow> real) \<Rightarrow> main_state \<Rightarrow> main_state" where
  "createSatellites rnd s =
     s\<lparr>tlePoints := True,
       u_interp := 0.0,
       syntheticPositions := Some (new_Float32Array (SYNTHETIC_SAT_COUNT * 3)),
       syntheticParams :=
         map (\<lambda>i. \<lparr>altitude = fl64 (fl64 1.05 + fl64 (rnd (4 * i) * fl64 0.5)),
                   speed = fl64 (fl64 0.002 + fl64 (rnd (4 * i + 1) * fl64 0.01)),
                   phase = fl64 (fl64 (rnd (4 * i + 2) * Math_PI) * 2),
                   inclination = fl64 (rnd (4 * i + 3) * Math_PI)\<rparr>)
             [0..<SYNTHETIC_SAT_COUNT]\<rparr>"

text \<open>
  The loop of \<^verbatim>\<open>animateSyntheticSatellites\<close> over the indices still to do; reading
  \<^verbatim>\<open>p.phase\<close> of a missing parameter record raises.
\<close>

fun synth_loop :: "nat list \<Rightarrow> main_state \<Rightarrow> js_error option \<times> main_state" where
  "synth_loop [] s = (None, s)"
| "synth_loop (i # rest) s =
     (if i < length (syntheticParams s) then
        (let p0 = syntheticParams s ! i;
             p = p0\<lparr>phase := phase p0 + speed p0\<rparr>;
             a = phase p;
             inc = inclination p;
             r = altitude p;
             x = r * cos a;
             y = r * sin a * sin inc;
             z = r * sin a * cos inc
         in synth_loop rest
              (s\<lparr>syntheticParams := (syntheticParams s)[i := p],
                 syntheticPositions :=
                   map_option (\<lambda>arr. store3 arr i (F32 x, F32 y, F32 z)) (syntheticPositions s)\<rparr>))
      else (Some TypeError, s))"

definition animateSyntheticSatellites :: "main_state \<Rightarrow> js_error option \<times> main_state" where
  "animateSyntheticSatellites s =
     (if syntheticPositions s = None then (None, s)
      else synth_loop [0..<SYNTHETIC_SAT_COUNT] s)"

subsection \<open>The frame loop and the update timer\<close>

text \<open>
  The advance of \<^verbatim>\<open>u_interp\<close> in \<^verbatim>\<open>animate\<close>:
  \<^verbatim>\<open>Math.min(1.0, (now - satInterpStart) / satInterpDuration)\<close>, the difference and
  the quotient each rounded to a double.
\<close>

definition advance_interp :: "clock \<Rightarrow> main_state \<Rightarrow> main_state" where
  "advance_interp clk s =
     (if tlePoints s then
        (let now = perf_s clk
         in if satInterpStart s > 0 then
              s\<lparr>u_interp := min 1.0 (fl64 (fl64 (now - satInterpStart s) / satInterpDuration))\<rparr>
            else s)
      else s)"

text \<open>
  The steps of \<^verbatim>\<open>animate\<close> that touch the satellite pipeline, in the source's order:
  the periodic update, the synthetic population, the blend. The fallback is an async
  function that is not awaited: an exception in it does not reach the frame.
\<close>

definition animate ::
  "('r, 'p) satellite_js option \<Rightarrow> clock \<Rightarrow> main_state
     \<Rightarrow> js_error option \<times> main_state \<times> action list" where
  "animate satellite clk s =
     (let upd =
            (if date_ms clk - lastTleUpdate s > tleUpdateInterval then
               (case sgp4Worker s of
                  Some w \<Rightarrow> updateTLEPositions satellite clk s
                | None \<Rightarrow> (None, snd (updateTLEPositionsFallback satellite clk s), [CallFallback]))
             else (None, s, []))
      in case upd of
           (Some e, s1, acts) \<Rightarrow> (Some e, s1, acts)
         | (None, s1, acts) \<Rightarrow>
             (case animateSyntheticSatellites s1 of
                (Some e, s2) \<Rightarrow> (Some e, s2, acts)
              | (None, s2) \<Rightarrow> (None, advance_interp clk s2, acts)))"

text \<open>The callback of \<^verbatim>\<open>setInterval\<close> in \<^verbatim>\<open>startTleUpdateLoop\<close>.\<close>

definition tleUpdateTimer_tick ::
  "('r, 'p) satellite_js option \<Rightarrow> clock \<Rightarrow> main_state \<Rightarrow> main_state \<times> action list" where
  "tleUpdateTimer_tick satellite clk s =
     (case sgp4Worker s of
        Some w \<Rightarrow> (s, [PostMessage w Update])
      | None \<Rightarrow> (snd (updateTLEPositionsFallback satellite clk s), [CallFallback]))"

text \<open>
  The events of the main thread once \<^verbatim>\<open>fetchTLES\<close> has run (it is called once, from
  \<^verbatim>\<open>createSatellites\<close>): a message from the worker, a tick of the update timer, an
  animation frame. Each comes with the clock readings of its handler.
\<close>

datatype event = WorkerMessage from_worker | TimerTick | AnimationFrame

definition step ::
  "('r, 'p) satellite_js option \<Rightarrow> event \<times> clock \<Rightarrow> main_state \<Rightarrow> main_state \<times> action list" where
  "step satellite ec s =
     (case ec of
        (WorkerMessage msg, clk) \<Rightarrow>
          (case sgp4Worker_onmessage clk msg s of (e, s', acts) \<Rightarrow> (s', acts))
      | (TimerTick, clk) \<Rightarrow> tleUpdateTimer_tick satellite clk s
      | (AnimationFrame, clk) \<Rightarrow>
          (case animate satellite clk s of (e, s', acts) \<Rightarrow> (s', acts)))"

text \<open>The state after a list of events, and the actions of each event.\<close>

fun run ::
  "('r, 'p) satellite_js option \<Rightarrow> (event \<times> clock) list \<Rightarrow> main_state
     \<Rightarrow> main_state \<times> action list list" where
  "run satellite [] s = (s, [])"
| "run satellite (ec # rest) s =
     (case step satellite ec s of
        (s1, acts) \<Rightarrow> (case run satellite rest s1 of (s2, tr) \<Rightarrow> (s2, acts # tr)))"

section \<open>The specification's terms\<close>

text \<open>
  The propagation function of the specification, \<open>propagate(entry, timestamp)\<close>: it fails
  when a line is absent, when the library raises, or when the library reports no position;
  on success it has a geodetic latitude and longitude (via the sidereal time \<open>gmst\<close>).
\<close>

datatype outcome = Absent | Raised | NoPosition | Located geodetic

definition entry_outcome :: "('r, 'p) satellite_js \<Rightarrow> real \<Rightarrow> real \<Rightarrow> tle \<Rightarrow> outcome" where
  "entry_outcome lib now gmst t =
     (if falsy (tle1 t) \<or> falsy (tle2 t) then Absent
      else case twoline2satrec lib (tle1 t) (tle2 t) of
        Throws \<Rightarrow> Raised
      | Returns satrec \<Rightarrow>
          (case propagate_position lib satrec now of
             Throws \<Rightarrow> Raised
           | Returns None \<Rightarrow> NoPosition
           | Returns (Some p) \<Rightarrow>
               (case eciToGeodetic lib p gmst of
                  Throws \<Rightarrow> Raised
                | Returns geo \<Rightarrow> Located geo)))"

text \<open>
  The specification's projection to scene space at radius 1.1 (polar angle from the
  latitude, azimuth from the longitude plus 180 degrees), as the three loops compute it
  from a geodetic position in radians: every operation in double arithmetic, and the three
  coordinates stored in single precision.
\<close>

definition projected :: "geodetic \<Rightarrow> f32 \<times> f32 \<times> f32" where
  "projected geo =
     (let lon = d_divide (d_times (longitude geo) (Finite 180)) Math_PI;
          lat = d_divide (d_times (latitude geo) (Finite 180)) Math_PI;
          phi = d_times (d_minus (Finite 90) lat) (d_divide (Finite Math_PI) 180);
          theta = d_times (d_plus lon (Finite 180)) (d_divide (Finite Math_PI) 180);
          r = Finite (fl64 1.1)
      in (to_float32 (d_times (d_times r (Math_sin phi)) (Math_cos theta)),
          to_float32 (d_times r (Math_cos phi)),
          to_float32 (d_times (d_times r (Math_sin phi)) (Math_sin theta))))"

text \<open>The blend values read by successive frames, with no install in between.\<close>

fun blend_reads :: "clock list \<Rightarrow> main_state \<Rightarrow> real list" where
  "blend_reads [] s = []"
| "blend_reads (c # cs) s = u_interp (advance_interp c s) # blend_reads cs (advance_interp c s)"

text \<open>
  The specification's parser: the lines taken three at a time, in order, up to the first
  incomplete group.
\<close>

fun triplets :: "string list \<Rightarrow> tle list" where
  "triplets (n # l1 # l2 # rest) = \<lparr>name = n, tle1 = Some l1, tle2 = Some l2\<rparr> # triplets rest"
| "triplets _ = []"

text \<open>
  A small library to run the model on: it raises on the line \<open>bad\<close>, reports no
  position for the line \<open>decayed\<close>, returns NaN coordinates for the line
  \<open>malformed\<close>, and otherwise locates the satellite over the north pole, at latitude
  \<^verbatim>\<open>Math.PI / 2\<close> and longitude \<^verbatim>\<open>-Math.PI\<close>.
\<close>

definition sample_lib :: "(string, string) satellite_js" where
  "sample_lib =
     \<lparr>gstime = (\<lambda>d. 0),
      twoline2satrec = (\<lambda>a b. case a of
                          None \<Rightarrow> Throws
                        | Some l \<Rightarrow> if l = ''bad'' then Throws else Returns l),
      propagate_position = (\<lambda>r t. if r = ''decayed'' then Returns None else Returns (Some r)),
      eciToGeodetic = (\<lambda>p g. if p = ''malformed''
                         then Returns \<lparr>longitude = NotFinite, latitude = NotFinite\<rparr>
                         else Returns \<lparr>longitude = Finite (- Math_PI),
                                        latitude = Finite (Math_PI / 2)\<rparr>)\<rparr>"

text \<open>The globals as the module declares them, before \<^verbatim>\<open>init\<close> runs.\<close>

definition initial_state :: main_state where
  "initial_state =
     \<lparr>tleData = [], tleCount = 0, tlePoints = False, tlePositionsAttr = None,
      prevSatBuffer = None, nextSatBuffer = None, u_interp = 0, satInterpStart = 0,
      tleLatestBuffer = None, lastTleUpdate = 0, sgp4Worker = None,
      syntheticParams = [], syntheticPositions = None\<rparr>"

text \<open>
  The store after \<open>install(buffer)\<close> at the clock reading \<open>clk\<close>: \<open>prev\<close> holds
  what \<open>next\<close> held, \<open>next\<close> holds the buffer, the blend is 0 and the clock starts
  at the install time, so that a blend read at that time is 0.
\<close>

definition installed :: "float32array \<Rightarrow> float32array \<Rightarrow> clock \<Rightarrow> main_state \<Rightarrow> bool" where
  "installed old_next buffer clk s =
     (prevSatBuffer s = Some old_next \<and> nextSatBuffer s = Some buffer
      \<and> u_interp s = 0 \<and> satInterpStart s = perf_s clk
      \<and> u_interp (advance_interp clk s) = 0)"

text \<open>
  The invariant of the data model: both buffers exist and hold 3 scalars for each entry of
  the collection.
\<close>

definition buffers_sized :: "main_state \<Rightarrow> bool" where
  "buffers_sized s =
     (case (prevSatBuffer s, nextSatBuffer s) of
        (Some p, Some n) \<Rightarrow> length p = 3 * length (tleData s) \<and> length n = 3 * length (tleData s)
      | _ \<Rightarrow> False)"

text \<open>
  A handler kept the collection, and kept each buffer where it was, at its length.
\<close>

definition same_shape :: "main_state \<Rightarrow> main_state \<Rightarrow> bool" where
  "same_shape s s' =
     (tleData s' = tleData s
      \<and> map_option length (prevSatBuffer s') = map_option length (prevSatBuffer s)
      \<and> map_option length (nextSatBuffer s') = map_option length (nextSatBuffer s))"

text \<open>
  A store to run the model on: one entry (whose propagation raises in \<open>sample_lib\<close>),
  the points object created, both buffers allocated; and a clock reading.
\<close>

definition sample_store :: main_state where
  "sample_store =
     initial_state
       \<lparr>tleData := [\<lparr>name = ''A'', tle1 = Some ''bad'', tle2 = Some ''2''\<rparr>],
        tleCount := 1,
        tlePoints := True,
        tlePositionsAttr := Some A_posNext,
        prevSatBuffer := Some [F32 1, F32 2, F32 3],
        nextSatBuffer := Some [F32 4, F32 5, F32 6]\<rparr>"

definition sample_clock :: clock where
  "sample_clock = \<lparr>date_ms = 1000, perf_ms = 2000\<rparr>"

text \<open>A store with two entries, both buffers allocated with six scalars each.\<close>

definition sample_store2 :: main_state where
  "sample_store2 =
     initial_state
       \<lparr>tleData := [\<lparr>name = ''A'', tle1 = Some ''1'', tle2 = Some ''2''\<rparr>,
                    \<lparr>name = ''B'', tle1 = Some ''1'', tle2 = Some ''2''\<rparr>],
        tleCount := 2,
        tlePoints := True,
        tlePositionsAttr := Some A_posNext,
        prevSatBuffer := Some [F32 1, F32 2, F32 3, F32 4, F32 5, F32 6],
        nextSatBuffer := Some [F32 1, F32 2, F32 3, F32 4, F32 5, F32 6]\<rparr>"

text \<open>
  The specification's step of a synthetic body: the phase advances by the speed; and its
  position on the inclined circular orbit: \<open>x = r cos a\<close>, \<open>y = r sin a sin i\<close>,
  \<open>z = r sin a cos i\<close>.
\<close>

definition advance_phase :: "synth_param \<Rightarrow> synth_param" where
  "advance_phase p = p\<lparr>phase := phase p + speed p\<rparr>"

definition orbit_position :: "synth_param \<Rightarrow> f32 \<times> f32 \<times> f32" where
  "orbit_position p =
     (F32 (altitude p * cos (phase p)),
      F32 (altitude p * sin (phase p) * sin (inclination p)),
      F32 (altitude p * sin (phase p) * cos (inclination p)))"

text \<open>
  A handler kept the points object and the position attribute where they existed.
\<close>

definition keeps_points :: "main_state \<Rightarrow> main_state \<Rightarrow> bool" where
  "keeps_points s s' =
     ((tlePoints s \<longrightarrow> tlePoints s') \<and> (tlePositionsAttr s \<noteq> None \<longrightarrow> tlePositionsAttr s' \<noteq> None))"

section \<open>Rounding to the nearest double\<close>

lemma pow2_powr: "pow2 k = 2 powr (of_int k)"
proof (cases "0 \<le> k")
  case True
  have "(2::real) powr real (nat k) = 2 ^ nat k" by (rule powr_realpow) simp
  moreover have "real (nat k) = of_int k" using True by simp
  ultimately show ?thesis using True by (simp add: pow2_def)
next
  case False
  have "(2::real) powr real (nat (- k)) = 2 ^ nat (- k)" by (rule powr_realpow) simp
  moreover have "real (nat (- k)) = - of_int k" using False by simp
  ultimately have "(2::real) ^ nat (- k) = 2 powr (- of_int k)" by simp
  then show ?thesis using False by (simp add: pow2_def powr_minus field_simps)
qed

lemma pow2_pos [simp]: "0 < pow2 k"
  by (simp add: pow2_powr)

lemma pow2_nonzero [simp]: "pow2 k \<noteq> 0"
  by (metis pow2_pos less_irrefl)

lemma pow2_nonneg [simp]: "0 \<le> pow2 k"
  by (rule less_imp_le) simp

lemma pow2_abs [simp]: "\<bar>pow2 k\<bar> = pow2 k"
  by (rule abs_of_pos) simp

lemma pow2_mono: "k \<le> l \<Longrightarrow> pow2 k \<le> pow2 l"
  by (simp add: pow2_powr)

lemma pow2_less_iff: "pow2 k < pow2 l \<longleftrightarrow> k < l"
  by (simp add: pow2_powr)

lemma pow2_add: "pow2 (k + l) = pow2 k * pow2 l"
  by (simp add: pow2_powr powr_add)

text \<open>\<open>expo a\<close> is the binary exponent of a positive number.\<close>

lemma expo_bounds:
  assumes "0 < a"
  shows "pow2 (expo a) \<le> a" and "a < pow2 (expo a + 1)"
proof -
  have "pow2 (expo a) \<le> a \<and> a < pow2 (expo a + 1)"
  proof (cases "1 \<le> a")
    case True
    define n where "n = \<lfloor>a\<rfloor>"
    have n: "1 \<le> n" "of_int n \<le> a" "a < of_int n + 1"
      using True unfolding n_def by linarith+
    then have n0: "0 < n" by simp
    have b: "2 ^ nat (bitlen n - 1) \<le> n" "n < 2 ^ nat (bitlen n)"
      using bitlen_bounds[OF n0] by simp_all
    have b1: "1 \<le> bitlen n" using n0 by (simp add: bitlen_alt_def)
    have e: "expo a = bitlen n - 1" using True by (simp add: expo_def n_def)
    have "pow2 (bitlen n - 1) = of_int (2 ^ nat (bitlen n - 1))"
      using b1 by (simp add: pow2_def)
    also have "\<dots> \<le> of_int n" using b(1) by (simp only: of_int_le_iff)
    also have "\<dots> \<le> a" by (rule n(2))
    finally have l: "pow2 (expo a) \<le> a" by (simp only: e)
    have "n + 1 \<le> 2 ^ nat (bitlen n)" using b(2) by simp
    then have "(of_int (n + 1) :: real) \<le> of_int (2 ^ nat (bitlen n))" by (simp only: of_int_le_iff)
    moreover have "pow2 (bitlen n) = of_int (2 ^ nat (bitlen n))"
      using b1 by (simp add: pow2_def)
    moreover have "a < of_int (n + 1)" using n(3) by simp
    ultimately have "a < pow2 (bitlen n)" by linarith
    moreover have "expo a + 1 = bitlen n" by (simp add: e)
    ultimately have "a < pow2 (expo a + 1)" by (simp only:)
    then show ?thesis using l by (simp only: simp_thms)
  next
    case False
    then have a1: "a < 1" by simp
    define m where "m = \<lceil>1 / a\<rceil>"
    have ia: "1 < 1 / a" using assms a1 by simp
    have m: "1 / a \<le> of_int m" "of_int m - 1 < 1 / a"
      unfolding m_def by linarith+
    have m2: "2 \<le> m" using ia m(1) by linarith
    then have m0: "0 < m - 1" by simp
    define j where "j = bitlen (m - 1)"
    have b: "2 ^ nat (j - 1) \<le> m - 1" "m - 1 < 2 ^ nat j"
      using bitlen_bounds[OF m0] by (simp_all add: j_def)
    have j1: "1 \<le> j" using m0 by (simp add: j_def bitlen_alt_def)
    have e: "expo a = - j" using False by (simp add: expo_def m_def j_def)
    have "m \<le> 2 ^ nat j" using b(2) by simp
    then have "(of_int m :: real) \<le> of_int (2 ^ nat j)" by (simp only: of_int_le_iff)
    then have "(of_int m :: real) \<le> 2 ^ nat j" by simp
    with m(1) have "1 / a \<le> 2 ^ nat j" by (rule order_trans)
    then have "1 \<le> a * 2 ^ nat j" using assms by (simp add: field_simps)
    then have l: "pow2 (- j) \<le> a" using j1 by (simp add: pow2_def field_simps)
    have "(of_int (2 ^ nat (j - 1)) :: real) \<le> of_int (m - 1)" using b(1) by (simp only: of_int_le_iff)
    then have "(2 ^ nat (j - 1) :: real) \<le> of_int m - 1" by simp
    then have "2 ^ nat (j - 1) < 1 / a" using m(2) by (rule le_less_trans)
    then have "a < 1 / 2 ^ nat (j - 1)" using assms by (simp add: field_simps)
    moreover have "pow2 (- j + 1) = 1 / 2 ^ nat (j - 1)"
    proof (cases "j = 1")
      case True
      then show ?thesis by (simp add: pow2_def)
    next
      case False
      then have "- j + 1 < 0" using j1 by simp
      moreover have "nat (- (- j + 1)) = nat (j - 1)" by simp
      ultimately show ?thesis by (simp add: pow2_def)
    qed
    ultimately have "a < pow2 (- j + 1)" by (simp only:)
    then show ?thesis using l e by simp
  qed
  then show "pow2 (expo a) \<le> a" and "a < pow2 (expo a + 1)" by simp_all
qed

lemma expo_mono: "0 < a \<Longrightarrow> a \<le> b \<Longrightarrow> expo a \<le> expo b"
proof -
  assume a: "0 < a" "a \<le> b"
  then have "pow2 (expo a) < pow2 (expo b + 1)"
    using expo_bounds(1)[of a] expo_bounds(2)[of b] by simp
  then show ?thesis by (simp add: pow2_less_iff)
qed

lemma expo_unique: "0 < a \<Longrightarrow> a < pow2 (k + 1) \<Longrightarrow> expo a \<le> k"
proof -
  assume "0 < a" "a < pow2 (k + 1)"
  then have "pow2 (expo a) < pow2 (k + 1)" using expo_bounds(1)[of a] by simp
  then show ?thesis by (simp add: pow2_less_iff)
qed

text \<open>Rounding to the nearest integer, ties to even.\<close>

lemma rne_of_int [simp]: "rne (of_int n) = n"
  by (simp add: rne_def)

lemma rne_bounds: "\<lfloor>x\<rfloor> \<le> rne x" "rne x \<le> \<lfloor>x\<rfloor> + 1"
  by (simp_all add: rne_def Let_def)

lemma rne_mono: "x \<le> y \<Longrightarrow> rne x \<le> rne y"
proof -
  assume xy: "x \<le> y"
  then have f: "\<lfloor>x\<rfloor> \<le> \<lfloor>y\<rfloor>" by (rule floor_mono)
  show ?thesis
  proof (cases "\<lfloor>x\<rfloor> = \<lfloor>y\<rfloor>")
    case True
    then have "x - of_int \<lfloor>x\<rfloor> \<le> y - of_int \<lfloor>y\<rfloor>" using xy by simp
    then show ?thesis using True by (auto simp: rne_def Let_def)
  next
    case False
    then have "\<lfloor>x\<rfloor> + 1 \<le> \<lfloor>y\<rfloor>" using f by simp
    then show ?thesis using rne_bounds(2)[of x] rne_bounds(1)[of y] by linarith
  qed
qed

lemma rne_minus: "rne (- x) = - rne x"
proof (cases "x = of_int \<lfloor>x\<rfloor>")
  case True
  then obtain n where "x = of_int n" ..
  then show ?thesis using rne_of_int[of "- n"] by simp
next
  case False
  then have c: "\<lceil>x\<rceil> = \<lfloor>x\<rfloor> + 1" by (simp add: ceiling_altdef)
  have f: "\<lfloor>- x\<rfloor> = - \<lfloor>x\<rfloor> - 1" using c by (simp add: ceiling_def)
  have d: "0 < x - of_int \<lfloor>x\<rfloor>" using False by (simp add: less_le)
  show ?thesis
    unfolding rne_def Let_def f using d by (auto simp: field_simps)
qed

lemma rne_error: "\<bar>of_int (rne x) - x\<bar> \<le> 1 / 2"
proof -
  have "0 \<le> x - of_int \<lfloor>x\<rfloor>" "x - of_int \<lfloor>x\<rfloor> < 1" by linarith+
  then show ?thesis by (auto simp: rne_def Let_def abs_le_iff)
qed

text \<open>Rounding to a binary format: sign, monotonicity and error.\<close>

lemma round_binary_zero [simp]: "round_binary p emin 0 = 0"
  by (simp add: round_binary_def)

lemma round_binary_minus: "round_binary p emin (- x) = - round_binary p emin x"
  by (simp add: round_binary_def Let_def rne_minus)

lemma round_binary_nonneg: "0 \<le> x \<Longrightarrow> 0 \<le> round_binary p emin x"
proof -
  assume "0 \<le> x"
  then have "0 \<le> x / u" if "0 < u" for u using that by simp
  then have "0 \<le> rne (x / pow2 k)" for k
    using rne_mono[of 0 "x / pow2 k"] rne_of_int[of 0] by simp
  then show ?thesis by (simp add: round_binary_def Let_def zero_le_mult_iff less_imp_le)
qed

lemma round_binary_pos:
  fixes emin :: int and p :: nat
  assumes "0 < x"
  defines "e \<equiv> max (expo x) emin"
  shows "round_binary p emin x = of_int (rne (x / pow2 (e - int p))) * pow2 (e - int p)"
    and "round_binary p emin x \<le> pow2 (e + 1)"
    and "emin < e \<Longrightarrow> pow2 e \<le> round_binary p emin x"
proof -
  let ?u = "pow2 (e - int p)"
  show eq: "round_binary p emin x = of_int (rne (x / ?u)) * ?u"
    using assms by (simp add: round_binary_def Let_def)
  have c: "pow2 (int p + 1) = 2 ^ (p + 1)" "pow2 (int p) = 2 ^ p"
    by (simp_all add: pow2_def nat_add_distrib)
  have "pow2 (e - int p + (int p + 1)) = ?u * pow2 (int p + 1)" by (rule pow2_add)
  then have p53: "pow2 (e + 1) = 2 ^ (p + 1) * ?u" by (simp only: c) (simp add: algebra_simps)
  have "pow2 (e - int p + int p) = ?u * pow2 (int p)" by (rule pow2_add)
  then have p52: "pow2 e = 2 ^ p * ?u" by (simp only: c) (simp add: algebra_simps)
  have "x < pow2 (expo x + 1)" using expo_bounds(2)[OF assms(1)] .
  also have "\<dots> \<le> pow2 (e + 1)" by (rule pow2_mono) (simp add: e_def)
  finally have "x < pow2 (e + 1)" .
  then have "x < 2 ^ (p + 1) * ?u" by (simp only: p53)
  then have "x / ?u \<le> 2 ^ (p + 1)" by (simp add: field_simps)
  then have "rne (x / ?u) \<le> rne (2 ^ (p + 1))" by (rule rne_mono)
  moreover have "rne (2 ^ (p + 1)) = 2 ^ (p + 1)" using rne_of_int[of "2 ^ (p + 1)"] by simp
  ultimately have "rne (x / ?u) \<le> 2 ^ (p + 1)" by (simp only:)
  then have "(of_int (rne (x / ?u)) :: real) \<le> of_int (2 ^ (p + 1))" by (simp only: of_int_le_iff)
  then have "(of_int (rne (x / ?u)) :: real) \<le> 2 ^ (p + 1)" by simp
  then show "round_binary p emin x \<le> pow2 (e + 1)"
    unfolding eq p53 by (simp add: mult_right_mono)
  show "pow2 e \<le> round_binary p emin x" if "emin < e"
  proof -
    have "e = expo x" using that by (simp add: e_def max_def split: if_splits)
    then have "pow2 e \<le> x" using expo_bounds(1)[OF assms(1)] by simp
    then have "2 ^ p * ?u \<le> x" by (simp only: p52)
    then have "2 ^ p \<le> x / ?u" by (simp add: field_simps)
    then have "rne (2 ^ p) \<le> rne (x / ?u)" by (rule rne_mono)
    moreover have "rne (2 ^ p) = 2 ^ p" using rne_of_int[of "2 ^ p"] by simp
    ultimately have "2 ^ p \<le> rne (x / ?u)" by (simp only:)
    then have "(of_int (2 ^ p) :: real) \<le> of_int (rne (x / ?u))" by (simp only: of_int_le_iff)
    then have "(2 ^ p :: real) \<le> of_int (rne (x / ?u))" by simp
    then show ?thesis unfolding eq p52 by (simp add: mult_right_mono)
  qed
qed

lemma round_binary_mono_nonneg:
  assumes "0 \<le> x" "x \<le> y"
  shows "round_binary p emin x \<le> round_binary p emin y"
proof (cases "x = 0")
  case True
  then show ?thesis using round_binary_nonneg[of y] assms by simp
next
  case False
  then have x: "0 < x" and y: "0 < y" using assms by simp_all
  define ex where "ex = max (expo x) emin"
  define ey where "ey = max (expo y) emin"
  have le: "ex \<le> ey" using expo_mono[OF x assms(2)] by (simp add: ex_def ey_def)
  show ?thesis
  proof (cases "ex = ey")
    case True
    have "x / pow2 (ey - int p) \<le> y / pow2 (ey - int p)"
      using assms(2) by (intro divide_right_mono) (simp_all add: less_imp_le)
    then have "rne (x / pow2 (ey - int p)) \<le> rne (y / pow2 (ey - int p))" by (rule rne_mono)
    then have "(of_int (rne (x / pow2 (ey - int p))) :: real) \<le> of_int (rne (y / pow2 (ey - int p)))"
      by simp
    then show ?thesis
      using round_binary_pos(1)[OF x, where p = p and emin = emin]
        round_binary_pos(1)[OF y, where p = p and emin = emin] True
      by (simp add: ex_def ey_def mult_right_mono)
  next
    case False
    moreover have "emin \<le> ex" by (simp add: ex_def)
    ultimately have lt: "ex + 1 \<le> ey" "emin < ey" using le by linarith+
    have "round_binary p emin x \<le> pow2 (ex + 1)"
      using round_binary_pos(2)[OF x, where p = p and emin = emin] by (simp add: ex_def)
    also have "\<dots> \<le> pow2 ey" using lt(1) by (rule pow2_mono)
    also have "\<dots> \<le> round_binary p emin y"
      using round_binary_pos(3)[OF y, where p = p and emin = emin] lt(2) by (simp add: ey_def)
    finally show ?thesis .
  qed
qed

lemma round_binary_mono:
  assumes "x \<le> y"
  shows "round_binary p emin x \<le> round_binary p emin y"
proof (cases "0 \<le> x")
  case True
  then show ?thesis using assms by (rule round_binary_mono_nonneg)
next
  case False
  note x = this
  show ?thesis
  proof (cases "0 \<le> y")
    case True
    have "round_binary p emin x \<le> 0"
      using round_binary_nonneg[of "- x" p emin] x by (simp add: round_binary_minus)
    also have "0 \<le> round_binary p emin y" using True by (rule round_binary_nonneg)
    finally show ?thesis .
  next
    case False
    then have "round_binary p emin (- y) \<le> round_binary p emin (- x)"
      using assms by (intro round_binary_mono_nonneg) simp_all
    then show ?thesis by (simp add: round_binary_minus)
  qed
qed

lemma round_binary_error:
  "\<bar>round_binary p emin x - x\<bar> \<le> pow2 (max (expo \<bar>x\<bar>) emin - int p) / 2"
proof (cases "x = 0")
  case True
  then show ?thesis by (simp add: less_imp_le)
next
  case False
  let ?u = "pow2 (max (expo \<bar>x\<bar>) emin - int p)"
  have u: "0 < ?u" by simp
  have "round_binary p emin x - x = (of_int (rne (x / ?u)) - x / ?u) * ?u"
    using False u by (simp add: round_binary_def Let_def field_simps)
  then have "\<bar>round_binary p emin x - x\<bar> = \<bar>of_int (rne (x / ?u)) - x / ?u\<bar> * ?u"
    using u by (simp add: abs_mult)
  also have "\<dots> \<le> (1 / 2) * ?u"
    using rne_error[of "x / ?u"] u by (intro mult_right_mono) (simp_all add: less_imp_le)
  finally show ?thesis by simp
qed

text \<open>Below 2 the spacing of the format is at most \<open>2^-p\<close>.\<close>

lemma round_binary_error_below_2:
  assumes "\<bar>x\<bar> < 2" "emin \<le> 0"
  shows "\<bar>round_binary p emin x - x\<bar> \<le> 1 / 2 ^ (p + 1)"
proof (cases "x = 0")
  case True
  then show ?thesis by simp
next
  case False
  then have "expo \<bar>x\<bar> \<le> 0"
    using assms(1) by (intro expo_unique) (simp_all add: pow2_def)
  then have "max (expo \<bar>x\<bar>) emin - int p \<le> - int p" using assms(2) by simp
  then have "pow2 (max (expo \<bar>x\<bar>) emin - int p) \<le> pow2 (- int p)" by (rule pow2_mono)
  also have "\<dots> = 1 / 2 ^ p" by (simp add: pow2_def)
  finally have "pow2 (max (expo \<bar>x\<bar>) emin - int p) / 2 \<le> 1 / 2 ^ (p + 1)" by simp
  then show ?thesis using round_binary_error[of p emin x] by linarith
qed

lemma fl64_mono: "x \<le> y \<Longrightarrow> fl64 x \<le> fl64 y"
  unfolding fl64_def by (rule round_binary_mono)

lemma fl64_nonneg: "0 \<le> x \<Longrightarrow> 0 \<le> fl64 x"
  unfolding fl64_def by (rule round_binary_nonneg)

lemma fl64_zero [simp]: "fl64 0 = 0"
  by (simp add: fl64_def)

lemma fl64_one [simp]: "fl64 1 = 1"
  by code_simp

text \<open>
  The doubles of the binade [1/2, 1] are the multiples of \<open>2^-53\<close>: a double below
  \<open>m / 2^53\<close> is at most \<open>(m - 1) / 2^53\<close>.
\<close>

lemma fl64_below:
  assumes "0 \<le> x" "fl64 x < of_int m / 2 ^ 53" "2 ^ 52 < m" "m \<le> 2 ^ 53"
  shows "fl64 x \<le> (of_int m - 1) / 2 ^ 53"
proof -
  have m: "(2 ^ 52 :: real) \<le> of_int m - 1"
  proof -
    have "2 ^ 52 \<le> m - 1" using assms(3) by simp
    then have "(of_int (2 ^ 52) :: real) \<le> of_int (m - 1)" by (simp only: of_int_le_iff)
    then show ?thesis by simp
  qed
  show ?thesis
  proof (cases "x = 0")
    case True
    then show ?thesis using m by simp
  next
    case False
    then have x: "0 < x" using assms(1) by simp
    define e where "e = max (expo x) (- 1022)"
    note b = round_binary_pos[OF x, where p = 52 and emin = "- 1022", folded e_def fl64_def]
    consider "e \<le> - 2" | "e = - 1" | "0 \<le> e" by linarith
    then show ?thesis
    proof cases
      case 1
      then have "pow2 (e + 1) \<le> pow2 (- 1)" by (intro pow2_mono) simp
      then have "fl64 x \<le> 1 / 2" using b(2) by (simp add: pow2_def)
      then show ?thesis using m by (simp add: field_simps)
    next
      case 2
      define n where "n = rne (x / pow2 (e - 52))"
      have u: "pow2 (e - 52) = 1 / 2 ^ 53" using 2 by (simp add: pow2_def)
      have rn: "fl64 x = of_int n / 2 ^ 53"
        using b(1) by (simp add: n_def u)
      then have "(of_int n :: real) < of_int m" using assms(2) by (simp add: field_simps)
      then have "n < m" by (simp only: of_int_less_iff)
      then have "n \<le> m - 1" by simp
      then have "(of_int n :: real) \<le> of_int (m - 1)" by (simp only: of_int_le_iff)
      then show ?thesis unfolding rn by (simp add: field_simps)
    next
      case 3
      then have "pow2 0 \<le> pow2 e" by (rule pow2_mono)
      also have "\<dots> \<le> fl64 x" using b(3) 3 by simp
      finally have "1 \<le> fl64 x" by (simp add: pow2_def)
      moreover have "(of_int m :: real) \<le> of_int (2 ^ 53)" using assms(4) by (simp only: of_int_le_iff)
      then have "(of_int m :: real) / 2 ^ 53 \<le> 1" by simp
      ultimately show ?thesis using assms(2) by linarith
    qed
  qed
qed

lemma perf_s_sample_clock [simp]: "perf_s sample_clock = 2"
  by code_simp

lemma date_ms_sample_clock [simp]: "date_ms sample_clock = 1000"
  by (simp add: sample_clock_def)

section \<open>Worker without the library\<close>

text \<open>
  C10. If the propagation library failed to load inside the worker, every update message
  receives exactly one positions reply, whose buffer has length 3N (N the length of the
  held collection) and holds only zeros; the worker state is unchanged.
\<close>

theorem worker_update_without_library:
  "satellite_w ws = None \<Longrightarrow>
     worker_onmessage now Update ws
       = (ws, [Positions (replicate (3 * length (tleData_w ws)) (F32 0))])"
  by (simp add: worker_onmessage_def new_Float32Array_def mult.commute)

theorem worker_update_without_library_witness:
  "satellite_w \<lparr>satellite_w = (None :: (unit, unit) satellite_js option),
                tleData_w = [\<lparr>name = ''A'', tle1 = Some ''1'', tle2 = Some ''2''\<rparr>]\<rparr> = None
   \<and> worker_onmessage 0 Update
        \<lparr>satellite_w = (None :: (unit, unit) satellite_js option),
         tleData_w = [\<lparr>name = ''A'', tle1 = Some ''1'', tle2 = Some ''2''\<rparr>]\<rparr>
      = (\<lparr>satellite_w = None,
          tleData_w = [\<lparr>name = ''A'', tle1 = Some ''1'', tle2 = Some ''2''\<rparr>]\<rparr>,
         [Positions [F32 0, F32 0, F32 0]])"
  using worker_update_without_library
    [of "\<lparr>satellite_w = (None :: (unit, unit) satellite_js option),
          tleData_w = [\<lparr>name = ''A'', tle1 = Some ''1'', tle2 = Some ''2''\<rparr>]\<rparr>" 0]
  by (simp add: numeral_3_eq_3)

section \<open>Stores into a coordinate buffer\<close>

lemma length_store3 [simp]: "length (store3 out i v) = length out"
  by (cases v) (simp add: store3_def)

lemma rd_store3_other:
  "k < j * 3 \<or> j * 3 + 2 < k \<Longrightarrow> rd (store3 out j v) k = rd out k"
  by (cases v) (auto simp: store3_def rd_def nth_list_update)

lemma slot_store3_same: "i * 3 + 2 < length out \<Longrightarrow> slot (store3 out i v) i = v"
  by (cases v) (simp add: store3_def slot_def rd_def)

lemma slot_store3_other: "i \<noteq> j \<Longrightarrow> slot (store3 out j v) i = slot out i"
proof -
  assume "i \<noteq> j"
  then have "i * 3 + 2 < j * 3 \<or> j * 3 + 2 < i * 3" by arith
  then have "i * 3 + 0 < j * 3 \<or> j * 3 + 2 < i * 3 + 0"
    "i * 3 + 1 < j * 3 \<or> j * 3 + 2 < i * 3 + 1"
    "i * 3 + 2 < j * 3 \<or> j * 3 + 2 < i * 3 + 2" by arith+
  then show ?thesis
    unfolding slot_def by (simp only: rd_store3_other)
qed

lemma foldl_upt_Suc: "foldl body init [0..<Suc n] = body (foldl body init [0..<n]) n"
  by simp

lemma foldl_slots:
  assumes body: "\<And>out i. body out i = (case e i of None \<Rightarrow> out | Some v \<Rightarrow> store3 out i v)"
  shows "length (foldl body init [0..<n]) = length init"
    and "n * 3 \<le> length init \<Longrightarrow> i < n \<Longrightarrow>
         slot (foldl body init [0..<n]) i = (case e i of None \<Rightarrow> slot init i | Some v \<Rightarrow> v)"
    and "n \<le> i \<Longrightarrow> slot (foldl body init [0..<n]) i = slot init i"
proof -
  have step: "foldl body init [0..<Suc n] =
      (case e n of None \<Rightarrow> foldl body init [0..<n] | Some v \<Rightarrow> store3 (foldl body init [0..<n]) n v)" for n
    unfolding foldl_upt_Suc by (rule body)
  show len: "length (foldl body init [0..<n]) = length init" for n
  proof (induction n)
    case 0 show ?case by simp
  next
    case (Suc n) then show ?case unfolding step by (simp split: option.splits)
  qed
  show out: "n \<le> i \<Longrightarrow> slot (foldl body init [0..<n]) i = slot init i" for n
  proof (induction n)
    case 0 show ?case by simp
  next
    case (Suc n) then show ?case unfolding step by (simp add: slot_store3_other split: option.splits)
  qed
  show "n * 3 \<le> length init \<Longrightarrow> i < n \<Longrightarrow>
         slot (foldl body init [0..<n]) i = (case e i of None \<Rightarrow> slot init i | Some v \<Rightarrow> v)"
  proof (induction n)
    case 0
    then show ?case by simp
  next
    case (Suc n)
    show ?case
    proof (cases "i = n")
      case True
      have "n * 3 + 2 < length (foldl body init [0..<n])"
        using Suc.prems(1) by (simp add: len)
      then show ?thesis
        unfolding step using True out[of n] by (simp add: slot_store3_same split: option.splits)
    next
      case False
      then have "i < n" using Suc.prems(2) by simp
      moreover have "n * 3 \<le> length init" using Suc.prems(1) by simp
      ultimately have "slot (foldl body init [0..<n]) i = (case e i of None \<Rightarrow> slot init i | Some v \<Rightarrow> v)"
        by (rule Suc.IH[rotated])
      then show ?thesis
        unfolding step using False by (simp add: slot_store3_other split: option.splits)
    qed
  qed
qed



lemma ta_set_same_length: "length src = length tgt \<Longrightarrow> ta_set tgt src = Inr src"
  by (simp add: ta_set_def)

lemma ta_set_length: "ta_set tgt src = Inr t' \<Longrightarrow> length t' = length tgt"
  by (auto simp: ta_set_def split: if_splits)

lemma update_latest_eq [simp]: "update_latest arr s = Inr (s\<lparr>tleLatestBuffer := Some arr\<rparr>)"
  by (simp add: update_latest_def ta_set_def Let_def new_Float32Array_def split: option.splits)

section \<open>The two batch loops, entry by entry\<close>

lemma worker_body_outcome:
  "worker_body lib now gmst elems out i =
     store3 out i
       (case entry_outcome lib now gmst (elems ! i) of
          Located geo \<Rightarrow> projected geo
        | _ \<Rightarrow> zero3)"
  by (simp add: worker_body_def entry_outcome_def projected_def zero3_def Let_def
      split: js.splits option.splits)

lemma fallback_body_outcome:
  "fallback_body lib now gmst elems next arr i =
     (case (case entry_outcome lib now gmst (elems ! i) of
              Absent \<Rightarrow> Some (case next of None \<Rightarrow> (F32 1.1, F32 0, F32 0) | Some nb \<Rightarrow> slot nb i)
            | Raised \<Rightarrow> Some (case next of None \<Rightarrow> zero3 | Some nb \<Rightarrow> slot nb i)
            | NoPosition \<Rightarrow> None
            | Located geo \<Rightarrow> Some (projected geo))
      of None \<Rightarrow> arr | Some v \<Rightarrow> store3 arr i v)"
  by (simp add: fallback_body_def entry_outcome_def projected_def zero3_def slot_def Let_def
      split: js.splits option.splits)

lemma slot_new_Float32Array: "i * 3 + 2 < n \<Longrightarrow> slot (new_Float32Array n) i = zero3"
  by (simp add: slot_def new_Float32Array_def rd_def zero3_def)

lemma length_worker_positions: "length (worker_positions lib now elems) = 3 * length elems"
  unfolding worker_positions_def Let_def
  by (subst foldl_slots(1)[where e = "\<lambda>i. Some (case entry_outcome lib now (gstime lib now) (elems ! i) of
          Located geo \<Rightarrow> projected geo
        | _ \<Rightarrow> zero3)"])
     (simp_all add: worker_body_outcome new_Float32Array_def)

lemma slot_worker_positions:
  assumes "i < length elems"
  shows "slot (worker_positions lib now elems) i =
     (case entry_outcome lib now (gstime lib now) (elems ! i) of
        Located geo \<Rightarrow> projected geo
      | _ \<Rightarrow> zero3)"
  unfolding worker_positions_def Let_def
  by (subst foldl_slots(2)[where e = "\<lambda>i. Some (case entry_outcome lib now (gstime lib now) (elems ! i) of
          Located geo \<Rightarrow> projected geo
        | _ \<Rightarrow> zero3)"])
     (simp_all add: worker_body_outcome new_Float32Array_def assms)

lemma length_fallback_positions:
  "length (fallback_positions lib now next elems) = 3 * length elems"
  unfolding fallback_positions_def Let_def
  by (subst foldl_slots(1)[OF fallback_body_outcome]) (simp add: new_Float32Array_def)

lemma slot_fallback_positions:
  assumes "i < length elems"
  shows "slot (fallback_positions lib now next elems) i =
     (case entry_outcome lib now (gstime lib now) (elems ! i) of
        Absent \<Rightarrow> (case next of None \<Rightarrow> (F32 1.1, F32 0, F32 0) | Some nb \<Rightarrow> slot nb i)
      | Raised \<Rightarrow> (case next of None \<Rightarrow> zero3 | Some nb \<Rightarrow> slot nb i)
      | NoPosition \<Rightarrow> zero3
      | Located geo \<Rightarrow> projected geo)"
proof -
  have "i * 3 + 2 < length elems * 3" using assms by arith
  then have z: "slot (new_Float32Array (length elems * 3)) i = zero3"
    by (rule slot_new_Float32Array)
  show ?thesis
    unfolding fallback_positions_def Let_def
    by (subst foldl_slots(2)[OF fallback_body_outcome])
       (simp_all add: new_Float32Array_def assms z[unfolded new_Float32Array_def] split: outcome.splits)
qed

section \<open>Projection of a successful entry\<close>

lemma fl64_minus: "fl64 (- x) = - fl64 x"
  unfolding fl64_def by (rule round_binary_minus)

lemma fl64_abs_le:
  assumes "\<bar>x\<bar> \<le> m"
  shows "\<bar>fl64 x\<bar> \<le> fl64 m"
proof -
  have "fl64 x \<le> fl64 m" using assms by (intro fl64_mono) simp
  moreover have "fl64 (- m) \<le> fl64 x" using assms by (intro fl64_mono) simp
  ultimately show ?thesis by (simp add: fl64_minus abs_le_iff)
qed

lemma fl64_error: "\<bar>x\<bar> < 2 \<Longrightarrow> \<bar>fl64 x - x\<bar> \<le> 1 / 2 ^ 53"
  unfolding fl64_def using round_binary_error_below_2[of x "- 1022" 52] by simp

lemma fl32_error: "\<bar>x\<bar> < 2 \<Longrightarrow> \<bar>fl32 x - x\<bar> \<le> 1 / 2 ^ 24"
  unfolding fl32_def using round_binary_error_below_2[of x "- 126" 23] by simp

lemma product_error:
  fixes a b a0 b0 :: real
  assumes "\<bar>a - a0\<bar> \<le> ea" "\<bar>b - b0\<bar> \<le> eb" "\<bar>b\<bar> \<le> 1" "\<bar>a0\<bar> \<le> A"
  shows "\<bar>a * b - a0 * b0\<bar> \<le> ea + A * eb"
proof -
  have "a * b - a0 * b0 = (a - a0) * b + a0 * (b - b0)" by (simp add: algebra_simps)
  then have "\<bar>a * b - a0 * b0\<bar> \<le> \<bar>(a - a0) * b\<bar> + \<bar>a0 * (b - b0)\<bar>"
    using abs_triangle_ineq[of "(a - a0) * b" "a0 * (b - b0)"] by simp
  also have "\<bar>(a - a0) * b\<bar> = \<bar>a - a0\<bar> * \<bar>b\<bar>" by (rule abs_mult)
  also have "\<bar>a0 * (b - b0)\<bar> = \<bar>a0\<bar> * \<bar>b - b0\<bar>" by (rule abs_mult)
  also have "\<bar>a - a0\<bar> * \<bar>b\<bar> \<le> ea * 1"
    using assms(1,3) by (intro mult_mono) simp_all
  also have "\<bar>a0\<bar> * \<bar>b - b0\<bar> \<le> A * eb"
    using assms(2,4) by (intro mult_mono) simp_all
  finally show ?thesis by simp
qed

lemma radius_double:
  "\<bar>fl64 1.1 - 1.1\<bar> \<le> 1 / 2 ^ 53" "0 \<le> fl64 1.1" "fl64 1.1 < 2" "fl64 (fl64 1.1) = fl64 1.1"
  by code_simp+

lemma abs_times_le:
  fixes r b :: real
  assumes "0 \<le> r" "\<bar>b\<bar> \<le> 1"
  shows "\<bar>r * b\<bar> \<le> r"
proof -
  have "\<bar>r * b\<bar> = r * \<bar>b\<bar>" using assms(1) by (simp add: abs_mult)
  also have "\<dots> \<le> r * 1" using assms by (intro mult_left_mono) simp_all
  finally show ?thesis by simp
qed

lemma abs_times_le':
  fixes a b r :: real
  assumes "\<bar>a\<bar> \<le> r" "\<bar>b\<bar> \<le> 1"
  shows "\<bar>a * b\<bar> \<le> r"
proof -
  have "\<bar>a * b\<bar> = \<bar>a\<bar> * \<bar>b\<bar>" by (rule abs_mult)
  also have "\<dots> \<le> r * 1" using assms by (intro mult_mono) simp_all
  finally show ?thesis by simp
qed

text \<open>The product of the radius with a rounded sine or cosine.\<close>

lemma first_product:
  assumes "\<bar>s\<bar> \<le> 1"
  shows "\<bar>fl64 (fl64 1.1 * fl64 s) - 1.1 * s\<bar> \<le> 4 / 2 ^ 53"
    and "\<bar>fl64 (fl64 1.1 * fl64 s)\<bar> \<le> fl64 1.1"
proof -
  have s1: "\<bar>fl64 s - s\<bar> \<le> 1 / 2 ^ 53" using assms by (intro fl64_error) simp
  have s2: "\<bar>fl64 s\<bar> \<le> 1" using fl64_abs_le[OF assms] by simp
  have p: "\<bar>fl64 1.1 * fl64 s - 1.1 * s\<bar> \<le> 1 / 2 ^ 53 + 1.1 * (1 / 2 ^ 53)"
    by (rule product_error[OF radius_double(1) s1 s2]) simp
  have b: "\<bar>fl64 1.1 * fl64 s\<bar> \<le> fl64 1.1"
    by (rule abs_times_le[OF radius_double(2) s2])
  then have "\<bar>fl64 1.1 * fl64 s\<bar> < 2" using radius_double(3) by simp
  then have e: "\<bar>fl64 (fl64 1.1 * fl64 s) - fl64 1.1 * fl64 s\<bar> \<le> 1 / 2 ^ 53"
    by (rule fl64_error)
  have "(1 / 2 ^ 53 + 1.1 * (1 / 2 ^ 53)) + 1 / 2 ^ 53 \<le> (4 / 2 ^ 53 :: real)" by simp
  then show "\<bar>fl64 (fl64 1.1 * fl64 s) - 1.1 * s\<bar> \<le> 4 / 2 ^ 53"
    using p e by linarith
  show "\<bar>fl64 (fl64 1.1 * fl64 s)\<bar> \<le> fl64 1.1"
    using fl64_abs_le[OF b] by (simp only: radius_double(4))
qed

lemma stored_y_error:
  assumes "\<bar>c\<bar> \<le> 1"
  shows "\<bar>fl32 (fl64 (fl64 1.1 * fl64 c)) - 1.1 * c\<bar> \<le> 1 / 2 ^ 23"
proof -
  note f = first_product[OF assms]
  have "\<bar>fl64 (fl64 1.1 * fl64 c)\<bar> < 2" using f(2) radius_double(3) by simp
  then have "\<bar>fl32 (fl64 (fl64 1.1 * fl64 c)) - fl64 (fl64 1.1 * fl64 c)\<bar> \<le> 1 / 2 ^ 24"
    by (rule fl32_error)
  moreover have "4 / 2 ^ 53 + 1 / 2 ^ 24 \<le> (1 / 2 ^ 23 :: real)" by simp
  ultimately show ?thesis using f(1) by linarith
qed

lemma stored_xz_error:
  assumes "\<bar>s\<bar> \<le> 1" "\<bar>c\<bar> \<le> 1"
  shows "\<bar>fl32 (fl64 (fl64 (fl64 1.1 * fl64 s) * fl64 c)) - 1.1 * s * c\<bar> \<le> 1 / 2 ^ 23"
proof -
  let ?t = "fl64 (fl64 1.1 * fl64 s)"
  note f = first_product[OF assms(1)]
  have c1: "\<bar>fl64 c - c\<bar> \<le> 1 / 2 ^ 53" using assms(2) by (intro fl64_error) simp
  have c2: "\<bar>fl64 c\<bar> \<le> 1" using fl64_abs_le[OF assms(2)] by simp
  have a0: "\<bar>1.1 * s\<bar> \<le> 1.1" using abs_times_le[of "1.1" s] assms(1) by simp
  have p: "\<bar>?t * fl64 c - 1.1 * s * c\<bar> \<le> 4 / 2 ^ 53 + 1.1 * (1 / 2 ^ 53)"
    by (rule product_error[OF f(1) c1 c2 a0])
  have b: "\<bar>?t * fl64 c\<bar> \<le> fl64 1.1" by (rule abs_times_le'[OF f(2) c2])
  then have "\<bar>?t * fl64 c\<bar> < 2" using radius_double(3) by simp
  then have e: "\<bar>fl64 (?t * fl64 c) - ?t * fl64 c\<bar> \<le> 1 / 2 ^ 53" by (rule fl64_error)
  have "\<bar>fl64 (?t * fl64 c)\<bar> \<le> fl64 1.1"
    using fl64_abs_le[OF b] by (simp only: radius_double(4))
  then have "\<bar>fl64 (?t * fl64 c)\<bar> < 2" using radius_double(3) by simp
  then have "\<bar>fl32 (fl64 (?t * fl64 c)) - fl64 (?t * fl64 c)\<bar> \<le> 1 / 2 ^ 24" by (rule fl32_error)
  moreover have "(4 / 2 ^ 53 + 1.1 * (1 / 2 ^ 53)) + 1 / 2 ^ 53 + 1 / 2 ^ 24 \<le> (1 / 2 ^ 23 :: real)" by simp
  ultimately show ?thesis using p e by linarith
qed

text \<open>A point within \<open>2^-23\<close> of a point of the sphere, coordinate by coordinate.\<close>

lemma square_error:
  fixes x X d :: real
  assumes "\<bar>x - X\<bar> \<le> d" "\<bar>X\<bar> \<le> 11 / 10" "d \<le> 1 / 10"
  shows "\<bar>x\<^sup>2 - X\<^sup>2\<bar> \<le> d * (23 / 10)"
proof -
  have "x\<^sup>2 - X\<^sup>2 = (x - X) * (x + X)" by (simp add: power2_eq_square algebra_simps)
  then have "\<bar>x\<^sup>2 - X\<^sup>2\<bar> = \<bar>x - X\<bar> * \<bar>x + X\<bar>" by (simp add: abs_mult)
  also have "\<dots> \<le> d * (23 / 10)"
  proof (rule mult_mono)
    show "\<bar>x - X\<bar> \<le> d" by (rule assms(1))
    show "\<bar>x + X\<bar> \<le> 23 / 10" using assms by linarith
    show "0 \<le> d" using assms(1) by linarith
    show "0 \<le> \<bar>x + X\<bar>" by simp
  qed
  finally show ?thesis .
qed

lemma near_sphere:
  fixes x y z X Y Z :: real
  assumes s: "X\<^sup>2 + Y\<^sup>2 + Z\<^sup>2 = (11 / 10)\<^sup>2"
    and e: "\<bar>x - X\<bar> \<le> 1 / 2 ^ 23" "\<bar>y - Y\<bar> \<le> 1 / 2 ^ 23" "\<bar>z - Z\<bar> \<le> 1 / 2 ^ 23"
  shows "\<bar>sqrt (x\<^sup>2 + y\<^sup>2 + z\<^sup>2) - 11 / 10\<bar> \<le> 1 / 10 ^ 6"
proof -
  have b: "\<bar>X\<bar> \<le> 11 / 10" "\<bar>Y\<bar> \<le> 11 / 10" "\<bar>Z\<bar> \<le> 11 / 10"
  proof -
    have "X\<^sup>2 \<le> (11 / 10)\<^sup>2" "Y\<^sup>2 \<le> (11 / 10)\<^sup>2" "Z\<^sup>2 \<le> (11 / 10)\<^sup>2"
      using s zero_le_power2[of X] zero_le_power2[of Y] zero_le_power2[of Z] by linarith+
    then show "\<bar>X\<bar> \<le> 11 / 10" "\<bar>Y\<bar> \<le> 11 / 10" "\<bar>Z\<bar> \<le> 11 / 10"
      using abs_le_square_iff[of X "11 / 10"] abs_le_square_iff[of Y "11 / 10"]
        abs_le_square_iff[of Z "11 / 10"] by simp_all
  qed
  define S where "S = x\<^sup>2 + y\<^sup>2 + z\<^sup>2"
  define N where "N = sqrt S"
  have q: "\<bar>x\<^sup>2 - X\<^sup>2\<bar> \<le> 1 / 2 ^ 23 * (23 / 10)" "\<bar>y\<^sup>2 - Y\<^sup>2\<bar> \<le> 1 / 2 ^ 23 * (23 / 10)"
    "\<bar>z\<^sup>2 - Z\<^sup>2\<bar> \<le> 1 / 2 ^ 23 * (23 / 10)"
    by (rule square_error[OF e(1) b(1)] square_error[OF e(2) b(2)] square_error[OF e(3) b(3)], simp)+
  have S: "\<bar>S - (11 / 10)\<^sup>2\<bar> \<le> 3 * (1 / 2 ^ 23 * (23 / 10))"
    unfolding S_def using q s by linarith
  have S0: "0 \<le> S" by (simp add: S_def)
  then have N: "0 \<le> N" "N\<^sup>2 = S" by (simp_all add: N_def)
  have "S - (11 / 10)\<^sup>2 = (N - 11 / 10) * (N + 11 / 10)"
    unfolding N(2)[symmetric] by (simp add: power2_eq_square algebra_simps)
  then have "\<bar>S - (11 / 10)\<^sup>2\<bar> = \<bar>N - 11 / 10\<bar> * (N + 11 / 10)"
    using N(1) by (simp add: abs_mult)
  moreover have "\<bar>N - 11 / 10\<bar> * (11 / 10) \<le> \<bar>N - 11 / 10\<bar> * (N + 11 / 10)"
    using N(1) by (intro mult_left_mono) simp_all
  ultimately have "\<bar>N - 11 / 10\<bar> * (11 / 10) \<le> 3 * (1 / 2 ^ 23 * (23 / 10))"
    using S by linarith
  then have "\<bar>N - 11 / 10\<bar> \<le> 1 / 10 ^ 6" by simp
  then show ?thesis by (simp add: N_def S_def)
qed

lemma sphere_sq:
  fixes r a b :: real
  shows "(r * sin a * cos b)\<^sup>2 + (r * cos a)\<^sup>2 + (r * sin a * sin b)\<^sup>2 = r\<^sup>2"
proof -
  have e: "(r * sin a * cos b)\<^sup>2 + (r * cos a)\<^sup>2 + (r * sin a * sin b)\<^sup>2
        = r\<^sup>2 * ((sin a)\<^sup>2 * ((cos b)\<^sup>2 + (sin b)\<^sup>2) + (cos a)\<^sup>2)"
    by algebra
  have b1: "(cos b)\<^sup>2 + (sin b)\<^sup>2 = 1" and a1: "(sin a)\<^sup>2 + (cos a)\<^sup>2 = 1"
    by simp_all
  show ?thesis
    unfolding e by (simp only: b1 a1 mult_1_right)
qed

lemma sphere_norm:
  fixes r a b :: real
  assumes "0 \<le> r"
  shows "sqrt ((r * sin a * cos b)\<^sup>2 + (r * cos a)\<^sup>2 + (r * sin a * sin b)\<^sup>2) = r"
  unfolding sphere_sq using assms by simp

text \<open>No overflow in the angles of a position whose coordinates are at most 1024 radians.\<close>

lemma fl64_powers: "fl64 (2 ^ 18) = 2 ^ 18" "fl64 (2 ^ 19) = 2 ^ 19" "fl64 (2 ^ 20) = 2 ^ 20"
  by code_simp+

lemma dbl_finite:
  assumes "\<bar>x\<bar> \<le> 2 ^ 20"
  shows "dbl x = Finite (fl64 x)"
proof -
  have "\<bar>fl64 x\<bar> \<le> 2 ^ 20" using fl64_abs_le[OF assms] by (simp only: fl64_powers)
  moreover have "(2 ^ 20 :: real) < 2 ^ 1024" by simp
  ultimately have "\<not> 2 ^ 1024 \<le> \<bar>fl64 x\<bar>" by linarith
  then show ?thesis by (simp only: dbl_def if_False)
qed

lemma Math_PI_ge_1: "1 \<le> Math_PI"
  by (simp add: Math_PI_def)

lemma degrees_finite:
  assumes "\<bar>a\<bar> \<le> 1024"
  shows "d_divide (d_times (Finite a) (Finite 180)) Math_PI
           = Finite (fl64 (fl64 (a * 180) / Math_PI))"
    and "\<bar>fl64 (fl64 (a * 180) / Math_PI)\<bar> \<le> 2 ^ 18"
proof -
  have 1: "\<bar>a * 180\<bar> \<le> 2 ^ 18" using assms by (simp add: abs_mult)
  have f1: "\<bar>fl64 (a * 180)\<bar> \<le> 2 ^ 18" using fl64_abs_le[OF 1] by (simp only: fl64_powers)
  have d1: "dbl (a * 180) = Finite (fl64 (a * 180))" using 1 by (intro dbl_finite) simp
  have "\<bar>fl64 (a * 180) / Math_PI\<bar> = \<bar>fl64 (a * 180)\<bar> / Math_PI"
    using Math_PI_ge_1 by simp
  also have "\<dots> \<le> \<bar>fl64 (a * 180)\<bar> / 1"
    using Math_PI_ge_1 by (intro divide_left_mono) simp_all
  finally have 2: "\<bar>fl64 (a * 180) / Math_PI\<bar> \<le> 2 ^ 18" using f1 by simp
  show "\<bar>fl64 (fl64 (a * 180) / Math_PI)\<bar> \<le> 2 ^ 18"
    using fl64_abs_le[OF 2] by (simp only: fl64_powers)
  have d2: "dbl (fl64 (a * 180) / Math_PI) = Finite (fl64 (fl64 (a * 180) / Math_PI))"
    using 2 by (intro dbl_finite) simp
  have nz: "Math_PI \<noteq> 0" using Math_PI_ge_1 by simp
  show "d_divide (d_times (Finite a) (Finite 180)) Math_PI
           = Finite (fl64 (fl64 (a * 180) / Math_PI))"
    by (simp add: d_divide_def d_times_def d1 d2 nz)
qed

lemma radians_factor:
  "d_divide (Finite Math_PI) 180 = Finite (fl64 (Math_PI / 180))" "\<bar>fl64 (Math_PI / 180)\<bar> \<le> 1"
  by code_simp+

lemma angle_finite:
  assumes "\<bar>u\<bar> \<le> 2 ^ 19"
  shows "d_times (dbl u) (d_divide (Finite Math_PI) 180)
           = Finite (fl64 (fl64 u * fl64 (Math_PI / 180)))"
proof -
  have d1: "dbl u = Finite (fl64 u)" using assms by (intro dbl_finite) simp
  have f1: "\<bar>fl64 u\<bar> \<le> 2 ^ 19" using fl64_abs_le[OF assms] by (simp only: fl64_powers)
  have "\<bar>fl64 u * fl64 (Math_PI / 180)\<bar> \<le> 2 ^ 19"
    by (rule abs_times_le'[OF f1 radians_factor(2)])
  then have d2: "dbl (fl64 u * fl64 (Math_PI / 180)) = Finite (fl64 (fl64 u * fl64 (Math_PI / 180)))"
    by (intro dbl_finite) simp
  show ?thesis
    by (simp add: d_times_def d1 d2 radians_factor(1))
qed

lemma sin_cos_le_1: "\<bar>sin (x::real)\<bar> \<le> 1" "\<bar>cos (x::real)\<bar> \<le> 1"
  by simp_all

lemma coordinates_finite:
  assumes "\<bar>s\<bar> \<le> 1" "\<bar>c\<bar> \<le> 1"
  shows "d_times (Finite (fl64 1.1)) (Finite (fl64 s)) = Finite (fl64 (fl64 1.1 * fl64 s))"
    and "d_times (Finite (fl64 (fl64 1.1 * fl64 s))) (Finite (fl64 c))
           = Finite (fl64 (fl64 (fl64 1.1 * fl64 s) * fl64 c))"
proof -
  have s2: "\<bar>fl64 s\<bar> \<le> 1" using fl64_abs_le[OF assms(1)] by simp
  have c2: "\<bar>fl64 c\<bar> \<le> 1" using fl64_abs_le[OF assms(2)] by simp
  have "\<bar>fl64 1.1 * fl64 s\<bar> \<le> fl64 1.1" by (rule abs_times_le[OF radius_double(2) s2])
  then have "\<bar>fl64 1.1 * fl64 s\<bar> \<le> 2 ^ 20" using radius_double(3) by simp
  then have d1: "dbl (fl64 1.1 * fl64 s) = Finite (fl64 (fl64 1.1 * fl64 s))" by (rule dbl_finite)
  show "d_times (Finite (fl64 1.1)) (Finite (fl64 s)) = Finite (fl64 (fl64 1.1 * fl64 s))"
    by (simp add: d_times_def d1)
  have "\<bar>fl64 (fl64 1.1 * fl64 s) * fl64 c\<bar> \<le> fl64 1.1"
    by (rule abs_times_le'[OF first_product(2)[OF assms(1)] c2])
  then have "\<bar>fl64 (fl64 1.1 * fl64 s) * fl64 c\<bar> \<le> 2 ^ 20" using radius_double(3) by simp
  then have d2: "dbl (fl64 (fl64 1.1 * fl64 s) * fl64 c)
      = Finite (fl64 (fl64 (fl64 1.1 * fl64 s) * fl64 c))" by (rule dbl_finite)
  show "d_times (Finite (fl64 (fl64 1.1 * fl64 s))) (Finite (fl64 c))
           = Finite (fl64 (fl64 (fl64 1.1 * fl64 s) * fl64 c))"
    by (simp add: d_times_def d2)
qed

text \<open>The stored point, case by case.\<close>

lemma projected_not_finite:
  "latitude geo = NotFinite \<Longrightarrow> projected geo = (NaN, NaN, NaN)"
  "longitude geo = NotFinite \<Longrightarrow> fst (projected geo) = NaN \<and> snd (snd (projected geo)) = NaN"
  by (simp_all add: projected_def Let_def d_times_def d_divide_def d_minus_def d_plus_def
      Math_sin_def Math_cos_def to_float32_def split: double.splits)

lemma projected_finite:
  assumes "latitude geo = Finite la" "longitude geo = Finite lo" "\<bar>la\<bar> \<le> 1024" "\<bar>lo\<bar> \<le> 1024"
  shows "projected geo =
     (let lat = fl64 (fl64 (la * 180) / Math_PI);
          lon = fl64 (fl64 (lo * 180) / Math_PI);
          phi = fl64 (fl64 (90 - lat) * fl64 (Math_PI / 180));
          theta = fl64 (fl64 (lon + 180) * fl64 (Math_PI / 180))
      in (F32 (fl32 (fl64 (fl64 (fl64 1.1 * fl64 (sin phi)) * fl64 (cos theta)))),
          F32 (fl32 (fl64 (fl64 1.1 * fl64 (cos phi)))),
          F32 (fl32 (fl64 (fl64 (fl64 1.1 * fl64 (sin phi)) * fl64 (sin theta))))))"
proof -
  define lat where "lat = fl64 (fl64 (la * 180) / Math_PI)"
  define lon where "lon = fl64 (fl64 (lo * 180) / Math_PI)"
  define phi where "phi = fl64 (fl64 (90 - lat) * fl64 (Math_PI / 180))"
  define theta where "theta = fl64 (fl64 (lon + 180) * fl64 (Math_PI / 180))"
  have la: "d_divide (d_times (Finite la) (Finite 180)) Math_PI = Finite lat" "\<bar>lat\<bar> \<le> 2 ^ 18"
    using degrees_finite[OF assms(3)] by (simp_all add: lat_def)
  have lo: "d_divide (d_times (Finite lo) (Finite 180)) Math_PI = Finite lon" "\<bar>lon\<bar> \<le> 2 ^ 18"
    using degrees_finite[OF assms(4)] by (simp_all add: lon_def)
  have "\<bar>90 - lat\<bar> \<le> 2 ^ 19" using la(2) by simp
  then have ph: "d_times (d_minus (Finite 90) (Finite lat)) (d_divide (Finite Math_PI) 180) = Finite phi"
    using angle_finite[of "90 - lat"] by (simp add: d_minus_def phi_def)
  have "\<bar>lon + 180\<bar> \<le> 2 ^ 19" using lo(2) by simp
  then have th: "d_times (d_plus (Finite lon) (Finite 180)) (d_divide (Finite Math_PI) 180) = Finite theta"
    using angle_finite[of "lon + 180"] by (simp add: d_plus_def theta_def)
  note c1 = coordinates_finite[OF sin_cos_le_1(1)[of phi] sin_cos_le_1(2)[of theta]]
  note c2 = coordinates_finite(1)[OF sin_cos_le_1(2)[of phi] sin_cos_le_1(2)[of theta]]
  note c3 = coordinates_finite(2)[OF sin_cos_le_1(1)[of phi] sin_cos_le_1(1)[of theta]]
  show ?thesis
    unfolding projected_def Let_def assms(1,2) la(1) lo(1) ph th
    unfolding lat_def[symmetric] lon_def[symmetric] phi_def[symmetric] theta_def[symmetric]
    by (simp only: Math_sin_def Math_cos_def double.case c1 c2 c3 to_float32_def)
qed

text \<open>
  C7, as the code has it. For every entry whose three library calls succeed, the worker
  and the fallback store the same three values. If the latitude returned by the library is
  not finite (satellite.js returns NaN for an element set it cannot parse) all three are
  NaN; if only the longitude is not finite the first and the third are NaN. If both are
  finite (and at most 1024 radians in magnitude; the library returns them within pi) the
  stored values are x = 1.1 sin(phi) cos(theta), y = 1.1 cos(phi),
  z = 1.1 sin(phi) sin(theta) with phi = (90 - lat) \<^verbatim>\<open>Math.PI\<close> / 180 and
  theta = (lon + 180) \<^verbatim>\<open>Math.PI\<close> / 180, lat and lon the latitude and longitude in
  degrees, every operation rounded to a double and the three results rounded to single
  precision. Each stored coordinate is within \<open>2^-23\<close> of the exact point of the sphere
  of radius 1.1 at the computed angles phi and theta, and the norm of the stored position
  is within \<open>10^-6\<close> of 1.1.
\<close>

theorem successful_position:
  assumes "i < length elems"
    and "\<not> falsy (tle1 (elems ! i))" and "\<not> falsy (tle2 (elems ! i))"
    and "twoline2satrec lib (tle1 (elems ! i)) (tle2 (elems ! i)) = Returns satrec"
    and "propagate_position lib satrec now = Returns (Some p)"
    and "eciToGeodetic lib p (gstime lib now) = Returns geo"
  shows "slot (fallback_positions lib now next elems) i = slot (worker_positions lib now elems) i
    \<and> (case latitude geo of
          NotFinite \<Rightarrow> slot (worker_positions lib now elems) i = (NaN, NaN, NaN)
        | Finite la \<Rightarrow>
            (case longitude geo of
               NotFinite \<Rightarrow>
                 fst (slot (worker_positions lib now elems) i) = NaN
                 \<and> snd (snd (slot (worker_positions lib now elems) i)) = NaN
             | Finite lo \<Rightarrow>
                 \<bar>la\<bar> \<le> 1024 \<and> \<bar>lo\<bar> \<le> 1024 \<longrightarrow>
                 (let lat = fl64 (fl64 (la * 180) / Math_PI);
                      lon = fl64 (fl64 (lo * 180) / Math_PI);
                      phi = fl64 (fl64 (90 - lat) * fl64 (Math_PI / 180));
                      theta = fl64 (fl64 (lon + 180) * fl64 (Math_PI / 180));
                      x = fl32 (fl64 (fl64 (fl64 1.1 * fl64 (sin phi)) * fl64 (cos theta)));
                      y = fl32 (fl64 (fl64 1.1 * fl64 (cos phi)));
                      z = fl32 (fl64 (fl64 (fl64 1.1 * fl64 (sin phi)) * fl64 (sin theta)))
                  in slot (worker_positions lib now elems) i = (F32 x, F32 y, F32 z)
                   \<and> \<bar>x - 1.1 * sin phi * cos theta\<bar> \<le> 1 / 2 ^ 23
                   \<and> \<bar>y - 1.1 * cos phi\<bar> \<le> 1 / 2 ^ 23
                   \<and> \<bar>z - 1.1 * sin phi * sin theta\<bar> \<le> 1 / 2 ^ 23
                   \<and> sqrt ((1.1 * sin phi * cos theta)\<^sup>2 + (1.1 * cos phi)\<^sup>2
                        + (1.1 * sin phi * sin theta)\<^sup>2) = 1.1
                   \<and> \<bar>sqrt (x\<^sup>2 + y\<^sup>2 + z\<^sup>2) - 1.1\<bar> \<le> 1 / 10 ^ 6)))"
proof -
  have oc: "entry_outcome lib now (gstime lib now) (elems ! i) = Located geo"
    using assms(2-6) by (simp add: entry_outcome_def)
  have w: "slot (worker_positions lib now elems) i = projected geo"
    by (simp add: slot_worker_positions[OF assms(1)] oc)
  have f: "slot (fallback_positions lib now next elems) i = projected geo"
    by (simp add: slot_fallback_positions[OF assms(1)] oc)
  have fin: "let lat = fl64 (fl64 (la * 180) / Math_PI);
                 lon = fl64 (fl64 (lo * 180) / Math_PI);
                 phi = fl64 (fl64 (90 - lat) * fl64 (Math_PI / 180));
                 theta = fl64 (fl64 (lon + 180) * fl64 (Math_PI / 180));
                 x = fl32 (fl64 (fl64 (fl64 1.1 * fl64 (sin phi)) * fl64 (cos theta)));
                 y = fl32 (fl64 (fl64 1.1 * fl64 (cos phi)));
                 z = fl32 (fl64 (fl64 (fl64 1.1 * fl64 (sin phi)) * fl64 (sin theta)))
             in projected geo = (F32 x, F32 y, F32 z)
              \<and> \<bar>x - 1.1 * sin phi * cos theta\<bar> \<le> 1 / 2 ^ 23
              \<and> \<bar>y - 1.1 * cos phi\<bar> \<le> 1 / 2 ^ 23
              \<and> \<bar>z - 1.1 * sin phi * sin theta\<bar> \<le> 1 / 2 ^ 23
              \<and> sqrt ((1.1 * sin phi * cos theta)\<^sup>2 + (1.1 * cos phi)\<^sup>2
                   + (1.1 * sin phi * sin theta)\<^sup>2) = 1.1
              \<and> \<bar>sqrt (x\<^sup>2 + y\<^sup>2 + z\<^sup>2) - 1.1\<bar> \<le> 1 / 10 ^ 6"
    if g: "latitude geo = Finite la" "longitude geo = Finite lo" and b: "\<bar>la\<bar> \<le> 1024" "\<bar>lo\<bar> \<le> 1024"
    for la lo
  proof -
    define phi where "phi = fl64 (fl64 (90 - fl64 (fl64 (la * 180) / Math_PI)) * fl64 (Math_PI / 180))"
    define theta where "theta = fl64 (fl64 (fl64 (fl64 (lo * 180) / Math_PI) + 180) * fl64 (Math_PI / 180))"
    define x where "x = fl32 (fl64 (fl64 (fl64 1.1 * fl64 (sin phi)) * fl64 (cos theta)))"
    define y where "y = fl32 (fl64 (fl64 1.1 * fl64 (cos phi)))"
    define z where "z = fl32 (fl64 (fl64 (fl64 1.1 * fl64 (sin phi)) * fl64 (sin theta)))"
    have pr: "projected geo = (F32 x, F32 y, F32 z)"
      using projected_finite[OF g b] by (simp add: Let_def x_def y_def z_def phi_def theta_def)
    have ex: "\<bar>x - 1.1 * sin phi * cos theta\<bar> \<le> 1 / 2 ^ 23"
      unfolding x_def by (rule stored_xz_error) simp_all
    have ey: "\<bar>y - 1.1 * cos phi\<bar> \<le> 1 / 2 ^ 23"
      unfolding y_def by (rule stored_y_error) simp
    have ez: "\<bar>z - 1.1 * sin phi * sin theta\<bar> \<le> 1 / 2 ^ 23"
      unfolding z_def by (rule stored_xz_error) simp_all
    have sp: "(1.1 * sin phi * cos theta)\<^sup>2 + (1.1 * cos phi)\<^sup>2 + (1.1 * sin phi * sin theta)\<^sup>2
        = (11 / 10)\<^sup>2"
      using sphere_sq[of "1.1" phi theta] by simp
    have n0: "sqrt ((1.1 * sin phi * cos theta)\<^sup>2 + (1.1 * cos phi)\<^sup>2
        + (1.1 * sin phi * sin theta)\<^sup>2) = 1.1"
      using sphere_norm[of "1.1" phi theta] by simp
    have n: "\<bar>sqrt (x\<^sup>2 + y\<^sup>2 + z\<^sup>2) - 1.1\<bar> \<le> 1 / 10 ^ 6"
      using near_sphere[OF sp ex ey ez] by simp
    show ?thesis
      unfolding Let_def
      unfolding phi_def[symmetric] theta_def[symmetric]
      unfolding x_def[symmetric] y_def[symmetric] z_def[symmetric]
      using pr ex ey ez n0 n by (intro conjI)
  qed
  have cases: "case latitude geo of
          NotFinite \<Rightarrow> projected geo = (NaN, NaN, NaN)
        | Finite la \<Rightarrow>
            (case longitude geo of
               NotFinite \<Rightarrow> fst (projected geo) = NaN \<and> snd (snd (projected geo)) = NaN
             | Finite lo \<Rightarrow>
                 \<bar>la\<bar> \<le> 1024 \<and> \<bar>lo\<bar> \<le> 1024 \<longrightarrow>
                 (let lat = fl64 (fl64 (la * 180) / Math_PI);
                      lon = fl64 (fl64 (lo * 180) / Math_PI);
                      phi = fl64 (fl64 (90 - lat) * fl64 (Math_PI / 180));
                      theta = fl64 (fl64 (lon + 180) * fl64 (Math_PI / 180));
                      x = fl32 (fl64 (fl64 (fl64 1.1 * fl64 (sin phi)) * fl64 (cos theta)));
                      y = fl32 (fl64 (fl64 1.1 * fl64 (cos phi)));
                      z = fl32 (fl64 (fl64 (fl64 1.1 * fl64 (sin phi)) * fl64 (sin theta)))
                  in projected geo = (F32 x, F32 y, F32 z)
                   \<and> \<bar>x - 1.1 * sin phi * cos theta\<bar> \<le> 1 / 2 ^ 23
                   \<and> \<bar>y - 1.1 * cos phi\<bar> \<le> 1 / 2 ^ 23
                   \<and> \<bar>z - 1.1 * sin phi * sin theta\<bar> \<le> 1 / 2 ^ 23
                   \<and> sqrt ((1.1 * sin phi * cos theta)\<^sup>2 + (1.1 * cos phi)\<^sup>2
                        + (1.1 * sin phi * sin theta)\<^sup>2) = 1.1
                   \<and> \<bar>sqrt (x\<^sup>2 + y\<^sup>2 + z\<^sup>2) - 1.1\<bar> \<le> 1 / 10 ^ 6))"
  proof (cases "latitude geo")
    case NotFinite
    then show ?thesis using projected_not_finite(1)[of geo] by simp
  next
    case (Finite la)
    note la = this
    show ?thesis
    proof (cases "longitude geo")
      case NotFinite
      then show ?thesis using projected_not_finite(2)[of geo] la by simp
    next
      case (Finite lo)
      show ?thesis
        unfolding la Finite double.case
        using fin[OF la Finite] by (intro impI) (elim conjE)
    qed
  qed
  show ?thesis
    unfolding w f using cases by simp
qed

theorem successful_position_witness:
  "(0::nat) < length [\<lparr>name = ''ISS'', tle1 = Some ''1'', tle2 = Some ''2''\<rparr>]
   \<and> \<not> falsy (tle1 ([\<lparr>name = ''ISS'', tle1 = Some ''1'', tle2 = Some ''2''\<rparr>] ! 0))
   \<and> \<not> falsy (tle2 ([\<lparr>name = ''ISS'', tle1 = Some ''1'', tle2 = Some ''2''\<rparr>] ! 0))
   \<and> twoline2satrec sample_lib (Some ''1'') (Some ''2'') = Returns ''1''
   \<and> propagate_position sample_lib ''1'' 0 = Returns (Some ''1'')
   \<and> eciToGeodetic sample_lib ''1'' (gstime sample_lib 0)
       = Returns \<lparr>longitude = Finite (- Math_PI), latitude = Finite (Math_PI / 2)\<rparr>
   \<and> \<bar>Math_PI / 2\<bar> \<le> 1024 \<and> \<bar>- Math_PI\<bar> \<le> 1024
   \<and> slot (worker_positions sample_lib 0 [\<lparr>name = ''ISS'', tle1 = Some ''1'', tle2 = Some ''2''\<rparr>]) 0
       = (F32 0, F32 (9227469 / 8388608), F32 0)
   \<and> slot (fallback_positions sample_lib 0 None [\<lparr>name = ''ISS'', tle1 = Some ''1'', tle2 = Some ''2''\<rparr>]) 0
       = (F32 0, F32 (9227469 / 8388608), F32 0)
   \<and> \<bar>sqrt (0\<^sup>2 + (9227469 / 8388608)\<^sup>2 + 0\<^sup>2) - 1.1\<bar> \<le> (1 / 10 ^ 6 :: real)
   \<and> twoline2satrec sample_lib (Some ''malformed'') (Some ''2'') = Returns ''malformed''
   \<and> propagate_position sample_lib ''malformed'' 0 = Returns (Some ''malformed'')
   \<and> eciToGeodetic sample_lib ''malformed'' (gstime sample_lib 0)
       = Returns \<lparr>longitude = NotFinite, latitude = NotFinite\<rparr>
   \<and> slot (worker_positions sample_lib 0 [\<lparr>name = ''X'', tle1 = Some ''malformed'', tle2 = Some ''2''\<rparr>]) 0
       = (NaN, NaN, NaN)
   \<and> slot (fallback_positions sample_lib 0 None
         [\<lparr>name = ''X'', tle1 = Some ''malformed'', tle2 = Some ''2''\<rparr>]) 0
       = (NaN, NaN, NaN)"
proof -
  let ?E = "[\<lparr>name = ''ISS'', tle1 = Some ''1'', tle2 = Some ''2''\<rparr>]"
  let ?X = "[\<lparr>name = ''X'', tle1 = Some ''malformed'', tle2 = Some ''2''\<rparr>]"
  have h1: "(0::nat) < length ?E" by simp
  have h2: "\<not> falsy (tle1 (?E ! 0))" and h3: "\<not> falsy (tle2 (?E ! 0))"
    by (simp_all add: falsy_def)
  have h4: "twoline2satrec sample_lib (tle1 (?E ! 0)) (tle2 (?E ! 0)) = Returns ''1''"
    by (simp add: sample_lib_def)
  have h5: "propagate_position sample_lib ''1'' 0 = Returns (Some ''1'')"
    by (simp add: sample_lib_def)
  have h6: "eciToGeodetic sample_lib ''1'' (gstime sample_lib 0)
      = Returns \<lparr>longitude = Finite (- Math_PI), latitude = Finite (Math_PI / 2)\<rparr>"
    by (simp add: sample_lib_def)
  have b: "\<bar>Math_PI / 2\<bar> \<le> 1024" "\<bar>- Math_PI\<bar> \<le> 1024"
    by (simp_all add: Math_PI_def)
  define phi where "phi = fl64 (fl64 (90 - fl64 (fl64 (Math_PI / 2 * 180) / Math_PI)) * fl64 (Math_PI / 180))"
  define theta where "theta = fl64 (fl64 (fl64 (fl64 (- Math_PI * 180) / Math_PI) + 180) * fl64 (Math_PI / 180))"
  have a0: "phi = 0" "theta = 0"
    unfolding phi_def theta_def by code_simp+
  have v: "fl32 (fl64 (fl64 (fl64 1.1 * fl64 0) * fl64 1)) = 0"
    "fl32 (fl64 (fl64 1.1 * fl64 1)) = 9227469 / 8388608"
    "fl32 (fl64 (fl64 (fl64 1.1 * fl64 0) * fl64 0)) = 0"
    by code_simp+
  note t = successful_position[OF h1 h2 h3 h4 h5 h6, of None]
  have A: "slot (fallback_positions sample_lib 0 None ?E) 0 = slot (worker_positions sample_lib 0 ?E) 0
      \<and> slot (worker_positions sample_lib 0 ?E) 0
          = (F32 (fl32 (fl64 (fl64 (fl64 1.1 * fl64 (sin phi)) * fl64 (cos theta)))),
             F32 (fl32 (fl64 (fl64 1.1 * fl64 (cos phi)))),
             F32 (fl32 (fl64 (fl64 (fl64 1.1 * fl64 (sin phi)) * fl64 (sin theta)))))
      \<and> \<bar>sqrt ((fl32 (fl64 (fl64 (fl64 1.1 * fl64 (sin phi)) * fl64 (cos theta))))\<^sup>2
            + (fl32 (fl64 (fl64 1.1 * fl64 (cos phi))))\<^sup>2
            + (fl32 (fl64 (fl64 (fl64 1.1 * fl64 (sin phi)) * fl64 (sin theta))))\<^sup>2) - 1.1\<bar>
          \<le> 1 / 10 ^ 6"
    using t b unfolding phi_def theta_def by (simp add: Let_def)
  have B: "slot (fallback_positions sample_lib 0 None ?E) 0 = slot (worker_positions sample_lib 0 ?E) 0
      \<and> slot (worker_positions sample_lib 0 ?E) 0 = (F32 0, F32 (9227469 / 8388608), F32 0)
      \<and> \<bar>sqrt (0\<^sup>2 + (9227469 / 8388608)\<^sup>2 + 0\<^sup>2) - 1.1\<bar> \<le> (1 / 10 ^ 6 :: real)"
    using A unfolding a0 sin_zero cos_zero v .
  have k2: "\<not> falsy (tle1 (?X ! 0))" and k3: "\<not> falsy (tle2 (?X ! 0))"
    by (simp_all add: falsy_def)
  have k4: "twoline2satrec sample_lib (tle1 (?X ! 0)) (tle2 (?X ! 0)) = Returns ''malformed''"
    by (simp add: sample_lib_def)
  have k5: "propagate_position sample_lib ''malformed'' 0 = Returns (Some ''malformed'')"
    by (simp add: sample_lib_def)
  have k6: "eciToGeodetic sample_lib ''malformed'' (gstime sample_lib 0)
      = Returns \<lparr>longitude = NotFinite, latitude = NotFinite\<rparr>"
    by (simp add: sample_lib_def)
  have k1: "(0::nat) < length ?X" by simp
  have C: "slot (fallback_positions sample_lib 0 None ?X) 0 = slot (worker_positions sample_lib 0 ?X) 0
      \<and> slot (worker_positions sample_lib 0 ?X) 0 = (NaN, NaN, NaN)"
    using successful_position[OF k1 k2 k3 k4 k5 k6, of None] by simp
  show ?thesis
    using h1 h2 h3 h4 h5 h6 b B k4 k5 k6 C by simp
qed

text \<open>
  The claim as stated fails. An entry whose lines the library cannot parse passes through
  the three library calls without an exception and with a position that is not falsy, but
  with NaN coordinates: both loops then store (NaN, NaN, NaN), which is no point of the
  sphere. And for finite coordinates the norm is 1.1 only up to rounding: over the north
  pole the stored position is (0, 1.10000002384185791015625, 0), the single-precision
  number nearest to 1.1.
\<close>

theorem nan_position_on_success:
  "\<not> falsy (Some ''malformed'') \<and> \<not> falsy (Some ''2'')
   \<and> twoline2satrec sample_lib (Some ''malformed'') (Some ''2'') = Returns ''malformed''
   \<and> propagate_position sample_lib ''malformed'' 0 = Returns (Some ''malformed'')
   \<and> eciToGeodetic sample_lib ''malformed'' (gstime sample_lib 0)
       = Returns \<lparr>longitude = NotFinite, latitude = NotFinite\<rparr>
   \<and> worker_positions sample_lib 0 [\<lparr>name = ''X'', tle1 = Some ''malformed'', tle2 = Some ''2''\<rparr>]
       = [NaN, NaN, NaN]
   \<and> fallback_positions sample_lib 0 None [\<lparr>name = ''X'', tle1 = Some ''malformed'', tle2 = Some ''2''\<rparr>]
       = [NaN, NaN, NaN]
   \<and> worker_positions sample_lib 0 [\<lparr>name = ''ISS'', tle1 = Some ''1'', tle2 = Some ''2''\<rparr>]
       = [F32 0, F32 (9227469 / 8388608), F32 0]
   \<and> sqrt (0\<^sup>2 + (9227469 / 8388608)\<^sup>2 + 0\<^sup>2) \<noteq> (1.1 :: real)"
proof -
  let ?X = "\<lparr>name = ''X'', tle1 = Some ''malformed'', tle2 = Some ''2''\<rparr>"
  let ?E = "\<lparr>name = ''ISS'', tle1 = Some ''1'', tle2 = Some ''2''\<rparr>"
  have l: "twoline2satrec sample_lib (Some ''malformed'') (Some ''2'') = Returns ''malformed''"
    "propagate_position sample_lib ''malformed'' 0 = Returns (Some ''malformed'')"
    "eciToGeodetic sample_lib ''malformed'' (gstime sample_lib 0)
       = Returns \<lparr>longitude = NotFinite, latitude = NotFinite\<rparr>"
    by (simp_all add: sample_lib_def)
  have ox: "entry_outcome sample_lib 0 (gstime sample_lib 0) ?X
      = Located \<lparr>longitude = NotFinite, latitude = NotFinite\<rparr>"
    by (simp add: entry_outcome_def falsy_def sample_lib_def)
  have oe: "entry_outcome sample_lib 0 (gstime sample_lib 0) ?E
      = Located \<lparr>longitude = Finite (- Math_PI), latitude = Finite (Math_PI / 2)\<rparr>"
    by (simp add: entry_outcome_def falsy_def sample_lib_def)
  have px: "projected \<lparr>longitude = NotFinite, latitude = NotFinite\<rparr> = (NaN, NaN, NaN)"
    by (rule projected_not_finite(1)) simp
  have a0: "fl64 (fl64 (90 - fl64 (fl64 (Math_PI / 2 * 180) / Math_PI)) * fl64 (Math_PI / 180)) = 0"
    "fl64 (fl64 (fl64 (fl64 (- Math_PI * 180) / Math_PI) + 180) * fl64 (Math_PI / 180)) = 0"
    by code_simp+
  have v: "fl32 (fl64 (fl64 (fl64 1.1 * fl64 0) * fl64 1)) = 0"
    "fl32 (fl64 (fl64 1.1 * fl64 1)) = 9227469 / 8388608"
    "fl32 (fl64 (fl64 (fl64 1.1 * fl64 0) * fl64 0)) = 0"
    by code_simp+
  have b: "\<bar>Math_PI / 2\<bar> \<le> 1024" "\<bar>- Math_PI\<bar> \<le> 1024"
    by (simp_all add: Math_PI_def)
  have pe: "projected \<lparr>longitude = Finite (- Math_PI), latitude = Finite (Math_PI / 2)\<rparr>
      = (F32 0, F32 (9227469 / 8388608), F32 0)"
    using projected_finite[of "\<lparr>longitude = Finite (- Math_PI), latitude = Finite (Math_PI / 2)\<rparr>"
        "Math_PI / 2" "- Math_PI", OF _ _ b]
    unfolding Let_def a0 sin_zero cos_zero v by simp
  have w: "worker_positions sample_lib 0 [t]
      = store3 [F32 0, F32 0, F32 0] 0
          (case entry_outcome sample_lib 0 (gstime sample_lib 0) t of
             Located geo \<Rightarrow> projected geo | _ \<Rightarrow> zero3)" for t
    by (simp add: worker_positions_def worker_body_outcome new_Float32Array_def numeral_3_eq_3)
  have f: "fallback_positions sample_lib 0 None [t]
      = (case (case entry_outcome sample_lib 0 (gstime sample_lib 0) t of
                 Absent \<Rightarrow> Some (F32 1.1, F32 0, F32 0)
               | Raised \<Rightarrow> Some zero3
               | NoPosition \<Rightarrow> None
               | Located geo \<Rightarrow> Some (projected geo))
         of None \<Rightarrow> [F32 0, F32 0, F32 0] | Some v \<Rightarrow> store3 [F32 0, F32 0, F32 0] 0 v)" for t
    by (simp add: fallback_positions_def fallback_body_outcome new_Float32Array_def numeral_3_eq_3
        split: outcome.splits)
  have n: "worker_positions sample_lib 0 [?X] = [NaN, NaN, NaN]"
    "fallback_positions sample_lib 0 None [?X] = [NaN, NaN, NaN]"
    "worker_positions sample_lib 0 [?E] = [F32 0, F32 (9227469 / 8388608), F32 0]"
    unfolding w f ox oe by (simp_all add: px pe store3_def)
  have s: "sqrt (0\<^sup>2 + (9227469 / 8388608)\<^sup>2 + 0\<^sup>2) \<noteq> (1.1 :: real)"
    by simp
  show ?thesis
    using l n s by (simp add: falsy_def)
qed

section \<open>Fallback against worker\<close>

text \<open>
  C1, as the code has it. For every collection and timestamp the fallback's buffer has the
  length of the worker's and agrees with it at every entry that has both lines and whose
  propagation does not raise. At an entry with an absent line the fallback writes what
  next holds at that slot, or (1.1, 0, 0) when there is no next buffer; at an entry whose
  propagation raises it writes what next holds, or (0, 0, 0) when there is no next buffer.
\<close>

theorem fallback_against_worker:
  assumes "i < length elems"
  shows "length (fallback_positions lib now next elems) = length (worker_positions lib now elems)
    \<and> slot (fallback_positions lib now next elems) i =
        (case entry_outcome lib now (gstime lib now) (elems ! i) of
           Absent \<Rightarrow> (case next of None \<Rightarrow> (F32 1.1, F32 0, F32 0) | Some nb \<Rightarrow> slot nb i)
         | Raised \<Rightarrow> (case next of None \<Rightarrow> (F32 0, F32 0, F32 0) | Some nb \<Rightarrow> slot nb i)
         | NoPosition \<Rightarrow> slot (worker_positions lib now elems) i
         | Located geo \<Rightarrow> slot (worker_positions lib now elems) i)"
  by (simp add: length_fallback_positions length_worker_positions
      slot_fallback_positions[OF assms] slot_worker_positions[OF assms] zero3_def
      split: outcome.splits option.splits)

theorem fallback_against_worker_witness:
  "(0::nat) < length [\<lparr>name = ''SYNTH-0'', tle1 = Some [], tle2 = Some []\<rparr>]
   \<and> length (fallback_positions sample_lib 0 (Some [F32 5, F32 6, F32 7])
         [\<lparr>name = ''SYNTH-0'', tle1 = Some [], tle2 = Some []\<rparr>])
       = length (worker_positions sample_lib 0 [\<lparr>name = ''SYNTH-0'', tle1 = Some [], tle2 = Some []\<rparr>])
   \<and> slot (fallback_positions sample_lib 0 (Some [F32 5, F32 6, F32 7])
         [\<lparr>name = ''SYNTH-0'', tle1 = Some [], tle2 = Some []\<rparr>]) 0
       = (F32 5, F32 6, F32 7)"
proof -
  let ?E = "[\<lparr>name = ''SYNTH-0'', tle1 = Some [], tle2 = Some []\<rparr>]"
  have h: "(0::nat) < length ?E" by simp
  have oc: "entry_outcome sample_lib 0 (gstime sample_lib 0) (?E ! 0) = Absent"
    by (simp add: entry_outcome_def falsy_def)
  have sl: "slot [F32 5, F32 6, F32 7] 0 = (F32 5, F32 6, F32 7)"
    by (simp add: slot_def rd_def)
  show ?thesis
    using fallback_against_worker[OF h, of sample_lib 0 "Some [F32 5, F32 6, F32 7]", unfolded oc]
    by (simp add: sl)
qed

text \<open>
  The claim as stated fails: for one placeholder entry (empty lines) and no next buffer,
  the fallback gives (1.1, 0, 0) where the worker gives (0, 0, 0).
\<close>

theorem fallback_differs_from_worker:
  "fallback_positions sample_lib 0 None [\<lparr>name = ''SYNTH-0'', tle1 = Some [], tle2 = Some []\<rparr>]
     = [F32 1.1, F32 0, F32 0]
   \<and> worker_positions sample_lib 0 [\<lparr>name = ''SYNTH-0'', tle1 = Some [], tle2 = Some []\<rparr>]
     = [F32 0, F32 0, F32 0]"
  by (simp add: fallback_positions_def worker_positions_def fallback_body_def worker_body_def
      falsy_def store3_def new_Float32Array_def numeral_3_eq_3)

section \<open>Failures inside a batch\<close>

text \<open>
  C2, as the code has it. Both loops always finish with a buffer of 3N scalars, and the
  slot of an entry depends on that entry alone. The worker writes (0, 0, 0) for an entry
  with an absent line, for one whose propagation raises and for one with no position. The
  fallback writes (0, 0, 0) for an entry with no position; for an entry with an absent
  line it writes what next holds at that slot, or (1.1, 0, 0) when there is no next buffer;
  for an entry whose propagation raises it writes what next holds, or (0, 0, 0) when there
  is no next buffer.
\<close>

theorem batch_isolates_failures:
  assumes "i < length elems"
  shows "length (worker_positions lib now elems) = 3 * length elems
    \<and> length (fallback_positions lib now next elems) = 3 * length elems
    \<and> (case entry_outcome lib now (gstime lib now) (elems ! i) of
          Absent \<Rightarrow>
            slot (worker_positions lib now elems) i = (F32 0, F32 0, F32 0)
            \<and> slot (fallback_positions lib now next elems) i =
                (case next of None \<Rightarrow> (F32 1.1, F32 0, F32 0) | Some nb \<Rightarrow> slot nb i)
        | Raised \<Rightarrow>
            slot (worker_positions lib now elems) i = (F32 0, F32 0, F32 0)
            \<and> slot (fallback_positions lib now next elems) i =
                (case next of None \<Rightarrow> (F32 0, F32 0, F32 0) | Some nb \<Rightarrow> slot nb i)
        | NoPosition \<Rightarrow>
            slot (worker_positions lib now elems) i = (F32 0, F32 0, F32 0)
            \<and> slot (fallback_positions lib now next elems) i = (F32 0, F32 0, F32 0)
        | Located geo \<Rightarrow>
            slot (worker_positions lib now elems) i = slot (fallback_positions lib now next elems) i)"
  by (simp add: length_fallback_positions length_worker_positions
      slot_fallback_positions[OF assms] slot_worker_positions[OF assms] zero3_def
      split: outcome.splits option.splits)

theorem batch_isolates_failures_witness:
  "(1::nat) < length [\<lparr>name = ''A'', tle1 = Some ''bad'', tle2 = Some ''2''\<rparr>,
                      \<lparr>name = ''B'', tle1 = Some ''decayed'', tle2 = Some ''2''\<rparr>]
   \<and> length (worker_positions sample_lib 0
         [\<lparr>name = ''A'', tle1 = Some ''bad'', tle2 = Some ''2''\<rparr>,
          \<lparr>name = ''B'', tle1 = Some ''decayed'', tle2 = Some ''2''\<rparr>]) = 3 * 2
   \<and> length (fallback_positions sample_lib 0 None
         [\<lparr>name = ''A'', tle1 = Some ''bad'', tle2 = Some ''2''\<rparr>,
          \<lparr>name = ''B'', tle1 = Some ''decayed'', tle2 = Some ''2''\<rparr>]) = 3 * 2
   \<and> slot (worker_positions sample_lib 0
         [\<lparr>name = ''A'', tle1 = Some ''bad'', tle2 = Some ''2''\<rparr>,
          \<lparr>name = ''B'', tle1 = Some ''decayed'', tle2 = Some ''2''\<rparr>]) 1 = (F32 0, F32 0, F32 0)
   \<and> slot (fallback_positions sample_lib 0 None
         [\<lparr>name = ''A'', tle1 = Some ''bad'', tle2 = Some ''2''\<rparr>,
          \<lparr>name = ''B'', tle1 = Some ''decayed'', tle2 = Some ''2''\<rparr>]) 1 = (F32 0, F32 0, F32 0)"
proof -
  let ?E = "[\<lparr>name = ''A'', tle1 = Some ''bad'', tle2 = Some ''2''\<rparr>,
             \<lparr>name = ''B'', tle1 = Some ''decayed'', tle2 = Some ''2''\<rparr>]"
  have h: "(1::nat) < length ?E" by simp
  have oc: "entry_outcome sample_lib 0 (gstime sample_lib 0) (?E ! 1) = NoPosition"
    by (simp add: entry_outcome_def falsy_def sample_lib_def)
  show ?thesis
    using batch_isolates_failures[OF h, of sample_lib 0 None, unfolded oc]
    by simp
qed

text \<open>
  The claim as stated fails: with next holding (5, 6, 7), the fallback gives (5, 6, 7), not
  (0, 0, 0), to an entry whose propagation raises.
\<close>

theorem fallback_keeps_previous_on_raise:
  "slot (fallback_positions sample_lib 0 (Some [F32 5, F32 6, F32 7])
           [\<lparr>name = ''A'', tle1 = Some ''bad'', tle2 = Some ''2''\<rparr>]) 0
     = (F32 5, F32 6, F32 7)
   \<and> entry_outcome sample_lib 0 (gstime sample_lib 0)
        \<lparr>name = ''A'', tle1 = Some ''bad'', tle2 = Some ''2''\<rparr> = Raised"
  by (simp add: fallback_positions_def fallback_body_def entry_outcome_def sample_lib_def
      falsy_def store3_def slot_def rd_def new_Float32Array_def numeral_3_eq_3)

section \<open>Installing a buffer\<close>

lemma advance_interp_at_start:
  "u_interp s = 0 \<Longrightarrow> satInterpStart s = perf_s clk \<Longrightarrow> u_interp (advance_interp clk s) = 0"
  by (simp add: advance_interp_def Let_def)

lemma slide_same_length:
  "length n = length p \<Longrightarrow> length arr = length n \<Longrightarrow>
   slide p n arr s = (None, s\<lparr>prevSatBuffer := Some n, nextSatBuffer := Some arr\<rparr>)"
  by (simp add: slide_def ta_set_same_length)

lemma onmessage_installs:
  assumes "prevSatBuffer s = Some p" "nextSatBuffer s = Some n" "tlePoints s"
    "tlePositionsAttr s \<noteq> None" "length p = length arr" "length n = length arr"
  shows "fst (sgp4Worker_onmessage clk (Positions arr) s) = None
    \<and> installed n arr clk (fst (snd (sgp4Worker_onmessage clk (Positions arr) s)))"
proof -
  have sl: "slide p n arr (s\<lparr>tleLatestBuffer := Some arr\<rparr>)
      = (None, s\<lparr>tleLatestBuffer := Some arr, prevSatBuffer := Some n, nextSatBuffer := Some arr\<rparr>)"
    using assms(5,6) by (simp add: slide_same_length)
  have r: "sgp4Worker_onmessage clk (Positions arr) s
      = (None, s\<lparr>tleLatestBuffer := Some arr, prevSatBuffer := Some n, nextSatBuffer := Some arr,
                 u_interp := 0, satInterpStart := perf_s clk, lastTleUpdate := date_ms clk\<rparr>, [])"
    using assms(1-4) by (simp add: sgp4Worker_onmessage_def sl)
  show ?thesis
    unfolding r by (simp add: installed_def advance_interp_at_start)
qed

lemma fallback_installs:
  assumes "prevSatBuffer s = Some p" "nextSatBuffer s = Some n" "tlePoints s"
    "tleData s \<noteq> []" "length p = 3 * length (tleData s)" "length n = 3 * length (tleData s)"
  shows "fst (updateTLEPositionsFallback (Some lib) clk s) = None
    \<and> installed n (fallback_positions lib (date_ms clk) (Some n) (tleData s)) clk
        (snd (updateTLEPositionsFallback (Some lib) clk s))"
proof -
  let ?arr = "fallback_positions lib (date_ms clk) (Some n) (tleData s)"
  let ?s1 = "s\<lparr>prevSatBuffer := Some n, nextSatBuffer := Some ?arr,
               u_interp := 0, satInterpStart := perf_s clk\<rparr>"
  have len: "length ?arr = length n" "length n = length p"
    using assms(5,6) by (simp_all add: length_fallback_positions)
  have sl: "slide p n ?arr s = (None, s\<lparr>prevSatBuffer := Some n, nextSatBuffer := Some ?arr\<rparr>)"
    using len by (simp add: slide_same_length)
  have r: "updateTLEPositionsFallback (Some lib) clk s
      = (None, ?s1\<lparr>tleLatestBuffer := Some ?arr, lastTleUpdate := date_ms clk\<rparr>)"
    using assms(1-4) by (simp add: updateTLEPositionsFallback_def Let_def sl)
  show ?thesis
    unfolding r by (simp add: installed_def advance_interp_at_start)
qed

text \<open>
  C3. In a state where prev and next exist with the length of the incoming buffer (and the
  points object and its position attribute exist, as they do once the buffers are
  allocated), the worker's positions handler leaves prev equal to the old next and next
  equal to the supplied buffer, sets the blend to 0 and restarts the clock at the install
  time; the fallback does the same with the buffer it has computed.
\<close>

theorem install_slides_next_to_prev:
  assumes "prevSatBuffer s = Some p" and "nextSatBuffer s = Some n"
    and "tlePoints s" and "tlePositionsAttr s \<noteq> None"
  shows "(length p = length arr \<and> length n = length arr \<longrightarrow>
            fst (sgp4Worker_onmessage clk (Positions arr) s) = None
            \<and> installed n arr clk (fst (snd (sgp4Worker_onmessage clk (Positions arr) s))))
       \<and> (tleData s \<noteq> [] \<and> length p = 3 * length (tleData s) \<and> length n = 3 * length (tleData s) \<longrightarrow>
            fst (updateTLEPositionsFallback (Some lib) clk s) = None
            \<and> installed n (fallback_positions lib (date_ms clk) (Some n) (tleData s)) clk
                (snd (updateTLEPositionsFallback (Some lib) clk s)))"
  using onmessage_installs[OF assms(1,2,3,4)] fallback_installs[OF assms(1,2,3)]
  by blast


theorem install_slides_next_to_prev_witness:
  "prevSatBuffer sample_store = Some [F32 1, F32 2, F32 3]
   \<and> nextSatBuffer sample_store = Some [F32 4, F32 5, F32 6]
   \<and> tlePoints sample_store
   \<and> tlePositionsAttr sample_store \<noteq> None
   \<and> length [F32 1, F32 2, F32 3] = length [F32 7, F32 8, F32 9]
   \<and> length [F32 4, F32 5, F32 6] = length [F32 7, F32 8, F32 9]
   \<and> tleData sample_store \<noteq> []
   \<and> length [F32 1, F32 2, F32 3] = 3 * length (tleData sample_store)
   \<and> length [F32 4, F32 5, F32 6] = 3 * length (tleData sample_store)
   \<and> fst (sgp4Worker_onmessage sample_clock (Positions [F32 7, F32 8, F32 9]) sample_store) = None
   \<and> prevSatBuffer (fst (snd (sgp4Worker_onmessage sample_clock (Positions [F32 7, F32 8, F32 9]) sample_store)))
       = Some [F32 4, F32 5, F32 6]
   \<and> nextSatBuffer (fst (snd (sgp4Worker_onmessage sample_clock (Positions [F32 7, F32 8, F32 9]) sample_store)))
       = Some [F32 7, F32 8, F32 9]
   \<and> u_interp (fst (snd (sgp4Worker_onmessage sample_clock (Positions [F32 7, F32 8, F32 9]) sample_store))) = 0
   \<and> satInterpStart (fst (snd (sgp4Worker_onmessage sample_clock (Positions [F32 7, F32 8, F32 9]) sample_store))) = 2
   \<and> fst (updateTLEPositionsFallback (Some sample_lib) sample_clock sample_store) = None
   \<and> prevSatBuffer (snd (updateTLEPositionsFallback (Some sample_lib) sample_clock sample_store))
       = Some [F32 4, F32 5, F32 6]
   \<and> nextSatBuffer (snd (updateTLEPositionsFallback (Some sample_lib) sample_clock sample_store))
       = Some [F32 4, F32 5, F32 6]
   \<and> satInterpStart (snd (updateTLEPositionsFallback (Some sample_lib) sample_clock sample_store)) = 2"
proof -
  have h: "prevSatBuffer sample_store = Some [F32 1, F32 2, F32 3]"
    "nextSatBuffer sample_store = Some [F32 4, F32 5, F32 6]"
    "tlePoints sample_store" "tlePositionsAttr sample_store \<noteq> None"
    by (simp_all add: sample_store_def initial_state_def)
  have d: "tleData sample_store = [\<lparr>name = ''A'', tle1 = Some ''bad'', tle2 = Some ''2''\<rparr>]"
    by (simp add: sample_store_def initial_state_def)
  have a: "fallback_positions sample_lib 1000 (Some [F32 4, F32 5, F32 6])
             [\<lparr>name = ''A'', tle1 = Some ''bad'', tle2 = Some ''2''\<rparr>] = [F32 4, F32 5, F32 6]"
    by (simp add: fallback_positions_def fallback_body_def sample_lib_def
        falsy_def store3_def rd_def new_Float32Array_def numeral_3_eq_3)
  show ?thesis
    using install_slides_next_to_prev[OF h, of "[F32 7, F32 8, F32 9]" sample_clock sample_lib]
    by (simp add: h d a installed_def)
qed

section \<open>Handlers keep the collection and the buffer lengths\<close>

lemma same_shape_refl [simp]: "same_shape s s"
  by (simp add: same_shape_def)

lemma same_shape_trans: "same_shape s s1 \<Longrightarrow> same_shape s1 s2 \<Longrightarrow> same_shape s s2"
  by (simp add: same_shape_def)

lemma same_shape_other_fields [simp]:
  "same_shape s (s'\<lparr>tleLatestBuffer := l\<rparr>) = same_shape s s'"
  "same_shape s (s'\<lparr>lastTleUpdate := d\<rparr>) = same_shape s s'"
  "same_shape s (s'\<lparr>u_interp := u\<rparr>) = same_shape s s'"
  "same_shape s (s'\<lparr>satInterpStart := t\<rparr>) = same_shape s s'"
  "same_shape s (s'\<lparr>sgp4Worker := w\<rparr>) = same_shape s s'"
  "same_shape s (s'\<lparr>syntheticParams := ps\<rparr>) = same_shape s s'"
  "same_shape s (s'\<lparr>syntheticPositions := sp\<rparr>) = same_shape s s'"
  "same_shape s (s'\<lparr>tlePositionsAttr := a\<rparr>) = same_shape s s'"
  by (simp_all add: same_shape_def)

lemma same_shape_slide:
  assumes "prevSatBuffer s = Some p" "nextSatBuffer s = Some n"
  shows "same_shape s (snd (slide p n arr s))"
  using assms
  by (auto simp: slide_def same_shape_def dest: ta_set_length split: sum.splits)

lemma same_shape_slide_latest:
  assumes "prevSatBuffer s = Some p" "nextSatBuffer s = Some n"
  shows "same_shape s (snd (slide p n arr (s\<lparr>tleLatestBuffer := l\<rparr>)))"
  using assms
  by (auto simp: slide_def same_shape_def dest: ta_set_length split: sum.splits)

lemma same_shape_onmessage: "same_shape s (fst (snd (sgp4Worker_onmessage clk msg s)))"
proof (cases msg)
  case (Ready b n)
  then show ?thesis by (simp add: sgp4Worker_onmessage_def)
next
  case (Positions arr)
  show ?thesis
  proof (cases "prevSatBuffer s")
    case None
    then show ?thesis
      by (simp add: Positions sgp4Worker_onmessage_def)
  next
    case (Some p)
    note p = this
    show ?thesis
    proof (cases "nextSatBuffer s")
      case None
      then show ?thesis
        by (simp add: Positions sgp4Worker_onmessage_def p)
    next
      case (Some n)
      obtain e s2 where sl: "slide p n arr (s\<lparr>tleLatestBuffer := Some arr\<rparr>) = (e, s2)"
        by (cases "slide p n arr (s\<lparr>tleLatestBuffer := Some arr\<rparr>)") auto
      have "same_shape s s2"
        using same_shape_slide_latest[OF p Some, of arr "Some arr"] sl by simp
      then show ?thesis
        by (cases e) (simp_all add: Positions sgp4Worker_onmessage_def p Some sl)
    qed
  qed
qed

lemma same_shape_fallback: "same_shape s (snd (updateTLEPositionsFallback satellite clk s))"
proof (cases "tleData s = [] \<or> satellite = None")
  case True
  then show ?thesis by (auto simp: updateTLEPositionsFallback_def)
next
  case False
  then obtain lib where lib: "satellite = Some lib" and ne: "tleData s \<noteq> []" by auto
  have other: "same_shape s
      (snd (case tlePositionsAttr s of
              Some (Position a) \<Rightarrow>
                (case ta_set a arr of
                   Inl e \<Rightarrow> (Some e, s)
                 | Inr a' \<Rightarrow> (None, s\<lparr>tlePositionsAttr := Some (Position a'),
                       tleLatestBuffer := Some arr, lastTleUpdate := date_ms clk\<rparr>))
            | Some A_posNext \<Rightarrow>
                (case nextSatBuffer s of
                   None \<Rightarrow> (Some TypeError, s)
                 | Some n \<Rightarrow>
                     (case ta_set n arr of
                        Inl e \<Rightarrow> (Some e, s)
                      | Inr n' \<Rightarrow> (None, s\<lparr>nextSatBuffer := Some n',
                            tleLatestBuffer := Some arr, lastTleUpdate := date_ms clk\<rparr>)))
            | None \<Rightarrow> (None, s\<lparr>tleLatestBuffer := Some arr, lastTleUpdate := date_ms clk\<rparr>)))" for arr
    by (auto simp: same_shape_def dest: ta_set_length split: option.splits posattr.splits sum.splits)
  show ?thesis
  proof (cases "prevSatBuffer s")
    case None
    then show ?thesis
      using other by (simp add: updateTLEPositionsFallback_def lib ne Let_def)
  next
    case (Some p)
    note p = this
    show ?thesis
    proof (cases "nextSatBuffer s")
      case None
      then show ?thesis
        using other by (simp add: updateTLEPositionsFallback_def lib ne Let_def p)
    next
      case (Some n)
      obtain e s1 where sl: "slide p n (fallback_positions lib (date_ms clk) (Some n) (tleData s)) s = (e, s1)"
        by (cases "slide p n (fallback_positions lib (date_ms clk) (Some n) (tleData s)) s") auto
      have "same_shape s s1"
        using same_shape_slide[OF p Some, of "fallback_positions lib (date_ms clk) (Some n) (tleData s)"] sl
        by simp
      then show ?thesis
        by (cases e) (simp_all add: updateTLEPositionsFallback_def lib ne Let_def p Some sl)
    qed
  qed
qed


lemma same_shape_attr_store3: "same_shape s (attr_store3 i v s)"
  by (auto simp: attr_store3_def same_shape_def split: option.splits posattr.splits)

lemma same_shape_updateTLEPositions_body: "same_shape s (updateTLEPositions_body lib now gmst s i)"
  by (auto simp: updateTLEPositions_body_def Let_def same_shape_attr_store3
      split: js.splits option.splits)

lemma same_shape_foldl:
  assumes "\<And>s i. same_shape s (body s i)"
  shows "same_shape s (foldl body s xs)"
proof (induction xs arbitrary: s)
  case Nil
  show ?case by simp
next
  case (Cons x xs)
  have "same_shape s (body s x)" by (rule assms)
  moreover have "same_shape (body s x) (foldl body (body s x) xs)" by (rule Cons.IH)
  ultimately have "same_shape s (foldl body (body s x) xs)" by (rule same_shape_trans)
  then show ?case by simp
qed

lemma same_shape_updateTLEPositions:
  "same_shape s (fst (snd (updateTLEPositions satellite clk s)))"
proof -
  have f: "same_shape s (foldl (updateTLEPositions_body lib now gmst) s xs)" for lib :: "('a, 'b) satellite_js" and now gmst xs
    by (rule same_shape_foldl) (rule same_shape_updateTLEPositions_body)
  show ?thesis
    by (simp add: updateTLEPositions_def Let_def f split: option.splits)
qed

lemma same_shape_synth_loop: "same_shape s (snd (synth_loop xs s))"
proof (induction xs arbitrary: s)
  case Nil
  show ?case by simp
next
  case (Cons i rest)
  show ?case
  proof (cases "i < length (syntheticParams s)")
    case True
    define s' where "s' = s\<lparr>syntheticParams := (syntheticParams s)
          [i := (syntheticParams s ! i)\<lparr>phase := phase (syntheticParams s ! i) + speed (syntheticParams s ! i)\<rparr>],
        syntheticPositions := map_option (\<lambda>arr. store3 arr i
          (F32 (altitude (syntheticParams s ! i) * cos (phase (syntheticParams s ! i) + speed (syntheticParams s ! i))),
           F32 (altitude (syntheticParams s ! i) * sin (phase (syntheticParams s ! i) + speed (syntheticParams s ! i))
                * sin (inclination (syntheticParams s ! i))),
           F32 (altitude (syntheticParams s ! i) * sin (phase (syntheticParams s ! i) + speed (syntheticParams s ! i))
                * cos (inclination (syntheticParams s ! i)))))
          (syntheticPositions s)\<rparr>"
    have e: "synth_loop (i # rest) s = synth_loop rest s'"
      using True by (simp add: Let_def s'_def)
    have "same_shape s s'" by (simp add: s'_def)
    moreover have "same_shape s' (snd (synth_loop rest s'))" by (rule Cons.IH)
    ultimately show ?thesis unfolding e by (rule same_shape_trans)
  next
    case False
    then show ?thesis by simp
  qed
qed

lemma same_shape_animateSynthetic: "same_shape s (snd (animateSyntheticSatellites s))"
  by (simp add: animateSyntheticSatellites_def same_shape_synth_loop)

lemma same_shape_advance_interp: "same_shape s (advance_interp clk s)"
  by (simp add: advance_interp_def Let_def)

lemma same_shape_animate: "same_shape s (fst (snd (animate satellite clk s)))"
proof -
  define upd where "upd =
     (if date_ms clk - lastTleUpdate s > tleUpdateInterval then
        (case sgp4Worker s of
           Some w \<Rightarrow> updateTLEPositions satellite clk s
         | None \<Rightarrow> (None, snd (updateTLEPositionsFallback satellite clk s), [CallFallback]))
      else (None, s, []))"
  obtain e s1 acts where u: "upd = (e, s1, acts)" by (cases upd) auto
  have s1: "same_shape s s1"
    using u same_shape_updateTLEPositions[of s satellite clk] same_shape_fallback[of s satellite clk]
    by (auto simp: upd_def split: if_splits option.splits)
  obtain e2 s2 where a: "animateSyntheticSatellites s1 = (e2, s2)"
    by (cases "animateSyntheticSatellites s1") auto
  have s2: "same_shape s s2"
    using same_shape_animateSynthetic[of s1] a s1 by (auto intro: same_shape_trans)
  have s3: "same_shape s (advance_interp clk s2)"
    using s2 same_shape_advance_interp by (blast intro: same_shape_trans)
  have "animate satellite clk s = (case upd of
           (Some e, s1, acts) \<Rightarrow> (Some e, s1, acts)
         | (None, s1, acts) \<Rightarrow>
             (case animateSyntheticSatellites s1 of
                (Some e, s2) \<Rightarrow> (Some e, s2, acts)
              | (None, s2) \<Rightarrow> (None, advance_interp clk s2, acts)))"
    by (simp add: animate_def upd_def)
  then show ?thesis
    using s1 s2 s3 by (cases e; cases e2) (simp_all add: u a)
qed

lemma same_shape_tick: "same_shape s (fst (tleUpdateTimer_tick satellite clk s))"
  by (simp add: tleUpdateTimer_tick_def same_shape_fallback split: option.splits)

lemma same_shape_step: "same_shape s (fst (step satellite ec s))"
proof (cases ec)
  case (Pair ev clk)
  show ?thesis
  proof (cases ev)
    case (WorkerMessage msg)
    then show ?thesis
      using same_shape_onmessage[of s clk msg]
      by (cases "sgp4Worker_onmessage clk msg s") (simp add: step_def Pair)
  next
    case TimerTick
    then show ?thesis by (simp add: step_def Pair same_shape_tick)
  next
    case AnimationFrame
    then show ?thesis
      using same_shape_animate[of s satellite clk]
      by (cases "animate satellite clk s") (simp add: step_def Pair)
  qed
qed

lemma same_shape_run: "same_shape s (fst (run satellite evs s))"
proof (induction evs arbitrary: s)
  case Nil
  show ?case by simp
next
  case (Cons ec rest)
  obtain s1 acts where st: "step satellite ec s = (s1, acts)" by (cases "step satellite ec s") auto
  have "same_shape s s1" using same_shape_step[of s satellite ec] st by simp
  moreover have "same_shape s1 (fst (run satellite rest s1))" by (rule Cons.IH)
  ultimately have "same_shape s (fst (run satellite rest s1))" by (rule same_shape_trans)
  then show ?case
    by (cases "run satellite rest s1") (simp add: st)
qed

lemma buffers_sized_same_shape: "buffers_sized s \<Longrightarrow> same_shape s s' \<Longrightarrow> buffers_sized s'"
  by (auto simp: buffers_sized_def same_shape_def split: option.splits)


section \<open>Allocation and resizing\<close>

lemma seed_body_same:
  "fst (seed_body cnt (b, b) i) = snd (seed_body cnt (b, b) i)
   \<and> length (fst (seed_body cnt (b, b) i)) = length b"
  by (auto simp: seed_body_def Let_def rd_def list_eq_iff_nth_eq nth_list_update)

lemma seed_fold_same:
  "fst (foldl (seed_body cnt) (b, b) xs) = snd (foldl (seed_body cnt) (b, b) xs)
   \<and> length (fst (foldl (seed_body cnt) (b, b) xs)) = length b"
proof (induction xs arbitrary: b)
  case Nil
  show ?case by simp
next
  case (Cons i xs)
  obtain b' where b': "seed_body cnt (b, b) i = (b', b')" and l: "length b' = length b"
    using seed_body_same[of cnt b i] by (cases "seed_body cnt (b, b) i") auto
  show ?case
    using Cons.IH[of b'] by (auto simp: b' l)
qed

lemma seed_buffers_same:
  "fst (seed_buffers cnt) = snd (seed_buffers cnt) \<and> length (fst (seed_buffers cnt)) = 3 * cnt"
  using seed_fold_same[of cnt "new_Float32Array (cnt * 3)" "[0..<cnt]"]
  by (auto simp: seed_buffers_def new_Float32Array_def mult.commute)

lemma updateTLEPositions_no_error:
  "satellite \<noteq> None \<Longrightarrow> fst (updateTLEPositions satellite clk s) = None"
  by (auto simp: updateTLEPositions_def Let_def split: option.splits)

lemma fetchTLES_allocates:
  assumes "tlePoints s0" and "(\<exists>w. mk = Some (Returns w)) \<or> satellite \<noteq> None"
  shows "buffers_sized (fst (snd (fetchTLES (Some txt) mk satellite clk s0)))
    \<and> tleData (fst (snd (fetchTLES (Some txt) mk satellite clk s0))) = parse_tles txt"
proof -
  obtain b where b: "seed_buffers (length (parse_tles txt)) = (b, b)"
    and lb: "length b = 3 * length (parse_tles txt)"
    using seed_buffers_same[of "length (parse_tles txt)"]
    by (cases "seed_buffers (length (parse_tles txt))") auto
  define s3 where "s3 = s0\<lparr>tleData := parse_tles txt, tleCount := length (parse_tles txt),
      prevSatBuffer := Some b, nextSatBuffer := Some b, tlePositionsAttr := Some A_posNext\<rparr>"
  define s4 where "s4 = (if sgp4Worker s3 = None then setupSgp4Worker mk s3 else s3)"
  have sh: "same_shape s3 s4"
    by (simp add: s4_def setupSgp4Worker_def split: option.splits js.splits)
  have sz3: "buffers_sized s3" and d3: "tleData s3 = parse_tles txt"
    by (simp_all add: s3_def buffers_sized_def lb)
  have sz4: "buffers_sized s4" and d4: "tleData s4 = parse_tles txt"
    using sz3 sh d3 by (auto intro: buffers_sized_same_shape simp: same_shape_def)
  have f: "fetchTLES (Some txt) mk satellite clk s0 =
      (case sgp4Worker s4 of
         Some w \<Rightarrow> (None, s4, [PostMessage w (SetTLE (Some (tleData s4))), PostMessage w Update])
       | None \<Rightarrow>
           (case updateTLEPositions satellite clk s4 of
              (None, s5, acts) \<Rightarrow> (None, s5, acts)
            | (Some e, s5, acts) \<Rightarrow>
                (case fetchTLES_catch clk s5 of (e', s') \<Rightarrow> (e', s', acts))))"
    using assms(1)
    by (cases "sgp4Worker s0")
       (simp_all add: fetchTLES_def Let_def b s3_def s4_def cong: option.case_cong)
  show ?thesis
  proof (cases "sgp4Worker s4")
    case (Some w)
    then show ?thesis using sz4 d4 by (simp add: f)
  next
    case None
    then have "satellite \<noteq> None"
      using assms(2) by (auto simp: s4_def setupSgp4Worker_def split: if_splits)
    then have ne: "fst (updateTLEPositions satellite clk s4) = None"
      by (rule updateTLEPositions_no_error)
    obtain s5 acts where u: "updateTLEPositions satellite clk s4 = (None, s5, acts)"
      using ne by (cases "updateTLEPositions satellite clk s4") auto
    have "same_shape s4 s5"
      using same_shape_updateTLEPositions[of s4 satellite clk] u by simp
    then have "buffers_sized s5" "tleData s5 = parse_tles txt"
      using sz4 d4 by (auto intro: buffers_sized_same_shape simp: same_shape_def)
    then show ?thesis by (simp add: f None u)
  qed
qed

lemma install_shorter:
  assumes "prevSatBuffer s = Some p" "nextSatBuffer s = Some n" "tlePoints s"
    "tlePositionsAttr s \<noteq> None" "length p = length n" "length arr < length n"
  shows "fst (sgp4Worker_onmessage clk (Positions arr) s) = None
    \<and> prevSatBuffer (fst (snd (sgp4Worker_onmessage clk (Positions arr) s))) = Some n
    \<and> nextSatBuffer (fst (snd (sgp4Worker_onmessage clk (Positions arr) s)))
        = Some (arr @ drop (length arr) n)"
  using assms
  by (simp add: sgp4Worker_onmessage_def slide_def ta_set_def)

lemma install_longer:
  assumes "prevSatBuffer s = Some p" "nextSatBuffer s = Some n" "tlePoints s"
    "tlePositionsAttr s \<noteq> None" "length p = length n" "length n < length arr"
  shows "fst (sgp4Worker_onmessage clk (Positions arr) s) = Some RangeError
    \<and> prevSatBuffer (fst (snd (sgp4Worker_onmessage clk (Positions arr) s))) = Some n
    \<and> nextSatBuffer (fst (snd (sgp4Worker_onmessage clk (Positions arr) s))) = Some n"
  using assms
  by (simp add: sgp4Worker_onmessage_def slide_def ta_set_def)

text \<open>
  C4, as the code has it. The two buffers are seeded with identical values at length 3N.
  After a fetch whose handler completes (a worker can be created or the library is loaded
  on the main thread), prev and next have length 3 times the collection length, and they
  keep that length, with the same collection, through every later worker message, timer
  tick and frame. An install never reallocates them: a shorter buffer overwrites only the
  leading part of next, and a longer one is rejected with a RangeError after prev has been
  overwritten with next.
\<close>

theorem buffers_keep_their_length:
  assumes "tlePoints s0" and "(\<exists>w. mk = Some (Returns w)) \<or> satellite \<noteq> None"
  shows "fst (seed_buffers cnt) = snd (seed_buffers cnt)
    \<and> length (fst (seed_buffers cnt)) = 3 * cnt
    \<and> buffers_sized (fst (snd (fetchTLES (Some txt) mk satellite clk s0)))
    \<and> tleData (fst (snd (fetchTLES (Some txt) mk satellite clk s0))) = parse_tles txt
    \<and> buffers_sized (fst (run satellite evs (fst (snd (fetchTLES (Some txt) mk satellite clk s0)))))
    \<and> tleData (fst (run satellite evs (fst (snd (fetchTLES (Some txt) mk satellite clk s0)))))
        = parse_tles txt
    \<and> (prevSatBuffer s1 = Some p1 \<and> nextSatBuffer s1 = Some n1 \<and> tlePoints s1
        \<and> tlePositionsAttr s1 \<noteq> None \<and> length p1 = length n1 \<and> length a1 < length n1 \<longrightarrow>
          fst (sgp4Worker_onmessage c1 (Positions a1) s1) = None
          \<and> prevSatBuffer (fst (snd (sgp4Worker_onmessage c1 (Positions a1) s1))) = Some n1
          \<and> nextSatBuffer (fst (snd (sgp4Worker_onmessage c1 (Positions a1) s1)))
              = Some (a1 @ drop (length a1) n1))
    \<and> (prevSatBuffer s2 = Some p2 \<and> nextSatBuffer s2 = Some n2 \<and> tlePoints s2
        \<and> tlePositionsAttr s2 \<noteq> None \<and> length p2 = length n2 \<and> length n2 < length a2 \<longrightarrow>
          fst (sgp4Worker_onmessage c2 (Positions a2) s2) = Some RangeError
          \<and> prevSatBuffer (fst (snd (sgp4Worker_onmessage c2 (Positions a2) s2))) = Some n2
          \<and> nextSatBuffer (fst (snd (sgp4Worker_onmessage c2 (Positions a2) s2))) = Some n2)"
proof -
  let ?s = "fst (snd (fetchTLES (Some txt) mk satellite clk s0))"
  have a: "buffers_sized ?s" "tleData ?s = parse_tles txt"
    using fetchTLES_allocates[OF assms] by simp_all
  have sh: "same_shape ?s (fst (run satellite evs ?s))"
    by (rule same_shape_run)
  have r: "buffers_sized (fst (run satellite evs ?s))" "tleData (fst (run satellite evs ?s)) = parse_tles txt"
    using a sh by (auto intro: buffers_sized_same_shape simp: same_shape_def)
  show ?thesis
    using seed_buffers_same[of cnt] a r install_shorter[of s1 p1 n1 a1 c1]
      install_longer[of s2 p2 n2 a2 c2]
    by blast
qed

theorem buffers_keep_their_length_witness:
  "tlePoints (initial_state\<lparr>tlePoints := True\<rparr>)
   \<and> (\<exists>w. (Some (Returns 1) :: worker_env) = Some (Returns w))
   \<and> fst (seed_buffers 1) = snd (seed_buffers 1)
   \<and> length (fst (seed_buffers 1)) = 3
   \<and> parse_tles (''ISS (ZARYA)\<newline>1 25544U\<newline>2 25544\<newline>'')
       = [\<lparr>name = ''ISS (ZARYA)'', tle1 = Some ''1 25544U'', tle2 = Some ''2 25544''\<rparr>]
   \<and> buffers_sized (fst (snd (fetchTLES
         (Some (''ISS (ZARYA)\<newline>1 25544U\<newline>2 25544\<newline>''))
         (Some (Returns 1)) (Some sample_lib) sample_clock (initial_state\<lparr>tlePoints := True\<rparr>))))
   \<and> buffers_sized (fst (run (Some sample_lib)
         [(WorkerMessage (Positions [F32 7, F32 8, F32 9, F32 7]), sample_clock), (TimerTick, sample_clock)]
         (fst (snd (fetchTLES
           (Some (''ISS (ZARYA)\<newline>1 25544U\<newline>2 25544\<newline>''))
           (Some (Returns 1)) (Some sample_lib) sample_clock (initial_state\<lparr>tlePoints := True\<rparr>))))))
   \<and> prevSatBuffer sample_store2 = Some [F32 1, F32 2, F32 3, F32 4, F32 5, F32 6]
   \<and> nextSatBuffer sample_store2 = Some [F32 1, F32 2, F32 3, F32 4, F32 5, F32 6]
   \<and> tlePoints sample_store2 \<and> tlePositionsAttr sample_store2 \<noteq> None
   \<and> length [F32 7, F32 8] < length [F32 1, F32 2, F32 3, F32 4, F32 5, F32 6]
   \<and> nextSatBuffer (fst (snd (sgp4Worker_onmessage sample_clock (Positions [F32 7, F32 8]) sample_store2)))
       = Some [F32 7, F32 8, F32 3, F32 4, F32 5, F32 6]
   \<and> prevSatBuffer sample_store = Some [F32 1, F32 2, F32 3]
   \<and> nextSatBuffer sample_store = Some [F32 4, F32 5, F32 6]
   \<and> tlePoints sample_store \<and> tlePositionsAttr sample_store \<noteq> None
   \<and> length [F32 4, F32 5, F32 6] < length [F32 7, F32 8, F32 9, F32 7]
   \<and> fst (sgp4Worker_onmessage sample_clock (Positions [F32 7, F32 8, F32 9, F32 7]) sample_store)
       = Some RangeError
   \<and> prevSatBuffer (fst (snd (sgp4Worker_onmessage sample_clock (Positions [F32 7, F32 8, F32 9, F32 7]) sample_store)))
       = Some [F32 4, F32 5, F32 6]
   \<and> nextSatBuffer (fst (snd (sgp4Worker_onmessage sample_clock (Positions [F32 7, F32 8, F32 9, F32 7]) sample_store)))
       = Some [F32 4, F32 5, F32 6]"
proof -
  have h1: "tlePoints (initial_state\<lparr>tlePoints := True\<rparr>)" by simp
  have h2: "(\<exists>w. (Some (Returns 1) :: worker_env) = Some (Returns w)) \<or> Some sample_lib \<noteq> None"
    by simp
  have p: "parse_tles (''ISS (ZARYA)\<newline>1 25544U\<newline>2 25544\<newline>'')
       = [\<lparr>name = ''ISS (ZARYA)'', tle1 = Some ''1 25544U'', tle2 = Some ''2 25544''\<rparr>]"
    by code_simp
  have s2: "prevSatBuffer sample_store2 = Some [F32 1, F32 2, F32 3, F32 4, F32 5, F32 6]"
    "nextSatBuffer sample_store2 = Some [F32 1, F32 2, F32 3, F32 4, F32 5, F32 6]"
    "tlePoints sample_store2" "tlePositionsAttr sample_store2 \<noteq> None"
    by (simp_all add: sample_store2_def initial_state_def)
  have s1: "prevSatBuffer sample_store = Some [F32 1, F32 2, F32 3]"
    "nextSatBuffer sample_store = Some [F32 4, F32 5, F32 6]"
    "tlePoints sample_store" "tlePositionsAttr sample_store \<noteq> None"
    by (simp_all add: sample_store_def initial_state_def)
  show ?thesis
    using buffers_keep_their_length[OF h1 h2, of 1
        "''ISS (ZARYA)\<newline>1 25544U\<newline>2 25544\<newline>''"
        sample_clock
        "[(WorkerMessage (Positions [F32 7, F32 8, F32 9, F32 7]), sample_clock), (TimerTick, sample_clock)]"
        sample_store2 "[F32 1, F32 2, F32 3, F32 4, F32 5, F32 6]" "[F32 1, F32 2, F32 3, F32 4, F32 5, F32 6]"
        "[F32 7, F32 8]" sample_clock
        sample_store "[F32 1, F32 2, F32 3]" "[F32 4, F32 5, F32 6]" "[F32 7, F32 8, F32 9, F32 7]" sample_clock]
    by (auto simp add: p s1 s2 simp del: run.simps One_nat_def)
qed

text \<open>
  The claim as stated fails: installing three scalars into buffers of six leaves both at
  length six, overwrites only the first three scalars of next, and leaves prev and next
  different.
\<close>

theorem install_of_shorter_buffer_is_partial:
  "fst (sgp4Worker_onmessage sample_clock (Positions [F32 7, F32 8, F32 9]) sample_store2) = None
   \<and> prevSatBuffer (fst (snd (sgp4Worker_onmessage sample_clock (Positions [F32 7, F32 8, F32 9]) sample_store2)))
       = Some [F32 1, F32 2, F32 3, F32 4, F32 5, F32 6]
   \<and> nextSatBuffer (fst (snd (sgp4Worker_onmessage sample_clock (Positions [F32 7, F32 8, F32 9]) sample_store2)))
       = Some [F32 7, F32 8, F32 9, F32 4, F32 5, F32 6]"
  by (simp add: sgp4Worker_onmessage_def sample_store2_def initial_state_def slide_def ta_set_def)

section \<open>The blend between two installs\<close>

lemma advance_interp_fields [simp]:
  "tlePoints (advance_interp c s) = tlePoints s"
  "satInterpStart (advance_interp c s) = satInterpStart s"
  by (simp_all add: advance_interp_def Let_def)

lemma blend_reads_eq:
  assumes "tlePoints s" "0 < satInterpStart s"
  shows "blend_reads cs s
    = map (\<lambda>c. min 1 (fl64 (fl64 (perf_s c - satInterpStart s) / satInterpDuration))) cs"
  using assms
proof (induction cs arbitrary: s)
  case Nil
  show ?case by simp
next
  case (Cons c cs)
  have "blend_reads cs (advance_interp c s)
      = map (\<lambda>c. min 1 (fl64 (fl64 (perf_s c - satInterpStart s) / satInterpDuration))) cs"
    using Cons.IH[of "advance_interp c s"] Cons.prems by simp
  moreover have "u_interp (advance_interp c s)
      = min 1 (fl64 (fl64 (perf_s c - satInterpStart s) / satInterpDuration))"
    using Cons.prems by (simp add: advance_interp_def Let_def)
  ultimately show ?case by simp
qed

lemma satInterpDuration_value: "satInterpDuration = 7205759403792794 / 2 ^ 53"
  unfolding satInterpDuration_def by code_simp

lemma satInterpDuration_pos: "0 < satInterpDuration"
  by (simp add: satInterpDuration_value)

lemma blend_mono:
  "a \<le> b \<Longrightarrow> min 1 (fl64 (fl64 (a - t0) / satInterpDuration))
     \<le> min 1 (fl64 (fl64 (b - t0) / satInterpDuration))"
proof -
  assume "a \<le> b"
  then have "fl64 (a - t0) \<le> fl64 (b - t0)" by (intro fl64_mono) simp
  then have "fl64 (a - t0) / satInterpDuration \<le> fl64 (b - t0) / satInterpDuration"
    using satInterpDuration_pos by (intro divide_right_mono) simp_all
  then have "fl64 (fl64 (a - t0) / satInterpDuration) \<le> fl64 (fl64 (b - t0) / satInterpDuration)"
    by (rule fl64_mono)
  then show ?thesis by (simp add: min_def)
qed

lemma blend_nonneg:
  "t0 \<le> a \<Longrightarrow> 0 \<le> fl64 (fl64 (a - t0) / satInterpDuration)"
  using satInterpDuration_pos by (intro fl64_nonneg divide_nonneg_pos) simp_all

text \<open>
  The blend is 1 exactly when the rounded difference of the two clock values is at least
  the duration: a smaller double is at most the duration's predecessor, and the quotient
  then rounds to a double below 1.
\<close>

lemma blend_one_iff:
  assumes "t0 \<le> a"
  shows "min 1 (fl64 (fl64 (a - t0) / satInterpDuration)) = 1
     \<longleftrightarrow> satInterpDuration \<le> fl64 (a - t0)"
proof (cases "satInterpDuration \<le> fl64 (a - t0)")
  case True
  then have "1 \<le> fl64 (a - t0) / satInterpDuration"
    using satInterpDuration_pos by (simp add: field_simps)
  then have "fl64 1 \<le> fl64 (fl64 (a - t0) / satInterpDuration)" by (rule fl64_mono)
  then show ?thesis using True by (simp add: min_def)
next
  case False
  then have lt: "fl64 (a - t0) < of_int 7205759403792794 / 2 ^ 53"
    by (simp add: satInterpDuration_value)
  have "fl64 (a - t0) \<le> (of_int 7205759403792794 - 1) / 2 ^ 53"
    using assms by (intro fl64_below[OF _ lt]) simp_all
  then have "fl64 (a - t0) / satInterpDuration \<le> 7205759403792793 / 7205759403792794"
    by (simp add: satInterpDuration_value field_simps)
  then have "fl64 (fl64 (a - t0) / satInterpDuration) \<le> fl64 (7205759403792793 / 7205759403792794)"
    by (rule fl64_mono)
  also have "fl64 (7205759403792793 / 7205759403792794) = 9007199254740991 / 9007199254740992"
    by code_simp
  finally have "fl64 (fl64 (a - t0) / satInterpDuration) < 1" by simp
  then show ?thesis using False by (simp add: min_def)
qed

lemma sorted_map_mono:
  fixes f :: "real \<Rightarrow> real"
  assumes "\<And>a b. a \<le> b \<Longrightarrow> f a \<le> f b" "sorted xs"
  shows "sorted (map f xs)"
  using assms(2) by (induction xs) (auto intro: assms(1))

text \<open>
  C5, as the code has it. After an install at a positive clock reading (the clock counts
  from the page load), and as long as no other install occurs, the blend values read by
  successive frames, in the order of their clock readings, never decrease, starting from
  the 0 set by the install, and each lies between 0 and 1. A read is exactly 1 if and only
  if the difference of the two clock values in seconds, rounded to a double as the code
  computes it, is at least the duration, the double nearest to 0.8; in particular it is 1
  whenever the clock value is at least the exact sum of the start value and the duration.
\<close>

theorem blend_between_installs:
  assumes "tlePoints s" and "0 < satInterpStart s" and "u_interp s = 0"
    and "sorted (satInterpStart s # map perf_s cs)"
  shows "sorted (u_interp s # blend_reads cs s)
    \<and> list_all (\<lambda>u. 0 \<le> u \<and> u \<le> 1) (blend_reads cs s)
    \<and> list_all2 (\<lambda>c u. (u = 1 \<longleftrightarrow> satInterpDuration \<le> fl64 (perf_s c - satInterpStart s))
                      \<and> (satInterpStart s + satInterpDuration \<le> perf_s c \<longrightarrow> u = 1))
         cs (blend_reads cs s)"
proof -
  let ?f = "\<lambda>t. min 1 (fl64 (fl64 (t - satInterpStart s) / satInterpDuration))"
  have eq: "blend_reads cs s = map ?f (map perf_s cs)"
    using blend_reads_eq[OF assms(1,2)] by (simp add: comp_def)
  have "sorted (map ?f (satInterpStart s # map perf_s cs))"
    by (rule sorted_map_mono[OF _ assms(4)]) (rule blend_mono)
  then have 1: "sorted (u_interp s # blend_reads cs s)"
    by (simp add: eq assms(3) del: sorted_wrt.simps list.map) simp
  have ge: "satInterpStart s \<le> perf_s c" if "c \<in> set cs" for c
    using assms(4) that by auto
  have 2: "list_all (\<lambda>u. 0 \<le> u \<and> u \<le> 1) (blend_reads cs s)"
    using ge blend_nonneg by (auto simp: eq list_all_iff)
  have one: "?f (perf_s c) = 1" if "c \<in> set cs" "satInterpStart s + satInterpDuration \<le> perf_s c" for c
  proof -
    have "satInterpDuration \<le> perf_s c - satInterpStart s" using that(2) by simp
    then have "fl64 satInterpDuration \<le> fl64 (perf_s c - satInterpStart s)" by (rule fl64_mono)
    moreover have "fl64 satInterpDuration = satInterpDuration"
      unfolding satInterpDuration_def by code_simp
    ultimately show ?thesis using blend_one_iff[OF ge[OF that(1)]] by simp
  qed
  have 3: "list_all2 (\<lambda>c u. (u = 1 \<longleftrightarrow> satInterpDuration \<le> fl64 (perf_s c - satInterpStart s))
                      \<and> (satInterpStart s + satInterpDuration \<le> perf_s c \<longrightarrow> u = 1))
         cs (blend_reads cs s)"
    unfolding eq list_all2_conv_all_nth
    using blend_one_iff[OF ge] one by (simp del: min_less_iff_conj min.bounded_iff)
  show ?thesis using 1 2 3 by (intro conjI)
qed

theorem blend_between_installs_witness:
  "tlePoints (sample_store\<lparr>satInterpStart := 2\<rparr>)
   \<and> 0 < satInterpStart (sample_store\<lparr>satInterpStart := 2\<rparr>)
   \<and> u_interp (sample_store\<lparr>satInterpStart := 2\<rparr>) = 0
   \<and> sorted (satInterpStart (sample_store\<lparr>satInterpStart := 2\<rparr>)
        # map perf_s [\<lparr>date_ms = 0, perf_ms = 2000\<rparr>, \<lparr>date_ms = 0, perf_ms = 2400\<rparr>,
                      \<lparr>date_ms = 0, perf_ms = 2801\<rparr>, \<lparr>date_ms = 0, perf_ms = 5000\<rparr>])
   \<and> blend_reads [\<lparr>date_ms = 0, perf_ms = 2000\<rparr>, \<lparr>date_ms = 0, perf_ms = 2400\<rparr>,
                   \<lparr>date_ms = 0, perf_ms = 2801\<rparr>, \<lparr>date_ms = 0, perf_ms = 5000\<rparr>]
        (sample_store\<lparr>satInterpStart := 2\<rparr>)
       = [0, 4503599627370495 / 9007199254740992, 1, 1]
   \<and> satInterpStart (sample_store\<lparr>satInterpStart := 2\<rparr>) + satInterpDuration
        \<le> perf_s \<lparr>date_ms = 0, perf_ms = 5000\<rparr>
   \<and> satInterpDuration \<le> fl64 (perf_s \<lparr>date_ms = 0, perf_ms = 5000\<rparr>
        - satInterpStart (sample_store\<lparr>satInterpStart := 2\<rparr>))
   \<and> sorted (u_interp (sample_store\<lparr>satInterpStart := 2\<rparr>)
        # blend_reads [\<lparr>date_ms = 0, perf_ms = 2000\<rparr>, \<lparr>date_ms = 0, perf_ms = 2400\<rparr>,
                       \<lparr>date_ms = 0, perf_ms = 2801\<rparr>, \<lparr>date_ms = 0, perf_ms = 5000\<rparr>]
            (sample_store\<lparr>satInterpStart := 2\<rparr>))
   \<and> list_all (\<lambda>u. 0 \<le> u \<and> u \<le> 1)
        (blend_reads [\<lparr>date_ms = 0, perf_ms = 2000\<rparr>, \<lparr>date_ms = 0, perf_ms = 2400\<rparr>,
                      \<lparr>date_ms = 0, perf_ms = 2801\<rparr>, \<lparr>date_ms = 0, perf_ms = 5000\<rparr>]
           (sample_store\<lparr>satInterpStart := 2\<rparr>))"
proof -
  let ?S = "sample_store\<lparr>satInterpStart := 2\<rparr>"
  let ?C = "[\<lparr>date_ms = 0, perf_ms = 2000\<rparr>, \<lparr>date_ms = 0, perf_ms = 2400\<rparr>,
             \<lparr>date_ms = 0, perf_ms = 2801\<rparr>, \<lparr>date_ms = 0, perf_ms = 5000\<rparr>]"
  have h: "tlePoints ?S" "0 < satInterpStart ?S" "u_interp ?S = 0"
    by (simp_all add: sample_store_def initial_state_def)
  have h4: "sorted (satInterpStart ?S # map perf_s ?C)"
    by code_simp
  have r: "blend_reads ?C ?S = [0, 4503599627370495 / 9007199254740992, 1, 1]"
    by code_simp
  have d: "satInterpStart ?S + satInterpDuration \<le> perf_s \<lparr>date_ms = 0, perf_ms = 5000\<rparr>"
    "satInterpDuration \<le> fl64 (perf_s \<lparr>date_ms = 0, perf_ms = 5000\<rparr> - satInterpStart ?S)"
    by code_simp+
  from blend_between_installs[OF h h4]
  have "sorted (u_interp ?S # blend_reads ?C ?S) \<and> list_all (\<lambda>u. 0 \<le> u \<and> u \<le> 1) (blend_reads ?C ?S)"
    by (elim conjE) (intro conjI)
  with h h4 r d show ?thesis by (elim conjE) (intro conjI)
qed

text \<open>
  The claim as stated fails at the duration itself. After an install at
  \<^verbatim>\<open>performance.now()\<close> = 2000 ms, the frame at 2800 ms, which is 0.8 s later and whose
  clock value 2.8 equals the start plus the duration as doubles add them, reads
  0.9999999999999998 (one unit in the last place below 1), because 2.8 - 2 rounds to a
  double below the double nearest to 0.8.
\<close>

theorem blend_below_one_at_duration:
  "perf_ms \<lparr>date_ms = 1800, perf_ms = 2800\<rparr> = perf_ms sample_clock + 1000 * (8 / 10)
   \<and> satInterpStart (fst (snd (sgp4Worker_onmessage sample_clock (Positions [F32 7, F32 8, F32 9]) sample_store)))
       = perf_s sample_clock
   \<and> perf_s \<lparr>date_ms = 1800, perf_ms = 2800\<rparr> = fl64 (perf_s sample_clock + satInterpDuration)
   \<and> u_interp (fst (snd (animate (Some sample_lib) \<lparr>date_ms = 1800, perf_ms = 2800\<rparr>
         (fst (snd (sgp4Worker_onmessage sample_clock (Positions [F32 7, F32 8, F32 9]) sample_store))))))
       = 4503599627370495 / 4503599627370496
   \<and> u_interp (fst (snd (animate (Some sample_lib) \<lparr>date_ms = 1800, perf_ms = 2800\<rparr>
         (fst (snd (sgp4Worker_onmessage sample_clock (Positions [F32 7, F32 8, F32 9]) sample_store))))))
       < 1"
proof -
  let ?c = "\<lparr>date_ms = 1800, perf_ms = 2800\<rparr>"
  let ?s1 = "sample_store\<lparr>tleLatestBuffer := Some [F32 7, F32 8, F32 9],
      prevSatBuffer := Some [F32 4, F32 5, F32 6], nextSatBuffer := Some [F32 7, F32 8, F32 9],
      u_interp := 0, satInterpStart := 2, lastTleUpdate := 1000\<rparr>"
  have s1: "fst (snd (sgp4Worker_onmessage sample_clock (Positions [F32 7, F32 8, F32 9]) sample_store)) = ?s1"
    by (simp add: sgp4Worker_onmessage_def sample_store_def initial_state_def slide_same_length)
  have v: "min 1 (fl64 (fl64 (perf_s ?c - 2) / satInterpDuration)) = 4503599627370495 / 4503599627370496"
    by code_simp
  have a: "u_interp (fst (snd (animate (Some sample_lib) ?c ?s1))) = 4503599627370495 / 4503599627370496"
    using v
    by (simp add: animate_def animateSyntheticSatellites_def advance_interp_def tleUpdateInterval_def
        sample_store_def initial_state_def Let_def)
  have p: "perf_s ?c = fl64 (perf_s sample_clock + satInterpDuration)"
    unfolding perf_s_sample_clock by code_simp
  have m: "perf_ms ?c = perf_ms sample_clock + 1000 * (8 / 10)"
    by (simp add: sample_clock_def)
  show ?thesis
    unfolding s1 a using m p by simp
qed

section \<open>After the worker reports that the library is missing\<close>

lemma slide_worker: "sgp4Worker (snd (slide p n arr s)) = sgp4Worker s"
  by (simp add: slide_def split: sum.splits)

lemma onmessage_no_worker:
  assumes "sgp4Worker s = None"
  shows "sgp4Worker (fst (snd (sgp4Worker_onmessage clk msg s))) = None
    \<and> snd (snd (sgp4Worker_onmessage clk msg s)) = []"
proof (cases msg)
  case (Ready b n)
  then show ?thesis using assms by (simp add: sgp4Worker_onmessage_def)
next
  case (Positions arr)
  show ?thesis
  proof (cases "prevSatBuffer s")
    case None
    then show ?thesis using assms by (simp add: Positions sgp4Worker_onmessage_def)
  next
    case (Some p)
    note p = this
    show ?thesis
    proof (cases "nextSatBuffer s")
      case None
      then show ?thesis using assms by (simp add: Positions sgp4Worker_onmessage_def p)
    next
      case (Some n)
      obtain e s2 where sl: "slide p n arr (s\<lparr>tleLatestBuffer := Some arr\<rparr>) = (e, s2)"
        by (cases "slide p n arr (s\<lparr>tleLatestBuffer := Some arr\<rparr>)") auto
      have "sgp4Worker s2 = None"
        using slide_worker[of p n arr "s\<lparr>tleLatestBuffer := Some arr\<rparr>"] sl assms by simp
      then show ?thesis
        using assms by (cases e) (simp_all add: Positions sgp4Worker_onmessage_def p Some sl)
    qed
  qed
qed

lemma fallback_worker:
  "sgp4Worker (snd (updateTLEPositionsFallback satellite clk s)) = sgp4Worker s"
proof (cases "tleData s = [] \<or> satellite = None")
  case True
  then show ?thesis by (auto simp: updateTLEPositionsFallback_def)
next
  case False
  then obtain lib where lib: "satellite = Some lib" and ne: "tleData s \<noteq> []" by auto
  have other: "sgp4Worker
      (snd (case tlePositionsAttr s of
              Some (Position a) \<Rightarrow>
                (case ta_set a arr of
                   Inl e \<Rightarrow> (Some e, s)
                 | Inr a' \<Rightarrow> (None, s\<lparr>tlePositionsAttr := Some (Position a'),
                       tleLatestBuffer := Some arr, lastTleUpdate := date_ms clk\<rparr>))
            | Some A_posNext \<Rightarrow>
                (case nextSatBuffer s of
                   None \<Rightarrow> (Some TypeError, s)
                 | Some n \<Rightarrow>
                     (case ta_set n arr of
                        Inl e \<Rightarrow> (Some e, s)
                      | Inr n' \<Rightarrow> (None, s\<lparr>nextSatBuffer := Some n',
                            tleLatestBuffer := Some arr, lastTleUpdate := date_ms clk\<rparr>)))
            | None \<Rightarrow> (None, s\<lparr>tleLatestBuffer := Some arr, lastTleUpdate := date_ms clk\<rparr>)))
       = sgp4Worker s" for arr
    by (auto split: option.splits posattr.splits sum.splits)
  show ?thesis
  proof (cases "prevSatBuffer s")
    case None
    then show ?thesis
      using other by (simp add: updateTLEPositionsFallback_def lib ne Let_def)
  next
    case (Some p)
    note p = this
    show ?thesis
    proof (cases "nextSatBuffer s")
      case None
      then show ?thesis
        using other by (simp add: updateTLEPositionsFallback_def lib ne Let_def p)
    next
      case (Some n)
      obtain e s1 where sl: "slide p n (fallback_positions lib (date_ms clk) (Some n) (tleData s)) s = (e, s1)"
        by (cases "slide p n (fallback_positions lib (date_ms clk) (Some n) (tleData s)) s") auto
      have "sgp4Worker s1 = sgp4Worker s"
        using slide_worker[of p n "fallback_positions lib (date_ms clk) (Some n) (tleData s)" s] sl
        by simp
      then show ?thesis
        by (cases e) (simp_all add: updateTLEPositionsFallback_def lib ne Let_def p Some sl)
    qed
  qed
qed

lemma synth_loop_worker: "sgp4Worker (snd (synth_loop xs s)) = sgp4Worker s"
proof (induction xs arbitrary: s)
  case Nil
  show ?case by simp
next
  case (Cons i rest)
  show ?case
    by (cases "i < length (syntheticParams s)") (simp_all add: Let_def Cons.IH)
qed

lemma tick_no_worker:
  assumes "sgp4Worker s = None"
  shows "sgp4Worker (fst (tleUpdateTimer_tick satellite clk s)) = None
    \<and> snd (tleUpdateTimer_tick satellite clk s) = [CallFallback]"
  using assms by (simp add: tleUpdateTimer_tick_def fallback_worker)

lemma animate_no_worker:
  assumes "sgp4Worker s = None"
  shows "sgp4Worker (fst (snd (animate satellite clk s))) = None
    \<and> list_all (\<lambda>a. a = CallFallback) (snd (snd (animate satellite clk s)))"
proof -
  define s1 where "s1 = (if date_ms clk - lastTleUpdate s > tleUpdateInterval
      then snd (updateTLEPositionsFallback satellite clk s) else s)"
  define acts where "acts = (if date_ms clk - lastTleUpdate s > tleUpdateInterval
      then [CallFallback] else [])"
  have w1: "sgp4Worker s1 = None"
    using assms by (simp add: s1_def fallback_worker)
  obtain e2 s2 where a: "animateSyntheticSatellites s1 = (e2, s2)"
    by (cases "animateSyntheticSatellites s1") auto
  have w2: "sgp4Worker s2 = None"
    using synth_loop_worker[of "[0..<SYNTHETIC_SAT_COUNT]" s1] a w1
    by (auto simp: animateSyntheticSatellites_def split: if_splits)
  have w3: "sgp4Worker (advance_interp clk s2) = None"
    using w2 by (simp add: advance_interp_def Let_def)
  have "animate satellite clk s =
      (case animateSyntheticSatellites s1 of
         (Some e, s2) \<Rightarrow> (Some e, s2, acts)
       | (None, s2) \<Rightarrow> (None, advance_interp clk s2, acts))"
    using assms
    by (cases "date_ms clk - lastTleUpdate s > tleUpdateInterval")
       (simp_all add: animate_def s1_def acts_def split: prod.splits option.splits)
  then show ?thesis
    using w2 w3 by (cases e2) (simp_all add: a acts_def)
qed

lemma step_no_worker:
  assumes "sgp4Worker s = None"
  shows "sgp4Worker (fst (step satellite ec s)) = None
    \<and> list_all (\<lambda>a. a = CallFallback) (snd (step satellite ec s))
    \<and> (fst ec = TimerTick \<longrightarrow> snd (step satellite ec s) = [CallFallback])"
proof (cases ec)
  case (Pair ev clk)
  show ?thesis
  proof (cases ev)
    case (WorkerMessage msg)
    then show ?thesis
      using onmessage_no_worker[OF assms, of clk msg]
      by (cases "sgp4Worker_onmessage clk msg s") (simp add: step_def Pair)
  next
    case TimerTick
    then show ?thesis
      using tick_no_worker[OF assms, of satellite clk] by (simp add: step_def Pair)
  next
    case AnimationFrame
    then show ?thesis
      using animate_no_worker[OF assms, of satellite clk]
      by (cases "animate satellite clk s") (simp add: step_def Pair)
  qed
qed

lemma run_no_worker:
  assumes "sgp4Worker s = None"
  shows "sgp4Worker (fst (run satellite evs s)) = None
    \<and> list_all (\<lambda>a. a = CallFallback) (concat (snd (run satellite evs s)))
    \<and> list_all2 (\<lambda>ec acts. fst ec = TimerTick \<longrightarrow> acts = [CallFallback]) evs (snd (run satellite evs s))"
  using assms
proof (induction evs arbitrary: s)
  case Nil
  then show ?case by simp
next
  case (Cons ec rest)
  obtain s1 acts where st: "step satellite ec s = (s1, acts)" by (cases "step satellite ec s") auto
  have s1: "sgp4Worker s1 = None" "list_all (\<lambda>a. a = CallFallback) acts"
    "fst ec = TimerTick \<longrightarrow> acts = [CallFallback]"
    using step_no_worker[OF Cons.prems, of satellite ec] st by simp_all
  obtain s2 tr where r: "run satellite rest s1 = (s2, tr)" by (cases "run satellite rest s1") auto
  have "sgp4Worker s2 = None" "list_all (\<lambda>a. a = CallFallback) (concat tr)"
    "list_all2 (\<lambda>ec acts. fst ec = TimerTick \<longrightarrow> acts = [CallFallback]) rest tr"
    using Cons.IH[OF s1(1)] r by simp_all
  then show ?case
    using s1 by (simp add: st r)
qed

text \<open>The state before the \<open>k\<close>-th event, and what that event does to it.\<close>

lemma run_append:
  "run satellite (xs @ ys) s =
     (case run satellite xs s of
        (s1, tr1) \<Rightarrow> (case run satellite ys s1 of (s2, tr2) \<Rightarrow> (s2, tr1 @ tr2)))"
  by (induction xs arbitrary: s) (simp_all split: prod.splits)

lemma length_run: "length (snd (run satellite evs s)) = length evs"
proof (induction evs arbitrary: s)
  case Nil
  show ?case by simp
next
  case (Cons ec rest)
  obtain s1 acts where st: "step satellite ec s = (s1, acts)" by (cases "step satellite ec s") auto
  obtain s2 tr where r: "run satellite rest s1 = (s2, tr)" by (cases "run satellite rest s1") auto
  have "length tr = length rest" using Cons.IH[of s1] r by simp
  then show ?case by (simp add: st r)
qed

lemma run_take_Suc:
  assumes "k < length evs"
  shows "fst (run satellite (take (Suc k) evs) s)
      = fst (step satellite (evs ! k) (fst (run satellite (take k evs) s)))"
    and "snd (run satellite evs s) ! k
      = snd (step satellite (evs ! k) (fst (run satellite (take k evs) s)))"
proof -
  have t: "take (Suc k) evs = take k evs @ [evs ! k]"
    using assms by (rule take_Suc_conv_app_nth)
  show "fst (run satellite (take (Suc k) evs) s)
      = fst (step satellite (evs ! k) (fst (run satellite (take k evs) s)))"
    unfolding t run_append by (simp split: prod.splits)
  have e: "evs = take k evs @ evs ! k # drop (Suc k) evs"
    using assms by (simp add: id_take_nth_drop[symmetric])
  have l: "length (snd (run satellite (take k evs) s)) = k"
    using assms by (simp add: length_run)
  have "snd (run satellite (take k evs @ evs ! k # drop (Suc k) evs) s) ! k
      = snd (step satellite (evs ! k) (fst (run satellite (take k evs) s)))"
    unfolding run_append using l by (auto simp: nth_append split: prod.splits)
  then show "snd (run satellite evs s) ! k
      = snd (step satellite (evs ! k) (fst (run satellite (take k evs) s)))"
    using e by simp
qed

text \<open>
  C6. When the current worker acknowledges readiness with the library missing, the handler
  terminates that instance and clears the worker handle. From then on, through any
  sequence of worker messages, timer ticks and frames, the handle stays empty, every
  action taken is a call of the fallback, and no message is posted to the discarded
  instance. Every timer tick runs the main-thread fallback: the state after the tick is
  the state that \<^verbatim>\<open>updateTLEPositionsFallback\<close> returns for the state before it. Every
  frame whose periodic update is due (more than \<open>tleUpdateInterval\<close> since the last
  update) runs the fallback in the same way before the rest of the frame (the synthetic
  population and the blend), and a frame whose update is not due runs only the rest.
\<close>

theorem missing_library_switches_to_fallback:
  assumes "sgp4Worker s = Some w"
  shows "fst (sgp4Worker_onmessage clk (Ready False n) s) = None
    \<and> snd (snd (sgp4Worker_onmessage clk (Ready False n) s)) = [Terminate w]
    \<and> sgp4Worker (fst (snd (sgp4Worker_onmessage clk (Ready False n) s))) = None
    \<and> sgp4Worker (fst (run satellite evs (fst (snd (sgp4Worker_onmessage clk (Ready False n) s))))) = None
    \<and> list_all2 (\<lambda>ec acts. fst ec = TimerTick \<longrightarrow> acts = [CallFallback]) evs
         (snd (run satellite evs (fst (snd (sgp4Worker_onmessage clk (Ready False n) s)))))
    \<and> list_all (\<lambda>a. a = CallFallback)
         (concat (snd (run satellite evs (fst (snd (sgp4Worker_onmessage clk (Ready False n) s))))))
    \<and> (\<forall>m. PostMessage w m \<notin>
         set (concat (snd (run satellite evs (fst (snd (sgp4Worker_onmessage clk (Ready False n) s)))))))
    \<and> (\<forall>k < length evs.
          let s0 = fst (snd (sgp4Worker_onmessage clk (Ready False n) s));
              before = fst (run satellite (take k evs) s0);
              after = fst (run satellite (take (Suc k) evs) s0);
              acts = snd (run satellite evs s0) ! k;
              c = snd (evs ! k);
              rest = (\<lambda>s1. case animateSyntheticSatellites s1 of
                               (Some e, s2) \<Rightarrow> s2
                             | (None, s2) \<Rightarrow> advance_interp c s2)
          in case fst (evs ! k) of
               TimerTick \<Rightarrow>
                 after = snd (updateTLEPositionsFallback satellite c before)
                 \<and> acts = [CallFallback]
             | AnimationFrame \<Rightarrow>
                 if date_ms c - lastTleUpdate before > tleUpdateInterval
                 then after = rest (snd (updateTLEPositionsFallback satellite c before))
                      \<and> acts = [CallFallback]
                 else after = rest before \<and> acts = []
             | WorkerMessage msg \<Rightarrow>
                 after = fst (snd (sgp4Worker_onmessage c msg before)) \<and> acts = [])"
proof -
  let ?s' = "fst (snd (sgp4Worker_onmessage clk (Ready False n) s))"
  have a: "fst (sgp4Worker_onmessage clk (Ready False n) s) = None"
    "snd (snd (sgp4Worker_onmessage clk (Ready False n) s)) = [Terminate w]"
    "sgp4Worker ?s' = None"
    using assms by (simp_all add: sgp4Worker_onmessage_def)
  note r = run_no_worker[OF a(3), of satellite evs]
  have p: "\<forall>m. PostMessage w m \<notin> set (concat (snd (run satellite evs ?s')))"
    using r by (auto simp: list_all_iff)
  have st: "(case fst (evs ! k) of
               TimerTick \<Rightarrow>
                 fst (run satellite (take (Suc k) evs) ?s')
                   = snd (updateTLEPositionsFallback satellite (snd (evs ! k))
                       (fst (run satellite (take k evs) ?s')))
                 \<and> snd (run satellite evs ?s') ! k = [CallFallback]
             | AnimationFrame \<Rightarrow>
                 if date_ms (snd (evs ! k)) - lastTleUpdate (fst (run satellite (take k evs) ?s'))
                      > tleUpdateInterval
                 then fst (run satellite (take (Suc k) evs) ?s')
                        = (case animateSyntheticSatellites
                                  (snd (updateTLEPositionsFallback satellite (snd (evs ! k))
                                     (fst (run satellite (take k evs) ?s')))) of
                             (Some e, s2) \<Rightarrow> s2
                           | (None, s2) \<Rightarrow> advance_interp (snd (evs ! k)) s2)
                      \<and> snd (run satellite evs ?s') ! k = [CallFallback]
                 else fst (run satellite (take (Suc k) evs) ?s')
                        = (case animateSyntheticSatellites (fst (run satellite (take k evs) ?s')) of
                             (Some e, s2) \<Rightarrow> s2
                           | (None, s2) \<Rightarrow> advance_interp (snd (evs ! k)) s2)
                      \<and> snd (run satellite evs ?s') ! k = []
             | WorkerMessage msg \<Rightarrow>
                 fst (run satellite (take (Suc k) evs) ?s')
                   = fst (snd (sgp4Worker_onmessage (snd (evs ! k)) msg
                       (fst (run satellite (take k evs) ?s'))))
                 \<and> snd (run satellite evs ?s') ! k = [])"
    if k: "k < length evs" for k
  proof -
    let ?b = "fst (run satellite (take k evs) ?s')"
    obtain ev c where ec: "evs ! k = (ev, c)" by (cases "evs ! k") auto
    have w: "sgp4Worker ?b = None"
      using run_no_worker[OF a(3), of satellite "take k evs"] by simp
    note t = run_take_Suc[OF k, of satellite ?s', unfolded ec]
    show ?thesis
    proof (cases ev)
      case (WorkerMessage msg)
      have "snd (snd (sgp4Worker_onmessage c msg ?b)) = []"
        using onmessage_no_worker[OF w, of c msg] by simp
      then show ?thesis
        unfolding t ec
        by (cases "sgp4Worker_onmessage c msg ?b") (simp add: WorkerMessage step_def)
    next
      case TimerTick
      show ?thesis
        unfolding t ec using w by (simp add: TimerTick step_def tleUpdateTimer_tick_def)
    next
      case AnimationFrame
      show ?thesis
        unfolding t ec using w
        by (simp add: AnimationFrame step_def animate_def split: prod.splits option.splits)
    qed
  qed
  show ?thesis
    unfolding Let_def using a r p st by (intro conjI allI impI) simp_all
qed

theorem missing_library_switches_to_fallback_witness:
  "sgp4Worker (sample_store\<lparr>sgp4Worker := Some 7\<rparr>) = Some 7
   \<and> snd (snd (sgp4Worker_onmessage sample_clock (Ready False 1) (sample_store\<lparr>sgp4Worker := Some 7\<rparr>)))
       = [Terminate 7]
   \<and> sgp4Worker (fst (snd (sgp4Worker_onmessage sample_clock (Ready False 1)
         (sample_store\<lparr>sgp4Worker := Some 7\<rparr>)))) = None
   \<and> snd (run (Some sample_lib) [(TimerTick, sample_clock), (TimerTick, sample_clock)]
         (fst (snd (sgp4Worker_onmessage sample_clock (Ready False 1)
            (sample_store\<lparr>sgp4Worker := Some 7\<rparr>)))))
       = [[CallFallback], [CallFallback]]
   \<and> sgp4Worker (fst (run (Some sample_lib) [(TimerTick, sample_clock), (TimerTick, sample_clock)]
         (fst (snd (sgp4Worker_onmessage sample_clock (Ready False 1)
            (sample_store\<lparr>sgp4Worker := Some 7\<rparr>)))))) = None
   \<and> PostMessage 7 Update \<notin> set (concat (snd (run (Some sample_lib)
         [(TimerTick, sample_clock), (TimerTick, sample_clock)]
         (fst (snd (sgp4Worker_onmessage sample_clock (Ready False 1)
            (sample_store\<lparr>sgp4Worker := Some 7\<rparr>)))))))
   \<and> (0::nat) < length [(TimerTick, sample_clock), (TimerTick, sample_clock)]
   \<and> fst (run (Some sample_lib) (take (Suc 0) [(TimerTick, sample_clock), (TimerTick, sample_clock)])
         (fst (snd (sgp4Worker_onmessage sample_clock (Ready False 1)
            (sample_store\<lparr>sgp4Worker := Some 7\<rparr>)))))
       = snd (updateTLEPositionsFallback (Some sample_lib) sample_clock sample_store)
   \<and> snd (updateTLEPositionsFallback (Some sample_lib) sample_clock sample_store)
       = sample_store\<lparr>prevSatBuffer := Some [F32 4, F32 5, F32 6],
           nextSatBuffer := Some [F32 4, F32 5, F32 6], u_interp := 0, satInterpStart := 2,
           tleLatestBuffer := Some [F32 4, F32 5, F32 6], lastTleUpdate := 1000\<rparr>"
proof -
  let ?S = "sample_store\<lparr>sgp4Worker := Some 7\<rparr>"
  let ?S' = "fst (snd (sgp4Worker_onmessage sample_clock (Ready False 1) ?S))"
  let ?E = "[(TimerTick, sample_clock), (TimerTick, sample_clock)]"
  have h: "sgp4Worker ?S = Some 7" by simp
  have w: "sgp4Worker ?S' = None" by (simp add: sgp4Worker_onmessage_def)
  have s': "?S' = sample_store"
    by (simp add: sgp4Worker_onmessage_def sample_store_def initial_state_def)
  have t: "snd (run (Some sample_lib) ?E ?S') = [[CallFallback], [CallFallback]]"
    using w by (simp add: step_def tleUpdateTimer_tick_def fallback_worker split: prod.splits)
  have k: "(0::nat) < length ?E" by simp
  have arr: "fallback_positions sample_lib 1000 (Some [F32 4, F32 5, F32 6])
             [\<lparr>name = ''A'', tle1 = Some ''bad'', tle2 = Some ''2''\<rparr>] = [F32 4, F32 5, F32 6]"
    by (simp add: fallback_positions_def fallback_body_def sample_lib_def
        falsy_def store3_def rd_def new_Float32Array_def numeral_3_eq_3)
  have f: "snd (updateTLEPositionsFallback (Some sample_lib) sample_clock sample_store)
       = sample_store\<lparr>prevSatBuffer := Some [F32 4, F32 5, F32 6],
           nextSatBuffer := Some [F32 4, F32 5, F32 6], u_interp := 0, satInterpStart := 2,
           tleLatestBuffer := Some [F32 4, F32 5, F32 6], lastTleUpdate := 1000\<rparr>"
    by (simp add: updateTLEPositionsFallback_def sample_store_def initial_state_def arr
        slide_same_length Let_def)
  note m = missing_library_switches_to_fallback[OF h, of sample_clock 1 "Some sample_lib" ?E]
  have m1: "snd (snd (sgp4Worker_onmessage sample_clock (Ready False 1) ?S)) = [Terminate 7]"
    and m2: "sgp4Worker (fst (run (Some sample_lib) ?E ?S')) = None"
    and m3: "PostMessage 7 Update \<notin> set (concat (snd (run (Some sample_lib) ?E ?S')))"
    using m by blast+
  have "\<forall>k < length ?E.
          let s0 = ?S';
              before = fst (run (Some sample_lib) (take k ?E) s0);
              after = fst (run (Some sample_lib) (take (Suc k) ?E) s0);
              acts = snd (run (Some sample_lib) ?E s0) ! k;
              c = snd (?E ! k);
              rest = (\<lambda>s1. case animateSyntheticSatellites s1 of
                               (Some e, s2) \<Rightarrow> s2
                             | (None, s2) \<Rightarrow> advance_interp c s2)
          in case fst (?E ! k) of
               TimerTick \<Rightarrow>
                 after = snd (updateTLEPositionsFallback (Some sample_lib) c before)
                 \<and> acts = [CallFallback]
             | AnimationFrame \<Rightarrow>
                 if date_ms c - lastTleUpdate before > tleUpdateInterval
                 then after = rest (snd (updateTLEPositionsFallback (Some sample_lib) c before))
                      \<and> acts = [CallFallback]
                 else after = rest before \<and> acts = []
             | WorkerMessage msg \<Rightarrow>
                 after = fst (snd (sgp4Worker_onmessage c msg before)) \<and> acts = []"
    using m by (elim conjE)
  from this[rule_format, OF k]
  have m4: "fst (run (Some sample_lib) (take (Suc 0) ?E) ?S')
       = snd (updateTLEPositionsFallback (Some sample_lib) sample_clock sample_store)"
    by (simp add: Let_def s' del: One_nat_def)
  show ?thesis
    using h w t k m1 m2 m3 m4 f by (intro conjI)
qed

section \<open>Parsing the element-set text\<close>

lemma split_nl_nonempty [simp]: "split_nl doc \<noteq> []"
  by (induction doc) (auto split: list.splits)

lemma split_nl_append:
  "split_nl (a @ b) = butlast (split_nl a) @ [last (split_nl a) @ hd (split_nl b)] @ tl (split_nl b)"
proof (induction a)
  case Nil
  show ?case by simp
next
  case (Cons c cs)
  show ?case
  proof (cases "c = CHR 0x0A")
    case True
    then show ?thesis using Cons.IH by simp
  next
    case False
    obtain l ls where s: "split_nl cs = l # ls"
      by (cases "split_nl cs") auto
    show ?thesis
    proof (cases ls)
      case Nil
      then show ?thesis using False s Cons.IH by simp
    next
      case (Cons l' ls')
      then show ?thesis using False s Cons.IH by simp
    qed
  qed
qed

lemma split_nl_spaces: "list_all is_space ws \<Longrightarrow> list_all (list_all is_space) (split_nl ws)"
  by (induction ws) (auto split: list.splits)

lemma trim_spaces:
  assumes "list_all is_space l"
  shows "trim l = []"
proof -
  have "dropWhile is_space l = []"
    using assms by (induction l) simp_all
  then show ?thesis by (simp only: trim_def rev.simps dropWhile.simps)
qed

lemma trim_append_spaces:
  assumes "list_all is_space w"
  shows "trim (l @ w) = trim l"
proof (cases "list_all is_space l")
  case True
  then have "list_all is_space (l @ w)" using assms by simp
  then show ?thesis using True by (simp add: trim_spaces)
next
  case False
  then obtain x where x: "x \<in> set l" "\<not> is_space x" by (auto simp: list_all_iff)
  then have d: "dropWhile is_space (l @ w) = dropWhile is_space l @ w"
    by (simp add: dropWhile_append1)
  have "dropWhile is_space (rev w @ rev (dropWhile is_space l))
      = dropWhile is_space (rev (dropWhile is_space l))"
    using assms by (intro dropWhile_append2) (simp add: list_all_iff)
  then show ?thesis by (simp add: trim_def d)
qed

lemma lines_append_spaces:
  assumes "list_all is_space ws"
  shows "filter (\<lambda>l. l \<noteq> []) (map trim (split_nl (doc @ ws)))
       = filter (\<lambda>l. l \<noteq> []) (map trim (split_nl doc))"
proof -
  have sp: "list_all (list_all is_space) (split_nl ws)"
    using assms by (rule split_nl_spaces)
  obtain w0 W where w: "split_nl ws = w0 # W" by (cases "split_nl ws") auto
  have w0: "list_all is_space w0" and W: "list_all (list_all is_space) W"
    using sp w by simp_all
  have "filter (\<lambda>l. l \<noteq> []) (map trim W) = []"
    using W by (induction W) (simp_all add: trim_spaces)
  then have L: "filter (\<lambda>l. l \<noteq> []) (map trim (split_nl (doc @ ws)))
      = filter (\<lambda>l. l \<noteq> []) (map trim (butlast (split_nl doc)))
        @ filter (\<lambda>l. l \<noteq> []) [trim (last (split_nl doc))]"
    by (simp add: split_nl_append[of doc ws] w trim_append_spaces[OF w0])
  have A: "split_nl doc = butlast (split_nl doc) @ [last (split_nl doc)]"
    by simp
  have R: "filter (\<lambda>l. l \<noteq> []) (map trim (split_nl doc))
      = filter (\<lambda>l. l \<noteq> []) (map trim (butlast (split_nl doc)))
        @ filter (\<lambda>l. l \<noteq> []) [trim (last (split_nl doc))]"
    by (subst A) (simp only: map_append filter_append list.map)
  show ?thesis
    unfolding L R ..
qed

lemma fetch_loop_triplets:
  assumes "\<forall>l \<in> set lines. l \<noteq> []"
  shows "fetch_loop lines i acc = acc @ triplets (drop i lines)"
  using assms
proof (induction lines i acc rule: fetch_loop.induct)
  case (1 lines i acc)
  show ?case
  proof (cases "i < length lines")
    case False
    then show ?thesis by (simp add: fetch_loop.simps[of lines i acc])
  next
    case True
    note i = this
    show ?thesis
    proof (cases "i + 2 < length lines")
      case False
      then have "length (drop i lines) < 3" by simp
      then have t: "triplets (drop i lines) = []"
        by (cases "drop i lines" rule: triplets.cases) simp_all
      have "falsy (line_at lines (i + 1)) \<or> falsy (line_at lines (i + 2))"
        using False by (simp add: line_at_def falsy_def)
      then show ?thesis
        using i by (simp add: fetch_loop.simps[of lines i acc] t Let_def)
    next
      case True
      have ne: "lines ! (i + 1) \<noteq> []" "lines ! (i + 2) \<noteq> []"
        using True "1.prems" by (simp_all add: nth_mem)
      have nf: "\<not> (falsy (line_at lines (i + 1)) \<or> falsy (line_at lines (i + 2)))"
        using True ne by (simp add: line_at_def falsy_def)
      have d: "drop i lines = lines ! i # lines ! (i + 1) # lines ! (i + 2) # drop (i + 3) lines"
      proof -
        have "drop i lines = lines ! i # drop (Suc i) lines"
          using i by (simp add: Cons_nth_drop_Suc)
        also have "drop (Suc i) lines = lines ! Suc i # drop (Suc (Suc i)) lines"
          using True by (simp add: Cons_nth_drop_Suc)
        also have "drop (Suc (Suc i)) lines = lines ! Suc (Suc i) # drop (Suc (Suc (Suc i))) lines"
          using True by (simp add: Cons_nth_drop_Suc)
        finally show ?thesis by (simp add: numeral_3_eq_3)
      qed
      have "fetch_loop lines i acc = fetch_loop lines (i + 3)
          (acc @ [\<lparr>name = lines ! i, tle1 = line_at lines (i + 1), tle2 = line_at lines (i + 2)\<rparr>])"
        using i nf by (simp add: fetch_loop.simps[of lines i acc] Let_def)
      also have "\<dots> = (acc @ [\<lparr>name = lines ! i, tle1 = line_at lines (i + 1), tle2 = line_at lines (i + 2)\<rparr>])
          @ triplets (drop (i + 3) lines)"
        using "1.IH"[OF i refl refl refl nf] "1.prems" by simp
      also have "\<dots> = acc @ triplets (drop i lines)"
        using True by (simp add: d line_at_def)
      finally show ?thesis .
    qed
  qed
qed

lemma length_triplets: "length (triplets ls) = length ls div 3"
  by (induction ls rule: triplets.induct) simp_all

lemma triplets_lines_present:
  "\<forall>l \<in> set ls. l \<noteq> [] \<Longrightarrow> list_all (\<lambda>t. \<not> falsy (tle1 t) \<and> \<not> falsy (tle2 t)) (triplets ls)"
  by (induction ls rule: triplets.induct) (simp_all add: falsy_def)

text \<open>
  C8. The parser's result is the non-blank trimmed lines of the text taken three at a time,
  in order, as name, line1 and line2, up to the first incomplete group: one entry for each
  complete group. Every entry has a non-empty line1 and line2. White space and blank lines
  after the text do not change the result.
\<close>

theorem parse_tles_triplets:
  "parse_tles doc = triplets (filter (\<lambda>l. l \<noteq> []) (map trim (split_nl doc)))
   \<and> length (parse_tles doc) = length (filter (\<lambda>l. l \<noteq> []) (map trim (split_nl doc))) div 3
   \<and> list_all (\<lambda>t. \<not> falsy (tle1 t) \<and> \<not> falsy (tle2 t)) (parse_tles doc)
   \<and> (list_all is_space ws \<longrightarrow> parse_tles (doc @ ws) = parse_tles doc)"
proof -
  have p: "parse_tles t = triplets (filter (\<lambda>l. l \<noteq> []) (map trim (split_nl t)))" for t
    using fetch_loop_triplets[of "filter (\<lambda>l. l \<noteq> []) (map trim (split_nl t))" 0 "[]"]
    by (simp add: parse_tles_def Let_def)
  have n: "list_all (\<lambda>t. \<not> falsy (tle1 t) \<and> \<not> falsy (tle2 t)) (parse_tles doc)"
    unfolding p by (rule triplets_lines_present) simp
  have l: "length (parse_tles doc) = length (filter (\<lambda>l. l \<noteq> []) (map trim (split_nl doc))) div 3"
    unfolding p by (rule length_triplets)
  have w: "list_all is_space ws \<longrightarrow> parse_tles (doc @ ws) = parse_tles doc"
  proof
    assume "list_all is_space ws"
    then show "parse_tles (doc @ ws) = parse_tles doc"
      unfolding p by (simp only: lines_append_spaces)
  qed
  show ?thesis
    using p[of doc] n l w by (intro conjI)
qed

theorem parse_tles_triplets_witness:
  "list_all is_space ''\<newline> \<newline>''
   \<and> parse_tles ''ISS\<newline> 1 A \<newline>2 B\<newline>\<newline>NEXT\<newline>1 C''
       = [\<lparr>name = ''ISS'', tle1 = Some ''1 A'', tle2 = Some ''2 B''\<rparr>]
   \<and> parse_tles (''ISS\<newline> 1 A \<newline>2 B\<newline>\<newline>NEXT\<newline>1 C'' @ ''\<newline> \<newline>'')
       = parse_tles ''ISS\<newline> 1 A \<newline>2 B\<newline>\<newline>NEXT\<newline>1 C''"
proof -
  have h: "list_all is_space ''\<newline> \<newline>''" by (simp add: is_space_def)
  have e: "parse_tles ''ISS\<newline> 1 A \<newline>2 B\<newline>\<newline>NEXT\<newline>1 C''
       = [\<lparr>name = ''ISS'', tle1 = Some ''1 A'', tle2 = Some ''2 B''\<rparr>]"
    by code_simp
  have "list_all is_space ''\<newline> \<newline>'' \<longrightarrow>
      parse_tles (''ISS\<newline> 1 A \<newline>2 B\<newline>\<newline>NEXT\<newline>1 C'' @ ''\<newline> \<newline>'')
       = parse_tles ''ISS\<newline> 1 A \<newline>2 B\<newline>\<newline>NEXT\<newline>1 C''"
    using parse_tles_triplets[of "''ISS\<newline> 1 A \<newline>2 B\<newline>\<newline>NEXT\<newline>1 C''" "''\<newline> \<newline>''"]
    by (elim conjE)
  then have c: "parse_tles (''ISS\<newline> 1 A \<newline>2 B\<newline>\<newline>NEXT\<newline>1 C'' @ ''\<newline> \<newline>'')
       = parse_tles ''ISS\<newline> 1 A \<newline>2 B\<newline>\<newline>NEXT\<newline>1 C''"
    using h by (rule mp)
  show ?thesis
    using h e c by (intro conjI)
qed

section \<open>The synthetic population\<close>

lemma synth_loop_step:
  assumes "i < length (syntheticParams s)"
  shows "synth_loop (i # rest) s =
     synth_loop rest
       (s\<lparr>syntheticParams := (syntheticParams s)[i := advance_phase (syntheticParams s ! i)],
          syntheticPositions :=
            map_option (\<lambda>arr. store3 arr i (orbit_position (advance_phase (syntheticParams s ! i))))
              (syntheticPositions s)\<rparr>)"
  using assms by (simp add: Let_def advance_phase_def orbit_position_def)

lemma synth_loop_result:
  assumes "distinct xs" and "\<forall>i \<in> set xs. i < length (syntheticParams s)"
    and "syntheticPositions s = Some arr" and "\<forall>i \<in> set xs. i * 3 + 2 < length arr"
  shows "\<exists>s' arr'. synth_loop xs s = (None, s')
     \<and> length (syntheticParams s') = length (syntheticParams s)
     \<and> syntheticPositions s' = Some arr' \<and> length arr' = length arr
     \<and> (\<forall>i. syntheticParams s' ! i =
            (if i \<in> set xs then advance_phase (syntheticParams s ! i) else syntheticParams s ! i))
     \<and> (\<forall>i. slot arr' i =
            (if i \<in> set xs then orbit_position (advance_phase (syntheticParams s ! i)) else slot arr i))"
  using assms
proof (induction xs arbitrary: s arr)
  case Nil
  then show ?case by simp
next
  case (Cons j rest)
  let ?p = "advance_phase (syntheticParams s ! j)"
  let ?s1 = "s\<lparr>syntheticParams := (syntheticParams s)[j := ?p],
          syntheticPositions := map_option (\<lambda>arr. store3 arr j (orbit_position ?p)) (syntheticPositions s)\<rparr>"
  have j: "j < length (syntheticParams s)" "j * 3 + 2 < length arr" "j \<notin> set rest"
    using Cons.prems by simp_all
  have st: "synth_loop (j # rest) s = synth_loop rest ?s1"
    by (rule synth_loop_step[OF j(1)])
  have p1: "syntheticPositions ?s1 = Some (store3 arr j (orbit_position ?p))"
    using Cons.prems(3) by simp
  obtain s' arr' where r: "synth_loop rest ?s1 = (None, s')"
    "length (syntheticParams s') = length (syntheticParams ?s1)"
    "syntheticPositions s' = Some arr'" "length arr' = length (store3 arr j (orbit_position ?p))"
    "\<forall>i. syntheticParams s' ! i =
        (if i \<in> set rest then advance_phase (syntheticParams ?s1 ! i) else syntheticParams ?s1 ! i)"
    "\<forall>i. slot arr' i =
        (if i \<in> set rest then orbit_position (advance_phase (syntheticParams ?s1 ! i))
         else slot (store3 arr j (orbit_position ?p)) i)"
    using Cons.IH[of ?s1 "store3 arr j (orbit_position ?p)"] Cons.prems p1
    by auto
  have pa: "syntheticParams s' ! i =
      (if i \<in> set (j # rest) then advance_phase (syntheticParams s ! i) else syntheticParams s ! i)" for i
    using r(5) j by (auto simp: nth_list_update)
  have sl: "slot arr' i =
      (if i \<in> set (j # rest) then orbit_position (advance_phase (syntheticParams s ! i)) else slot arr i)" for i
    using r(6) j by (auto simp: nth_list_update slot_store3_same slot_store3_other)
  show ?case
    using r(1-4) pa sl unfolding st by auto
qed


lemma attr_store3_other_fields [simp]:
  "syntheticParams (attr_store3 i v s) = syntheticParams s"
  "syntheticPositions (attr_store3 i v s) = syntheticPositions s"
  "tleData (attr_store3 i v s) = tleData s"
  by (simp_all add: attr_store3_def split: option.splits posattr.splits)

lemma placeholder_fold_fields:
  "syntheticParams (foldl placeholder_body s xs) = syntheticParams s
   \<and> syntheticPositions (foldl placeholder_body s xs) = syntheticPositions s
   \<and> tleData (foldl placeholder_body s xs) = tleData s"
  by (induction xs arbitrary: s) (simp_all add: placeholder_body_def Let_def)

lemma fetch_failure_state:
  assumes "tlePoints s"
  shows "fst (fetchTLES None mk satellite clk s) = None
    \<and> syntheticParams (fst (snd (fetchTLES None mk satellite clk s))) = syntheticParams s
    \<and> syntheticPositions (fst (snd (fetchTLES None mk satellite clk s))) = syntheticPositions s
    \<and> tleData (fst (snd (fetchTLES None mk satellite clk s)))
        = map (\<lambda>i. \<lparr>name = ''SYNTH-'' @ decimal i, tle1 = Some [], tle2 = Some []\<rparr>) [0..<12]"
  using assms
  by (simp add: fetchTLES_def fetchTLES_catch_def Let_def placeholder_fold_fields del: upt.simps decimal.simps)

text \<open>
  The four parameters as functions of the draw: each is monotone in the draw, and a draw
  (a double below 1) is at most \<open>1 - 2^-53\<close>.
\<close>

lemma draw_le_max:
  assumes "fl64 r = r" "0 \<le> r" "r < 1"
  shows "r \<le> 9007199254740991 / 9007199254740992"
proof -
  have "fl64 r < of_int (2 ^ 53) / 2 ^ 53" using assms(1,3) by simp
  then have "fl64 r \<le> (of_int (2 ^ 53) - 1) / 2 ^ 53"
    by (rule fl64_below[OF assms(2)]) simp_all
  then show ?thesis using assms(1) by simp
qed

lemma altitude_mono:
  "r \<le> r' \<Longrightarrow> fl64 (fl64 1.05 + fl64 (r * fl64 0.5)) \<le> fl64 (fl64 1.05 + fl64 (r' * fl64 0.5))"
proof -
  assume "r \<le> r'"
  moreover have "0 \<le> fl64 0.5" by (rule fl64_nonneg) simp
  ultimately have "r * fl64 0.5 \<le> r' * fl64 0.5" by (rule mult_right_mono)
  then have "fl64 (r * fl64 0.5) \<le> fl64 (r' * fl64 0.5)" by (rule fl64_mono)
  then show ?thesis by (intro fl64_mono) simp
qed

lemma speed_mono:
  "r \<le> r' \<Longrightarrow> fl64 (fl64 0.002 + fl64 (r * fl64 0.01)) \<le> fl64 (fl64 0.002 + fl64 (r' * fl64 0.01))"
proof -
  assume "r \<le> r'"
  moreover have "0 \<le> fl64 0.01" by (rule fl64_nonneg) simp
  ultimately have "r * fl64 0.01 \<le> r' * fl64 0.01" by (rule mult_right_mono)
  then have "fl64 (r * fl64 0.01) \<le> fl64 (r' * fl64 0.01)" by (rule fl64_mono)
  then show ?thesis by (intro fl64_mono) simp
qed

lemma Math_PI_pos: "0 < Math_PI"
  by (simp add: Math_PI_def)

lemma inclination_mono: "r \<le> r' \<Longrightarrow> fl64 (r * Math_PI) \<le> fl64 (r' * Math_PI)"
  using Math_PI_pos by (intro fl64_mono mult_right_mono) simp_all

lemma phase_mono: "r \<le> r' \<Longrightarrow> fl64 (fl64 (r * Math_PI) * 2) \<le> fl64 (fl64 (r' * Math_PI) * 2)"
  using inclination_mono[of r r'] by (intro fl64_mono) simp

lemma created_params_in_range:
  assumes "\<forall>k. fl64 (rnd k) = rnd k \<and> 0 \<le> rnd k \<and> rnd k < 1"
  shows "list_all (\<lambda>p. fl64 1.05 \<le> altitude p \<and> altitude p \<le> fl64 1.55
                    \<and> fl64 0.002 \<le> speed p \<and> speed p < 0.012
                    \<and> 0 \<le> phase p \<and> phase p < 2 * Math_PI
                    \<and> 0 \<le> inclination p \<and> inclination p < Math_PI)
           (syntheticParams (createSatellites rnd s))"
proof -
  have r: "0 \<le> rnd k" "rnd k \<le> 9007199254740991 / 9007199254740992" for k
    using assms draw_le_max[of "rnd k"] by simp_all
  have a0: "fl64 (fl64 1.05 + fl64 (0 * fl64 0.5)) = fl64 1.05"
    and a1: "fl64 (fl64 1.05 + fl64 (9007199254740991 / 9007199254740992 * fl64 0.5)) = fl64 1.55"
    and s0: "fl64 (fl64 0.002 + fl64 (0 * fl64 0.01)) = fl64 0.002"
    and s1: "fl64 (fl64 0.002 + fl64 (9007199254740991 / 9007199254740992 * fl64 0.01)) < 0.012"
    and p0: "fl64 (fl64 (0 * Math_PI) * 2) = 0"
    and p1: "fl64 (fl64 (9007199254740991 / 9007199254740992 * Math_PI) * 2) < 2 * Math_PI"
    and i0: "fl64 (0 * Math_PI) = 0"
    and i1: "fl64 (9007199254740991 / 9007199254740992 * Math_PI) < Math_PI"
    by code_simp+
  have alt: "fl64 1.05 \<le> fl64 (fl64 1.05 + fl64 (rnd k * fl64 0.5))"
    "fl64 (fl64 1.05 + fl64 (rnd k * fl64 0.5)) \<le> fl64 1.55" for k
    using altitude_mono[OF r(1)[of k]] altitude_mono[OF r(2)[of k]] by (simp_all only: a0 a1)
  have sp: "fl64 0.002 \<le> fl64 (fl64 0.002 + fl64 (rnd k * fl64 0.01))"
    "fl64 (fl64 0.002 + fl64 (rnd k * fl64 0.01)) < 0.012" for k
    using speed_mono[OF r(1)[of k]] speed_mono[OF r(2)[of k]] s1 by (simp_all only: s0)
  have ph: "0 \<le> fl64 (fl64 (rnd k * Math_PI) * 2)"
    "fl64 (fl64 (rnd k * Math_PI) * 2) < 2 * Math_PI" for k
    using phase_mono[OF r(1)[of k]] phase_mono[OF r(2)[of k]] p1 by (simp_all only: p0)
  have inc: "0 \<le> fl64 (rnd k * Math_PI)" "fl64 (rnd k * Math_PI) < Math_PI" for k
    using inclination_mono[OF r(1)[of k]] inclination_mono[OF r(2)[of k]] i1
    by (simp_all only: i0)
  show ?thesis
    unfolding createSatellites_def list_all_iff
    using alt sp ph inc by (auto simp del: fl64_zero)
qed





section \<open>The points object exists wherever the buffers do\<close>

lemma keeps_points_refl [simp]: "keeps_points s s"
  by (simp add: keeps_points_def)

lemma keeps_points_trans: "keeps_points s s1 \<Longrightarrow> keeps_points s1 s2 \<Longrightarrow> keeps_points s s2"
  by (simp add: keeps_points_def)

lemma keeps_points_other_fields [simp]:
  "keeps_points s (s'\<lparr>tleLatestBuffer := l\<rparr>) = keeps_points s s'"
  "keeps_points s (s'\<lparr>lastTleUpdate := d\<rparr>) = keeps_points s s'"
  "keeps_points s (s'\<lparr>u_interp := u\<rparr>) = keeps_points s s'"
  "keeps_points s (s'\<lparr>satInterpStart := t\<rparr>) = keeps_points s s'"
  "keeps_points s (s'\<lparr>sgp4Worker := w\<rparr>) = keeps_points s s'"
  "keeps_points s (s'\<lparr>syntheticParams := ps\<rparr>) = keeps_points s s'"
  "keeps_points s (s'\<lparr>syntheticPositions := sp\<rparr>) = keeps_points s s'"
  "keeps_points s (s'\<lparr>prevSatBuffer := p\<rparr>) = keeps_points s s'"
  "keeps_points s (s'\<lparr>nextSatBuffer := n\<rparr>) = keeps_points s s'"
  by (simp_all add: keeps_points_def)

lemma keeps_points_slide: "keeps_points s (snd (slide p n arr s))"
  by (simp add: slide_def split: sum.splits)

lemma keeps_points_slide_latest: "keeps_points s (snd (slide p n arr (s\<lparr>tleLatestBuffer := l\<rparr>)))"
  by (simp add: slide_def split: sum.splits)

lemma keeps_points_onmessage: "keeps_points s (fst (snd (sgp4Worker_onmessage clk msg s)))"
proof (cases msg)
  case (Ready b n)
  then show ?thesis by (simp add: sgp4Worker_onmessage_def)
next
  case (Positions arr)
  show ?thesis
  proof (cases "prevSatBuffer s")
    case None
    then show ?thesis by (simp add: Positions sgp4Worker_onmessage_def)
  next
    case (Some p)
    note p = this
    show ?thesis
    proof (cases "nextSatBuffer s")
      case None
      then show ?thesis by (simp add: Positions sgp4Worker_onmessage_def p)
    next
      case (Some n)
      obtain e s2 where sl: "slide p n arr (s\<lparr>tleLatestBuffer := Some arr\<rparr>) = (e, s2)"
        by (cases "slide p n arr (s\<lparr>tleLatestBuffer := Some arr\<rparr>)") auto
      have "keeps_points s s2"
        using keeps_points_slide_latest[of s p n arr "Some arr"] sl by simp
      then show ?thesis
        by (cases e) (simp_all add: Positions sgp4Worker_onmessage_def p Some sl)
    qed
  qed
qed

lemma keeps_points_fallback: "keeps_points s (snd (updateTLEPositionsFallback satellite clk s))"
proof (cases "tleData s = [] \<or> satellite = None")
  case True
  then show ?thesis by (auto simp: updateTLEPositionsFallback_def)
next
  case False
  then obtain lib where lib: "satellite = Some lib" and ne: "tleData s \<noteq> []" by auto
  have other: "keeps_points s
      (snd (case tlePositionsAttr s of
              Some (Position a) \<Rightarrow>
                (case ta_set a arr of
                   Inl e \<Rightarrow> (Some e, s)
                 | Inr a' \<Rightarrow> (None, s\<lparr>tlePositionsAttr := Some (Position a'),
                       tleLatestBuffer := Some arr, lastTleUpdate := date_ms clk\<rparr>))
            | Some A_posNext \<Rightarrow>
                (case nextSatBuffer s of
                   None \<Rightarrow> (Some TypeError, s)
                 | Some n \<Rightarrow>
                     (case ta_set n arr of
                        Inl e \<Rightarrow> (Some e, s)
                      | Inr n' \<Rightarrow> (None, s\<lparr>nextSatBuffer := Some n',
                            tleLatestBuffer := Some arr, lastTleUpdate := date_ms clk\<rparr>)))
            | None \<Rightarrow> (None, s\<lparr>tleLatestBuffer := Some arr, lastTleUpdate := date_ms clk\<rparr>)))" for arr
    by (auto simp: keeps_points_def split: option.splits posattr.splits sum.splits)
  show ?thesis
  proof (cases "prevSatBuffer s")
    case None
    then show ?thesis
      using other by (simp add: updateTLEPositionsFallback_def lib ne Let_def)
  next
    case (Some p)
    note p = this
    show ?thesis
    proof (cases "nextSatBuffer s")
      case None
      then show ?thesis
        using other by (simp add: updateTLEPositionsFallback_def lib ne Let_def p)
    next
      case (Some n)
      obtain e s1 where sl: "slide p n (fallback_positions lib (date_ms clk) (Some n) (tleData s)) s = (e, s1)"
        by (cases "slide p n (fallback_positions lib (date_ms clk) (Some n) (tleData s)) s") auto
      have "keeps_points s s1"
        using keeps_points_slide[of s p n "fallback_positions lib (date_ms clk) (Some n) (tleData s)"] sl
        by simp
      then show ?thesis
        by (cases e) (simp_all add: updateTLEPositionsFallback_def lib ne Let_def p Some sl)
    qed
  qed
qed

lemma keeps_points_attr_store3: "keeps_points s (attr_store3 i v s)"
  by (auto simp: attr_store3_def keeps_points_def split: option.splits posattr.splits)

lemma keeps_points_updateTLEPositions_body: "keeps_points s (updateTLEPositions_body lib now gmst s i)"
  by (auto simp: updateTLEPositions_body_def Let_def keeps_points_attr_store3
      split: js.splits option.splits)

lemma keeps_points_foldl:
  assumes "\<And>s i. keeps_points s (body s i)"
  shows "keeps_points s (foldl body s xs)"
proof (induction xs arbitrary: s)
  case Nil
  show ?case by simp
next
  case (Cons x xs)
  have "keeps_points s (body s x)" by (rule assms)
  moreover have "keeps_points (body s x) (foldl body (body s x) xs)" by (rule Cons.IH)
  ultimately have "keeps_points s (foldl body (body s x) xs)" by (rule keeps_points_trans)
  then show ?case by simp
qed

lemma keeps_points_updateTLEPositions:
  "keeps_points s (fst (snd (updateTLEPositions satellite clk s)))"
proof -
  have f: "keeps_points s (foldl (updateTLEPositions_body lib now gmst) s xs)"
    for lib :: "('a, 'b) satellite_js" and now gmst xs
    by (rule keeps_points_foldl) (rule keeps_points_updateTLEPositions_body)
  show ?thesis
    by (simp add: updateTLEPositions_def Let_def f split: option.splits)
qed

lemma synth_loop_points:
  "tlePoints (snd (synth_loop xs s)) = tlePoints s
   \<and> tlePositionsAttr (snd (synth_loop xs s)) = tlePositionsAttr s"
proof (induction xs arbitrary: s)
  case Nil
  show ?case by simp
next
  case (Cons i rest)
  show ?case
    by (cases "i < length (syntheticParams s)") (simp_all add: Let_def Cons.IH)
qed

lemma keeps_points_animate: "keeps_points s (fst (snd (animate satellite clk s)))"
proof -
  define upd where "upd =
     (if date_ms clk - lastTleUpdate s > tleUpdateInterval then
        (case sgp4Worker s of
           Some w \<Rightarrow> updateTLEPositions satellite clk s
         | None \<Rightarrow> (None, snd (updateTLEPositionsFallback satellite clk s), [CallFallback]))
      else (None, s, []))"
  obtain e s1 acts where u: "upd = (e, s1, acts)" by (cases upd) auto
  have s1: "keeps_points s s1"
    using u keeps_points_updateTLEPositions[of s satellite clk] keeps_points_fallback[of s satellite clk]
    by (auto simp: upd_def split: if_splits option.splits)
  obtain e2 s2 where a: "animateSyntheticSatellites s1 = (e2, s2)"
    by (cases "animateSyntheticSatellites s1") auto
  have "keeps_points s1 s2"
    using synth_loop_points[of "[0..<SYNTHETIC_SAT_COUNT]" s1] a
    by (auto simp: animateSyntheticSatellites_def keeps_points_def split: if_splits)
  then have s2: "keeps_points s s2"
    using s1 by (blast intro: keeps_points_trans)
  have "keeps_points s2 (advance_interp clk s2)"
    by (simp add: advance_interp_def Let_def)
  then have s3: "keeps_points s (advance_interp clk s2)"
    using s2 by (blast intro: keeps_points_trans)
  have "animate satellite clk s = (case upd of
           (Some e, s1, acts) \<Rightarrow> (Some e, s1, acts)
         | (None, s1, acts) \<Rightarrow>
             (case animateSyntheticSatellites s1 of
                (Some e, s2) \<Rightarrow> (Some e, s2, acts)
              | (None, s2) \<Rightarrow> (None, advance_interp clk s2, acts)))"
    by (simp add: animate_def upd_def)
  then show ?thesis
    using s1 s2 s3 by (cases e; cases e2) (simp_all add: u a)
qed

lemma keeps_points_step: "keeps_points s (fst (step satellite ec s))"
proof (cases ec)
  case (Pair ev clk)
  show ?thesis
  proof (cases ev)
    case (WorkerMessage msg)
    then show ?thesis
      using keeps_points_onmessage[of s clk msg]
      by (cases "sgp4Worker_onmessage clk msg s") (simp add: step_def Pair)
  next
    case TimerTick
    then show ?thesis
      by (simp add: step_def Pair tleUpdateTimer_tick_def keeps_points_fallback split: option.splits)
  next
    case AnimationFrame
    then show ?thesis
      using keeps_points_animate[of s satellite clk]
      by (cases "animate satellite clk s") (simp add: step_def Pair)
  qed
qed

lemma keeps_points_run: "keeps_points s (fst (run satellite evs s))"
proof (induction evs arbitrary: s)
  case Nil
  show ?case by simp
next
  case (Cons ec rest)
  obtain s1 acts where st: "step satellite ec s = (s1, acts)" by (cases "step satellite ec s") auto
  have "keeps_points s s1" using keeps_points_step[of s satellite ec] st by simp
  moreover have "keeps_points s1 (fst (run satellite rest s1))" by (rule Cons.IH)
  ultimately have "keeps_points s (fst (run satellite rest s1))" by (rule keeps_points_trans)
  then show ?case
    by (cases "run satellite rest s1") (simp add: st)
qed

lemma placeholder_fold_points:
  "tlePoints (foldl placeholder_body s xs) = tlePoints s
   \<and> (tlePositionsAttr s \<noteq> None \<longrightarrow> tlePositionsAttr (foldl placeholder_body s xs) \<noteq> None)"
proof (induction xs arbitrary: s)
  case Nil
  show ?case by simp
next
  case (Cons x xs)
  have "keeps_points s (placeholder_body s x)" "tlePoints (placeholder_body s x) = tlePoints s"
    by (auto simp: placeholder_body_def Let_def attr_store3_def keeps_points_def
        split: option.splits posattr.splits)
  then show ?case using Cons.IH[of "placeholder_body s x"] by (simp add: keeps_points_def)
qed

lemma fetchTLES_catch_points:
  assumes "tlePoints s"
  shows "tlePoints (snd (fetchTLES_catch clk s)) \<and> tlePositionsAttr (snd (fetchTLES_catch clk s)) \<noteq> None"
  using assms placeholder_fold_points
  by (simp add: fetchTLES_catch_def Let_def del: upt.simps decimal.simps)

text \<open>
  After \<^verbatim>\<open>createSatellites\<close> and \<^verbatim>\<open>fetchTLES\<close>, whatever the fetch gave, and through
  every later event, the points object and its position attribute exist. Before that there
  are no buffers. So the two side conditions of the positions handler hold in every state
  of the program in which the buffers exist.
\<close>

lemma points_exist_after_fetch:
  "tlePoints (fst (run satellite evs (fst (snd (fetchTLES res mk satellite clk (createSatellites rnd s0))))))
   \<and> tlePositionsAttr (fst (run satellite evs (fst (snd (fetchTLES res mk satellite clk (createSatellites rnd s0))))))
       \<noteq> None"
proof -
  let ?c = "createSatellites rnd s0"
  let ?s = "fst (snd (fetchTLES res mk satellite clk ?c))"
  have tp: "tlePoints ?c" by (simp add: createSatellites_def)
  have j: "tlePoints ?s \<and> tlePositionsAttr ?s \<noteq> None"
  proof (cases res)
    case None
    then show ?thesis
      using fetchTLES_catch_points[OF tp, of clk]
      by (cases "fetchTLES_catch clk ?c") (simp add: fetchTLES_def)
  next
    case (Some doc)
    obtain b b' where b: "seed_buffers (length (parse_tles doc)) = (b, b')"
      by (cases "seed_buffers (length (parse_tles doc))") auto
    define s3 where "s3 = ?c\<lparr>tleData := parse_tles doc, tleCount := length (parse_tles doc),
        prevSatBuffer := Some b, nextSatBuffer := Some b', tlePositionsAttr := Some A_posNext\<rparr>"
    define s4 where "s4 = (if sgp4Worker s3 = None then setupSgp4Worker mk s3 else s3)"
    have j4: "tlePoints s4" "tlePositionsAttr s4 \<noteq> None"
      using tp by (simp_all add: s4_def s3_def setupSgp4Worker_def split: option.splits js.splits)
    have f: "fetchTLES res mk satellite clk ?c =
        (case sgp4Worker s4 of
           Some w \<Rightarrow> (None, s4, [PostMessage w (SetTLE (Some (tleData s4))), PostMessage w Update])
         | None \<Rightarrow>
             (case updateTLEPositions satellite clk s4 of
                (None, s5, acts) \<Rightarrow> (None, s5, acts)
              | (Some e, s5, acts) \<Rightarrow>
                  (case fetchTLES_catch clk s5 of (e', s') \<Rightarrow> (e', s', acts))))"
      using tp
      by (cases "sgp4Worker ?c")
         (simp_all add: Some fetchTLES_def Let_def b s3_def s4_def cong: option.case_cong)
    show ?thesis
    proof (cases "sgp4Worker s4")
      case (Some w)
      then show ?thesis using j4 by (simp add: f)
    next
      case None
      obtain e s5 acts where u: "updateTLEPositions satellite clk s4 = (e, s5, acts)"
        by (cases "updateTLEPositions satellite clk s4") auto
      have k: "keeps_points s4 s5"
        using keeps_points_updateTLEPositions[of s4 satellite clk] u by simp
      then have j5: "tlePoints s5" "tlePositionsAttr s5 \<noteq> None"
        using j4 by (simp_all add: keeps_points_def)
      show ?thesis
      proof (cases e)
        case None
        then show ?thesis using j5 \<open>sgp4Worker s4 = None\<close> by (simp add: f u)
      next
        case (Some err)
        then show ?thesis
          using fetchTLES_catch_points[OF j5(1), of clk] \<open>sgp4Worker s4 = None\<close>
          by (cases "fetchTLES_catch clk s5") (simp add: f u)
      qed
    qed
  qed
  show ?thesis
    using j keeps_points_run[of ?s satellite evs] by (simp add: keeps_points_def)
qed

end
